(* ===== verification/Prelude.thy ===== *)
theory Prelude
  imports Main "HOL-Library.Multiset"
begin

text \<open>
  Shared vocabulary of the development: computations that may raise (a sum with the
  exception on the left), loops over lists that stop at the first exception, the string
  predicates of the Python code, and the collections of facts the component proofs use.
\<close>

named_theorems result_eqs \<open>inversion of successful and failed computations\<close>
named_theorems lifecycle_defs \<open>definitions of the aggregate operations\<close>

section \<open>Computations that may raise\<close>

definition rbind :: "'e + 'a \<Rightarrow> ('a \<Rightarrow> 'e + 'b) \<Rightarrow> 'e + 'b" where
  "rbind m f = (case m of Inl e \<Rightarrow> Inl e | Inr x \<Rightarrow> f x)"

lemma rbind_Inl [simp]: "rbind (Inl e) f = Inl e"
  by (simp add: rbind_def)

lemma rbind_Inr [simp]: "rbind (Inr x) f = f x"
  by (simp add: rbind_def)

lemma rbind_eq_Inr [result_eqs]: "rbind m f = Inr y \<longleftrightarrow> (\<exists>x. m = Inr x \<and> f x = Inr y)"
  by (cases m) simp_all

lemma rbind_eq_Inl [result_eqs]:
  "rbind m f = Inl e \<longleftrightarrow> m = Inl e \<or> (\<exists>x. m = Inr x \<and> f x = Inl e)"
  by (cases m) simp_all

text \<open>\<open>ensure c e\<close> is the guard \<^verbatim>\<open>if not c: raise e\<close>.\<close>

definition ensure :: "bool \<Rightarrow> 'e \<Rightarrow> 'e + unit" where
  "ensure c e = (if c then Inr () else Inl e)"

lemma ensure_True [simp]: "ensure True e = Inr ()"
  by (simp add: ensure_def)

lemma ensure_False [simp]: "ensure False e = Inl e"
  by (simp add: ensure_def)

lemma ensure_eq_Inr [result_eqs]: "ensure c e = Inr u \<longleftrightarrow> c"
  by (simp add: ensure_def)

lemma ensure_eq_Inl [result_eqs]: "ensure c e = Inl e' \<longleftrightarrow> \<not> c \<and> e' = e"
  by (auto simp: ensure_def)

text \<open>A comprehension over a tuple whose body may raise: the first exception wins.\<close>

fun rmap :: "('a \<Rightarrow> 'e + 'b) \<Rightarrow> 'a list \<Rightarrow> 'e + 'b list" where
  "rmap f [] = Inr []"
| "rmap f (x # xs) = rbind (f x) (\<lambda>y. rbind (rmap f xs) (\<lambda>ys. Inr (y # ys)))"

lemma rmap_Inr_all: "(\<And>x. x \<in> set xs \<Longrightarrow> f x = Inr (g x)) \<Longrightarrow> rmap f xs = Inr (map g xs)"
  by (induction xs) auto

lemma rmap_map_inverse:
  "(\<And>x. x \<in> set xs \<Longrightarrow> f (g x) = Inr x) \<Longrightarrow> rmap f (map g xs) = Inr xs"
  by (induction xs) auto

text \<open>A loop whose body only checks: every element passes, or the first failure is raised.\<close>

fun rcheck :: "('a \<Rightarrow> 'e + unit) \<Rightarrow> 'a list \<Rightarrow> 'e + unit" where
  "rcheck f [] = Inr ()"
| "rcheck f (x # xs) = rbind (f x) (\<lambda>_. rcheck f xs)"

lemma rcheck_eq_Inr [result_eqs]: "rcheck f xs = Inr u \<longleftrightarrow> (\<forall>x \<in> set xs. f x = Inr ())"
  by (induction xs) (auto simp: rbind_eq_Inr)

text \<open>
  A handler \<^verbatim>\<open>except E as exc: raise g(exc)\<close> replaces the exception; what the
  handler does not catch passes unchanged, which the replacing function states.
\<close>

definition rcatch :: "('e \<Rightarrow> 'e) \<Rightarrow> 'e + 'a \<Rightarrow> 'e + 'a" where
  "rcatch g m = (case m of Inl e \<Rightarrow> Inl (g e) | Inr x \<Rightarrow> Inr x)"

lemma rcatch_simps [simp]: "rcatch g (Inr x) = Inr x" "rcatch g (Inl e) = Inl (g e)"
  by (simp_all add: rcatch_def)

lemma rcatch_eq_Inr [result_eqs]: "rcatch g m = Inr x \<longleftrightarrow> m = Inr x"
  by (cases m) simp_all

section \<open>Strings\<close>

text \<open>
  A \<^verbatim>\<open>str\<close> is a list of characters with code points below 256. On that range
  \<^verbatim>\<open>str.isspace\<close> holds of the code points 9 to 13, 28 to 32, 133 and 160, and
  \<^verbatim>\<open>\d\<close> matches the ten ASCII digits.
\<close>

definition is_py_space :: "char \<Rightarrow> bool" where
  "is_py_space c =
     (let n = (of_char c :: nat)
      in 9 \<le> n \<and> n \<le> 13 \<or> 28 \<le> n \<and> n \<le> 32 \<or> n = 133 \<or> n = 160)"

definition strip :: "string \<Rightarrow> string" where
  "strip s = rev (dropWhile is_py_space (rev (dropWhile is_py_space s)))"

definition blank :: "string \<Rightarrow> bool" where
  "blank s \<longleftrightarrow> strip s = []"

lemma strip_eq_Nil_iff: "strip s = [] \<longleftrightarrow> dropWhile is_py_space s = []"
proof
  assume "strip s = []"
  then have all: "\<forall>c \<in> set (dropWhile is_py_space s). is_py_space c"
    by (auto simp: strip_def dropWhile_eq_Nil_conv)
  show "dropWhile is_py_space s = []"
  proof (rule ccontr)
    assume ne: "dropWhile is_py_space s \<noteq> []"
    then have "\<not> is_py_space (hd (dropWhile is_py_space s))"
      by (rule hd_dropWhile)
    with all ne show False by simp
  qed
qed (simp only: strip_def rev.simps dropWhile.simps)

lemma blank_iff_spaces: "blank s \<longleftrightarrow> (\<forall>c \<in> set s. is_py_space c)"
  by (simp add: blank_def strip_eq_Nil_iff dropWhile_eq_Nil_conv)

lemma blank_Nil [simp]: "blank []"
  by (simp add: blank_iff_spaces)

lemma not_blank_not_Nil: "\<not> blank s \<Longrightarrow> s \<noteq> []"
  by auto

definition is_digit :: "char \<Rightarrow> bool" where
  "is_digit c = (let n = (of_char c :: nat) in 48 \<le> n \<and> n \<le> 57)"

fun join :: "string \<Rightarrow> string list \<Rightarrow> string" where
  "join sep [] = []"
| "join sep [s] = s"
| "join sep (s # t # ts) = s @ sep @ join sep (t # ts)"

lemma not_in_image: "x \<notin> f ` A \<longleftrightarrow> (\<forall>y \<in> A. f y \<noteq> x)"
  by auto

lemma filter_mset_none: "{#x \<in># M. P x#} = {#} \<longleftrightarrow> (\<forall>x \<in># M. \<not> P x)"
  by (induction M) auto

lemma image_mset_fixed: "(\<And>x. x \<in># M \<Longrightarrow> f x = x) \<Longrightarrow> image_mset f M = M"
  by (induction M) auto

lemma case_list_hd: "(case xs of [] \<Rightarrow> a | y # ys \<Rightarrow> f y) = (if xs = [] then a else f (hd xs))"
  by (cases xs) simp_all

section \<open>Optional values and numbered lists\<close>

definition opt_all :: "('a \<Rightarrow> bool) \<Rightarrow> 'a option \<Rightarrow> bool" where
  "opt_all P x = (case x of None \<Rightarrow> True | Some y \<Rightarrow> P y)"

lemma opt_all_simps [simp]: "opt_all P None" "opt_all P (Some y) = P y"
  by (simp_all add: opt_all_def)

text \<open>\<^verbatim>\<open>enumerate(xs, start=n)\<close>, with the counter as an \<^typ>\<open>int\<close>.\<close>

fun enumerate_from :: "int \<Rightarrow> 'a list \<Rightarrow> (int \<times> 'a) list" where
  "enumerate_from n [] = []"
| "enumerate_from n (x # xs) = (n, x) # enumerate_from (n + 1) xs"

lemma map_snd_enumerate_from [simp]: "map snd (enumerate_from n xs) = xs"
  by (induction xs arbitrary: n) auto

lemma length_enumerate_from [simp]: "length (enumerate_from n xs) = length xs"
  by (induction xs arbitrary: n) auto

lemma nth_enumerate_from:
  "i < length xs \<Longrightarrow> enumerate_from n xs ! i = (n + int i, xs ! i)"
proof (induction xs arbitrary: n i)
  case (Cons x xs)
  then show ?case by (cases i) auto
qed simp

lemma enumerate_from_append:
  "enumerate_from n (xs @ ys) = enumerate_from n xs @ enumerate_from (n + int (length xs)) ys"
  by (induction xs arbitrary: n) (auto simp: algebra_simps)

lemma sorted_fst_enumerate_from: "sorted_wrt (<) (map fst (enumerate_from n xs))"
proof (induction xs arbitrary: n)
  case (Cons x xs)
  have "\<forall>k \<in> set (map fst (enumerate_from m xs)). m \<le> k" for m
  proof (induction xs arbitrary: m)
    case (Cons y ys)
    from Cons[of "m + 1"] show ?case by fastforce
  qed simp
  from this[of "n + 1"] Cons show ?case by fastforce
qed simp

end
