(* ===== verification/Values.thy ===== *)
theory Values
  imports Prelude
begin

text \<open>
  The value objects the aggregates are built from: governance identifiers
  (\<^verbatim>\<open>identifiers/types.py\<close>), runtime identifiers (\<^verbatim>\<open>shared/identifiers.py\<close>), their pairing
  (\<^verbatim>\<open>identifiers/pairs.py\<close>), versions and transition sequences
  (\<^verbatim>\<open>shared/domain/versioning.py\<close>), and one type for the exceptions the domain, the
  mappers, the repositories and the unit of work raise.
\<close>

section \<open>Data\<close>

text \<open>The concrete classes of \<^verbatim>\<open>identifiers/types.py\<close>; \<^verbatim>\<open>isinstance\<close> is a test of the class.\<close>

datatype id_class =
  CampaignId | RunId | DatasetId | BacktestRunId | EvidencePackageId | ReviewId | AuditId
| DecisionCandidateId | TradingOpportunityScanId | TradePlanId | PositionPlanId
| ValidationStudyId | RobustnessStudyId | SurvivorshipStudyId | CorporateActionStressId
| StatisticalEvidenceReportId | PortfolioStudyId | PortfolioDependenceReportId
| ResearchSessionId | OperatorPositionEventId

fun id_prefix :: "id_class \<Rightarrow> string" where
  "id_prefix CampaignId = ''CAMP''"
| "id_prefix RunId = ''RUN''"
| "id_prefix DatasetId = ''DATASET''"
| "id_prefix BacktestRunId = ''BTRUN''"
| "id_prefix EvidencePackageId = ''EVID''"
| "id_prefix ReviewId = ''REVIEW''"
| "id_prefix AuditId = ''AUD''"
| "id_prefix DecisionCandidateId = ''DCAND''"
| "id_prefix TradingOpportunityScanId = ''SCAN''"
| "id_prefix TradePlanId = ''PLAN''"
| "id_prefix PositionPlanId = ''POS''"
| "id_prefix ValidationStudyId = ''STUDY''"
| "id_prefix RobustnessStudyId = ''ROBUST''"
| "id_prefix SurvivorshipStudyId = ''SURV''"
| "id_prefix CorporateActionStressId = ''CASTR''"
| "id_prefix StatisticalEvidenceReportId = ''STATEV''"
| "id_prefix PortfolioStudyId = ''PORT''"
| "id_prefix PortfolioDependenceReportId = ''DEPEND''"
| "id_prefix ResearchSessionId = ''RESEARCH''"
| "id_prefix OperatorPositionEventId = ''OPEV''"

datatype governance_identifier = Identifier (identifier_class: id_class) (identifier_value: string)

datatype runtime_identifier = RuntimeIdentifier (runtime_value: string)

record domain_identity =
  governance_id :: governance_identifier
  runtime_id :: runtime_identifier

datatype aggregate_version = AggregateVersion (version_value: int)

datatype transition_sequence = TransitionSequence (sequence_value: int)

text \<open>
  A \<^verbatim>\<open>datetime\<close> is naive (a wall-clock reading in microseconds, no zone) or aware; aware
  datetimes compare by their instant, so the instant is what the model keeps.
\<close>

datatype datetime = Naive int | Aware int

fun is_aware :: "datetime \<Rightarrow> bool" where
  "is_aware (Aware _) = True"
| "is_aware (Naive _) = False"

section \<open>Exceptions\<close>

datatype reconstruction_category =
  WRONG_RECONSTRUCTION_INPUT | INVALID_AGGREGATE_IDENTITY | INVALID_LIFECYCLE_STATE
| INVALID_AGGREGATE_VERSION | INVALID_TRANSITION_SEQUENCE | INVALID_TRANSITION_HISTORY
| INCONSISTENT_CURRENT_STATE | INVALID_COLLECTION_ELEMENT | DUPLICATE_OWNED_VALUE
| INCONSISTENT_TERMINAL_METADATA | UNAUTHORIZED_RECONSTRUCTION_PATH

datatype mapper_category = INVALID_DURABLE_RECORD | INVALID_AGGREGATE_FOR_MAPPING

datatype ledger_rejection_reason =
  POSITION_NOT_OPEN | POSITION_ALREADY_OPEN | POSITION_ALREADY_CLOSED
| REDUCTION_EXCEEDS_OPEN_QUANTITY | INSTRUMENT_MISMATCH_FOR_POSITION
| DUPLICATE_EVENT_GOVERNANCE_ID | NON_POSITIVE_QUANTITY | NAIVE_TIMESTAMP
| NON_POSITIVE_ASSERTED_PRICE | ASSERTED_PRICE_PRECISION_EXCEEDED

datatype foundation_category = CONFIGURATION | PERSISTENCE | OBJECT_STORAGE | TIME_IDENTIFIER | FOUNDATION

text \<open>
  What the database driver raises, by the classes \<^verbatim>\<open>_safe_message_for\<close> tells apart. A
  unique violation (SQLSTATE 23505) is a \<^verbatim>\<open>DBAPIError\<close> and carries the constraint's name,
  which the repositories read.
\<close>

datatype db_error =
  UniqueViolation string | DatabaseError | ServerUnreachable | PoolTimeout | LibraryError | OtherFailure

text \<open>
  One constructor per exception class, with the fields the code sets. A
  \<^verbatim>\<open>ReconstructionError\<close> carries category, message and field, a \<^verbatim>\<open>MapperError\<close> category,
  message, kind and field, a \<^verbatim>\<open>FoundationError\<close> category, message, operation and the
  \<^verbatim>\<open>__cause__\<close> the repositories inspect; the repository errors carry the aggregate kind and
  what \<^verbatim>\<open>shared/contracts/repository.py\<close> stores with it; \<open>AlreadyExistsFor\<close> is an
  \<^verbatim>\<open>AggregateAlreadyExists\<close> whose identity is a plain string.
\<close>

datatype exn =
  TypeError string
| ValueError string
| KeyError string
| ReconstructionError reconstruction_category string string
| MapperError mapper_category string string "string option"
| FoundationError foundation_category string string "db_error option"
| AggregateNotFound string domain_identity
| AggregateAlreadyExists string domain_identity
| OptimisticConcurrencyConflict string domain_identity aggregate_version aggregate_version "aggregate_version option"
| InvalidAggregateForPersistence string string "domain_identity option"
| InvalidPersistedAggregateState string string "domain_identity option"
| ArithmeticError string
| LedgerRejectionError ledger_rejection_reason
| NotFoundError string
| AlreadyExistsFor string string

section \<open>Governance identifiers\<close>

text \<open>
  \<^verbatim>\<open>re.match(rf"^{prefix}-\d{4}$", value)\<close>: \<^verbatim>\<open>$\<close> without \<^verbatim>\<open>re.MULTILINE\<close> matches at the end
  and also before one trailing newline, which is the second case below.
\<close>

fun four_digits_then_end :: "string \<Rightarrow> bool" where
  "four_digits_then_end [a, b, c, d] = (is_digit a \<and> is_digit b \<and> is_digit c \<and> is_digit d)"
| "four_digits_then_end [a, b, c, d, e] =
     (is_digit a \<and> is_digit b \<and> is_digit c \<and> is_digit d \<and> of_char e = (10::nat))"
| "four_digits_then_end _ = False"

definition identifier_matches :: "id_class \<Rightarrow> string \<Rightarrow> bool" where
  "identifier_matches cls v =
     (let p = id_prefix cls
      in take (length p) v = p
         \<and> (case drop (length p) v of
              [] \<Rightarrow> False
            | c # rest \<Rightarrow> c = CHR ''-'' \<and> four_digits_then_end rest))"

definition make_identifier :: "id_class \<Rightarrow> string \<Rightarrow> exn + governance_identifier" where
  "make_identifier cls v =
     (if identifier_matches cls v then Inr (Identifier cls v)
      else Inl (ValueError (''Identifier must match ^'' @ id_prefix cls @ ''-'' @ [CHR 0x5C] @ ''d{4}$'')))"

fun identifier_str :: "governance_identifier \<Rightarrow> string" where
  "identifier_str (Identifier _ v) = v"

fun identifier_ok :: "governance_identifier \<Rightarrow> bool" where
  "identifier_ok (Identifier cls v) = identifier_matches cls v"

lemma make_identifier_ok [result_eqs]:
  "make_identifier cls v = Inr i \<longleftrightarrow> i = Identifier cls v \<and> identifier_ok i"
  by (auto simp: make_identifier_def)

lemma make_identifier_str:
  "identifier_ok i \<Longrightarrow> identifier_class i = cls \<Longrightarrow> make_identifier cls (identifier_str i) = Inr i"
  by (cases i) (simp add: make_identifier_def)

lemma identifier_str_inj:
  "identifier_class i = identifier_class j \<Longrightarrow> identifier_str i = identifier_str j \<longleftrightarrow> i = j"
  by (cases i; cases j) auto

section \<open>Runtime identifiers\<close>

text \<open>
  \<^verbatim>\<open>RuntimeIdentifier\<close> parses the value with \<^verbatim>\<open>uuid.UUID(value, version=4)\<close> and refuses it
  unless the parsed UUID prints back to the value and has version 4. \<^verbatim>\<open>str(UUID)\<close> always has
  the canonical shape (lower-case hex in groups of 8-4-4-4-12, here with version digit 4 and
  variant digit 8, 9, a or b), and a string of that shape parses to itself, so the values
  accepted are exactly those of that shape. Both refusals are \<^verbatim>\<open>ValueError\<close>s.
\<close>

definition is_lower_hex :: "char \<Rightarrow> bool" where
  "is_lower_hex c \<longleftrightarrow> is_digit c \<or> (let n = (of_char c :: nat) in 97 \<le> n \<and> n \<le> 102)"

definition uuid4_canonical :: "string \<Rightarrow> bool" where
  "uuid4_canonical s \<longleftrightarrow>
     length s = 36
     \<and> (\<forall>i \<in> set [0..<36].
          if i \<in> {8, 13, 18, 23} then s ! i = CHR ''-'' else is_lower_hex (s ! i))
     \<and> s ! 14 = CHR ''4'' \<and> s ! 19 \<in> {CHR ''8'', CHR ''9'', CHR ''a'', CHR ''b''}"

definition make_runtime_identifier :: "string \<Rightarrow> exn + runtime_identifier" where
  "make_runtime_identifier v =
     (if uuid4_canonical v then Inr (RuntimeIdentifier v)
      else Inl (ValueError ''runtime identifier must be a canonical UUIDv4 value''))"

fun runtime_identifier_ok :: "runtime_identifier \<Rightarrow> bool" where
  "runtime_identifier_ok (RuntimeIdentifier v) = uuid4_canonical v"

definition is_valid_runtime_identifier :: "string \<Rightarrow> bool" where
  "is_valid_runtime_identifier v =
     (case make_runtime_identifier v of Inl _ \<Rightarrow> False | Inr _ \<Rightarrow> True)"

lemma make_runtime_identifier_ok [result_eqs]:
  "make_runtime_identifier v = Inr r \<longleftrightarrow> r = RuntimeIdentifier v \<and> runtime_identifier_ok r"
  by (auto simp: make_runtime_identifier_def)

lemma make_runtime_identifier_value:
  "runtime_identifier_ok r \<Longrightarrow> make_runtime_identifier (runtime_value r) = Inr r"
  by (cases r) (simp add: make_runtime_identifier_def)

text \<open>The deterministic generator: a queue of configured values, consumed from the front.\<close>

fun deterministic_generate :: "string list \<Rightarrow> (exn + runtime_identifier) \<times> string list" where
  "deterministic_generate [] =
     (Inl (FoundationError TIME_IDENTIFIER ''No deterministic runtime identifier remains'' ''generate'' None), [])"
| "deterministic_generate (v # vs) = (make_runtime_identifier v, vs)"

section \<open>Identity pairs\<close>

definition pair_identity :: "governance_identifier \<Rightarrow> runtime_identifier \<Rightarrow> domain_identity" where
  "pair_identity g r = \<lparr>governance_id = g, runtime_id = r\<rparr>"

text \<open>An identity of the given class whose two parts passed their constructors.\<close>

definition identity_ok :: "id_class \<Rightarrow> domain_identity \<Rightarrow> bool" where
  "identity_ok cls i \<longleftrightarrow>
     identifier_class (governance_id i) = cls \<and> identifier_ok (governance_id i)
     \<and> runtime_identifier_ok (runtime_id i)"

abbreviation gov_str :: "domain_identity \<Rightarrow> string" where
  "gov_str i \<equiv> identifier_str (governance_id i)"

abbreviation run_str :: "domain_identity \<Rightarrow> string" where
  "run_str i \<equiv> runtime_value (runtime_id i)"

lemma identity_eqI:
  "identity_ok cls i \<Longrightarrow> identity_ok cls j \<Longrightarrow> gov_str i = gov_str j \<Longrightarrow> run_str i = run_str j
   \<Longrightarrow> i = j"
  by (cases i; cases j)
    (auto simp: identity_ok_def identifier_str_inj intro: runtime_identifier.expand)

section \<open>Versions and transition sequences\<close>

definition make_version :: "int \<Rightarrow> exn + aggregate_version" where
  "make_version n =
     (if n < 0 then Inl (ValueError ''aggregate version must be non-negative'')
      else Inr (AggregateVersion n))"

definition version_initial :: aggregate_version where
  "version_initial = AggregateVersion 0"

definition version_next :: "aggregate_version \<Rightarrow> aggregate_version" where
  "version_next v = AggregateVersion (version_value v + 1)"

definition make_sequence :: "int \<Rightarrow> exn + transition_sequence" where
  "make_sequence n =
     (if n < 1 then Inl (ValueError ''transition sequence must be positive'')
      else Inr (TransitionSequence n))"

definition sequence_initial :: transition_sequence where
  "sequence_initial = TransitionSequence 1"

definition sequence_next :: "transition_sequence \<Rightarrow> transition_sequence" where
  "sequence_next s = TransitionSequence (sequence_value s + 1)"

text \<open>\<^verbatim>\<open>@dataclass(order=True)\<close>: both classes are ordered by their value.\<close>

instantiation aggregate_version :: linorder
begin

definition less_eq_aggregate_version :: "aggregate_version \<Rightarrow> aggregate_version \<Rightarrow> bool" where
  "less_eq_aggregate_version v w \<longleftrightarrow> version_value v \<le> version_value w"

definition less_aggregate_version :: "aggregate_version \<Rightarrow> aggregate_version \<Rightarrow> bool" where
  "less_aggregate_version v w \<longleftrightarrow> version_value v < version_value w"

instance
  by intro_classes
    (auto simp: less_eq_aggregate_version_def less_aggregate_version_def
      intro: aggregate_version.expand)

end

instantiation transition_sequence :: linorder
begin

definition less_eq_transition_sequence :: "transition_sequence \<Rightarrow> transition_sequence \<Rightarrow> bool" where
  "less_eq_transition_sequence v w \<longleftrightarrow> sequence_value v \<le> sequence_value w"

definition less_transition_sequence :: "transition_sequence \<Rightarrow> transition_sequence \<Rightarrow> bool" where
  "less_transition_sequence v w \<longleftrightarrow> sequence_value v < sequence_value w"

instance
  by intro_classes
    (auto simp: less_eq_transition_sequence_def less_transition_sequence_def
      intro: transition_sequence.expand)

end

lemmas version_order = less_eq_aggregate_version_def less_aggregate_version_def

lemma version_value_simps [simp]:
  "version_value version_initial = 0" "version_value (version_next v) = version_value v + 1"
  by (simp_all add: version_initial_def version_next_def)

lemma version_next_neq [simp]: "version_next v \<noteq> v" "v \<noteq> version_next v"
  by (cases v; simp add: version_next_def)+

lemma sequence_value_simps [simp]:
  "sequence_value sequence_initial = 1" "sequence_value (sequence_next s) = sequence_value s + 1"
  by (simp_all add: sequence_initial_def sequence_next_def)

lemma make_version_value: "0 \<le> version_value v \<Longrightarrow> make_version (version_value v) = Inr v"
  by (cases v) (simp add: make_version_def)

lemma make_sequence_value: "1 \<le> sequence_value s \<Longrightarrow> make_sequence (sequence_value s) = Inr s"
  by (cases s) (simp add: make_sequence_def)

section \<open>Non-empty strings\<close>

text \<open>
  \<^verbatim>\<open>_require_non_empty\<close> and \<^verbatim>\<open>_require_optional_non_empty\<close>, which every aggregate module
  repeats. Their \<^verbatim>\<open>isinstance\<close> tests cannot fail on the annotated types.
\<close>

definition require_non_empty :: "string \<Rightarrow> string \<Rightarrow> exn + unit" where
  "require_non_empty v field = ensure (\<not> blank v) (ValueError (field @ '' must be non-empty''))"

definition require_optional_non_empty :: "string option \<Rightarrow> string \<Rightarrow> exn + unit" where
  "require_optional_non_empty v field =
     (case v of None \<Rightarrow> Inr () | Some s \<Rightarrow> require_non_empty s field)"

lemma require_non_empty_Inr [result_eqs]: "require_non_empty v f = Inr u \<longleftrightarrow> \<not> blank v"
  by (simp add: require_non_empty_def ensure_eq_Inr)

lemma require_optional_non_empty_Inr [result_eqs]:
  "require_optional_non_empty v f = Inr u \<longleftrightarrow> opt_all (\<lambda>s. \<not> blank s) v"
  by (cases v) (simp_all add: require_optional_non_empty_def require_non_empty_Inr)

section \<open>Which governance identifiers are accepted\<close>

lemma four_digits_then_end_iff:
  "four_digits_then_end v \<longleftrightarrow>
     (\<exists>ds tail. v = ds @ tail \<and> length ds = 4 \<and> list_all is_digit ds \<and> (tail = [] \<or> tail = [CHR 0x0A]))"
proof -
  have newline: "of_char e = (10::nat) \<longleftrightarrow> e = CHR 0x0A" for e
    using of_char_eq_iff[where 'a = nat, of e "CHR 0x0A"] by simp
  show ?thesis
  proof
    assume "four_digits_then_end v"
    then show "\<exists>ds tail. v = ds @ tail \<and> length ds = 4 \<and> list_all is_digit ds \<and> (tail = [] \<or> tail = [CHR 0x0A])"
    proof (cases v rule: four_digits_then_end.cases)
      case (1 a b c d)
      with \<open>four_digits_then_end v\<close> show ?thesis
        by (intro exI[of _ "[a, b, c, d]"] exI[of _ "[]"]) simp
    next
      case (2 a b c d e)
      with \<open>four_digits_then_end v\<close> newline show ?thesis
        by (intro exI[of _ "[a, b, c, d]"] exI[of _ "[e]"]) simp
    qed simp_all
  next
    assume "\<exists>ds tail. v = ds @ tail \<and> length ds = 4 \<and> list_all is_digit ds \<and> (tail = [] \<or> tail = [CHR 0x0A])"
    then obtain ds tail where v: "v = ds @ tail" "length ds = 4" "list_all is_digit ds"
      "tail = [] \<or> tail = [CHR 0x0A]" by blast
    from v(2) obtain a b c d where "ds = [a, b, c, d]"
      by (auto simp: numeral_eq_Suc length_Suc_conv)
    with v show "four_digits_then_end v" by (elim disjE) simp_all
  qed
qed


end
