(* ===== verification/Decimals.thy ===== *)
theory Decimals
  imports Values Complex_Main
begin

text \<open>
  Python's \<^verbatim>\<open>decimal.Decimal\<close> under the default context, which is the one the program uses:
  28 significant digits, rounding half to even, exponents from -999999 to 999999, and the traps
  for \<^verbatim>\<open>InvalidOperation\<close>, \<^verbatim>\<open>DivisionByZero\<close> and \<^verbatim>\<open>Overflow\<close>. A finite number is a sign, a
  coefficient (not negative) and an exponent, so two numbers of the same value with different
  exponents are different objects, as in Python. The file proves what the models rely on: when
  an operation is exact, and how far a rounded quotient may be off.
\<close>

section \<open>Numbers\<close>

datatype decimal =
  Dec (dec_negative: bool) (dec_coefficient: int) (dec_exponent: int)
| DecInfinity bool
| DecNaN

fun is_finite :: "decimal \<Rightarrow> bool" where
  "is_finite (Dec _ _ _) = True"
| "is_finite _ = False"

fun dec_ok :: "decimal \<Rightarrow> bool" where
  "dec_ok (Dec _ c _) \<longleftrightarrow> 0 \<le> c"
| "dec_ok _ = True"

definition pow10 :: "int \<Rightarrow> int" where
  "pow10 k = 10 ^ nat k"

definition signed :: "bool \<Rightarrow> int \<Rightarrow> int" where
  "signed s c = (if s then - c else c)"

text \<open>The number of decimal digits of a coefficient; zero has one.\<close>

function ndigits :: "int \<Rightarrow> int" where
  "ndigits c = (if c < 10 then 1 else 1 + ndigits (c div 10))"
  by auto
termination by (relation "measure nat") auto

declare ndigits.simps [simp del]

definition dec_of_int :: "int \<Rightarrow> decimal" where
  "dec_of_int n = Dec (n < 0) \<bar>n\<bar> 0"

section \<open>Rounding\<close>

datatype rounding = ROUND_HALF_EVEN | ROUND_DOWN

fun round_div :: "rounding \<Rightarrow> int \<Rightarrow> int \<Rightarrow> int" where
  "round_div ROUND_DOWN c p = c div p"
| "round_div ROUND_HALF_EVEN c p =
     (let q = c div p; r = c mod p in if p < 2 * r \<or> 2 * r = p \<and> odd q then q + 1 else q)"

text \<open>The coefficient at exponent \<open>e'\<close> of the number with coefficient \<open>c\<close> at exponent \<open>e\<close>.\<close>

definition rescaled :: "rounding \<Rightarrow> int \<Rightarrow> int \<Rightarrow> int \<Rightarrow> int" where
  "rescaled m c e e' = (if e' \<le> e then c * pow10 (e - e') else round_div m c (pow10 (e' - e)))"

definition precision :: int where "precision = 28"

definition emax :: int where "emax = 999999"

definition etiny :: int where "etiny = - 1000026"

definition decimal_overflow :: exn where "decimal_overflow = ArithmeticError ''Overflow''"

definition invalid_operation :: exn where "invalid_operation = ArithmeticError ''InvalidOperation''"

text \<open>What every arithmetic operation does with its exact result.\<close>

definition dec_fix :: "bool \<Rightarrow> int \<Rightarrow> int \<Rightarrow> exn + decimal" where
  "dec_fix s c e =
     (if c = 0 then Inr (Dec s 0 (min (max e etiny) emax))
      else if emax < ndigits c + e - 1 then Inl decimal_overflow
      else
        let m = max (ndigits c + e - precision) etiny in
        if m \<le> e then Inr (Dec s c e)
        else
          let c' = rescaled ROUND_HALF_EVEN c e m in
          if precision < ndigits c' then
            (if emax < m + precision then Inl decimal_overflow else Inr (Dec s (c' div 10) (m + 1)))
          else Inr (Dec s c' m))"

section \<open>Arithmetic\<close>

fun dec_minus :: "decimal \<Rightarrow> decimal" where
  "dec_minus (Dec s c e) = Dec (\<not> s) c e"
| "dec_minus (DecInfinity s) = DecInfinity (\<not> s)"
| "dec_minus DecNaN = DecNaN"

text \<open>Unary minus: a zero becomes positive, and the result is rounded.\<close>

fun dec_negate :: "decimal \<Rightarrow> exn + decimal" where
  "dec_negate (Dec s c e) = dec_fix (c \<noteq> 0 \<and> \<not> s) c e"
| "dec_negate x = Inr (dec_minus x)"

fun dec_add :: "decimal \<Rightarrow> decimal \<Rightarrow> exn + decimal" where
  "dec_add (Dec s c e) (Dec s' c' e') =
     (let m = min e e'; t = signed s c * pow10 (e - m) + signed s' c' * pow10 (e' - m)
      in dec_fix (if t = 0 then c = 0 \<and> c' = 0 \<and> s \<and> s' else t < 0) \<bar>t\<bar> m)"
| "dec_add DecNaN _ = Inr DecNaN"
| "dec_add _ DecNaN = Inr DecNaN"
| "dec_add (DecInfinity s) (DecInfinity s') = (if s = s' then Inr (DecInfinity s) else Inl invalid_operation)"
| "dec_add (DecInfinity s) (Dec _ _ _) = Inr (DecInfinity s)"
| "dec_add (Dec _ _ _) (DecInfinity s) = Inr (DecInfinity s)"

definition dec_sub :: "decimal \<Rightarrow> decimal \<Rightarrow> exn + decimal" where
  "dec_sub x y = dec_add x (dec_minus y)"

fun dec_mul :: "decimal \<Rightarrow> decimal \<Rightarrow> exn + decimal" where
  "dec_mul (Dec s c e) (Dec s' c' e') = dec_fix (s \<noteq> s') (c * c') (e + e')"
| "dec_mul DecNaN _ = Inr DecNaN"
| "dec_mul _ DecNaN = Inr DecNaN"
| "dec_mul (DecInfinity s) (DecInfinity s') = Inr (DecInfinity (s \<noteq> s'))"
| "dec_mul (DecInfinity s) (Dec s' c' _) = (if c' = 0 then Inl invalid_operation else Inr (DecInfinity (s \<noteq> s')))"
| "dec_mul (Dec s c _) (DecInfinity s') = (if c = 0 then Inl invalid_operation else Inr (DecInfinity (s \<noteq> s')))"

text \<open>An exact quotient drops trailing zeros until the exponent is the difference of the exponents.\<close>

function drop_zeros :: "int \<Rightarrow> int \<Rightarrow> int \<Rightarrow> int \<times> int" where
  "drop_zeros c e ideal =
     (if e < ideal \<and> c mod 10 = 0 then drop_zeros (c div 10) (e + 1) ideal else (c, e))"
  by auto
termination by (relation "measure (\<lambda>(c, e, ideal). nat (ideal - e))") auto

declare drop_zeros.simps [simp del]

text \<open>
  An inexact quotient is truncated to at least 29 digits with a last digit that is neither 0 nor
  5, so that rounding to 28 digits rounds the true quotient.
\<close>

fun dec_div :: "decimal \<Rightarrow> decimal \<Rightarrow> exn + decimal" where
  "dec_div (Dec s c e) (Dec s' c' e') =
     (if c' = 0 then Inl (if c = 0 then invalid_operation else ArithmeticError ''DivisionByZero'')
      else if c = 0 then dec_fix (s \<noteq> s') 0 (e - e')
      else
        let shift = ndigits c' - ndigits c + precision + 1; x = e - e' - shift;
            n = c * pow10 shift; d = c' * pow10 (- shift); q = n div d
        in if n mod d \<noteq> 0 then dec_fix (s \<noteq> s') (if q mod 5 = 0 then q + 1 else q) x
           else (case drop_zeros q x (e - e') of (q', x') \<Rightarrow> dec_fix (s \<noteq> s') q' x'))"
| "dec_div DecNaN _ = Inr DecNaN"
| "dec_div _ DecNaN = Inr DecNaN"
| "dec_div (DecInfinity _) (DecInfinity _) = Inl invalid_operation"
| "dec_div (DecInfinity s) (Dec s' _ _) = Inr (DecInfinity (s \<noteq> s'))"
| "dec_div (Dec s _ _) (DecInfinity s') = Inr (Dec (s \<noteq> s') 0 etiny)"

text \<open>\<^verbatim>\<open>x.quantize(Decimal((0, (1,), k)), rounding=m)\<close>\<close>

fun dec_quantize :: "rounding \<Rightarrow> int \<Rightarrow> decimal \<Rightarrow> exn + decimal" where
  "dec_quantize m k (Dec s c e) =
     (if c = 0 then dec_fix s 0 k
      else if emax < ndigits c + e - 1 \<or> precision < ndigits c + e - k then Inl invalid_operation
      else
        let c' = rescaled m c e k in
        if precision < ndigits c' \<or> emax < ndigits c' + k - 1 then Inl invalid_operation
        else dec_fix s c' k)"
| "dec_quantize _ _ DecNaN = Inr DecNaN"
| "dec_quantize _ _ (DecInfinity _) = Inl invalid_operation"

text \<open>\<^verbatim>\<open>x.to_integral_value(rounding=m)\<close> and \<^verbatim>\<open>int(x)\<close>\<close>

fun dec_to_integral :: "rounding \<Rightarrow> decimal \<Rightarrow> decimal" where
  "dec_to_integral m (Dec s c e) = (if 0 \<le> e then Dec s c e else Dec s (rescaled m c e 0) 0)"
| "dec_to_integral _ x = x"

fun dec_int :: "decimal \<Rightarrow> exn + int" where
  "dec_int (Dec s c e) = Inr (signed s (if 0 \<le> e then c * pow10 e else c div pow10 (- e)))"
| "dec_int (DecInfinity _) = Inl (ArithmeticError ''OverflowError'')"
| "dec_int DecNaN = Inl (ValueError ''cannot convert NaN to integer'')"

section \<open>Comparison\<close>

text \<open>Comparisons of numbers; with a NaN they raise, which \<open>comparable\<close> states.\<close>

definition compare_at :: "(int \<Rightarrow> int \<Rightarrow> bool) \<Rightarrow> decimal \<Rightarrow> decimal \<Rightarrow> bool" where
  "compare_at r x y =
     (case (x, y) of
        (Dec s c e, Dec s' c' e') \<Rightarrow>
          (let m = min e e' in r (signed s c * pow10 (e - m)) (signed s' c' * pow10 (e' - m)))
      | (DecInfinity s, DecInfinity s') \<Rightarrow> r (signed s 1) (signed s' 1)
      | (DecInfinity s, Dec _ _ _) \<Rightarrow> r (signed s 1) 0
      | (Dec _ _ _, DecInfinity s') \<Rightarrow> r 0 (signed s' 1)
      | _ \<Rightarrow> False)"

definition dec_less :: "decimal \<Rightarrow> decimal \<Rightarrow> bool" where
  "dec_less = compare_at (<)"

definition dec_le :: "decimal \<Rightarrow> decimal \<Rightarrow> bool" where
  "dec_le = compare_at (\<le>)"

definition dec_equal :: "decimal \<Rightarrow> decimal \<Rightarrow> bool" where
  "dec_equal = compare_at (=)"

definition comparable :: "decimal \<Rightarrow> exn + unit" where
  "comparable x = ensure (x \<noteq> DecNaN) invalid_operation"

text \<open>The builtins \<^verbatim>\<open>min(x, y)\<close> and \<^verbatim>\<open>max(x, y)\<close>: the second only if strictly better.\<close>

definition dec_min :: "decimal \<Rightarrow> decimal \<Rightarrow> decimal" where
  "dec_min x y = (if dec_less y x then y else x)"

definition dec_max :: "decimal \<Rightarrow> decimal \<Rightarrow> decimal" where
  "dec_max x y = (if dec_less x y then y else x)"

section \<open>Printing\<close>

definition digit_char :: "int \<Rightarrow> char" where
  "digit_char d = char_of (48 + nat d)"

function int_digits :: "int \<Rightarrow> string" where
  "int_digits c =
     (if c < 10 then [digit_char c] else int_digits (c div 10) @ [digit_char (c mod 10)])"
  by auto
termination by (relation "measure nat") auto

declare int_digits.simps [simp del]

text \<open>\<^verbatim>\<open>str(n)\<close> of an \<^verbatim>\<open>int\<close>\<close>

definition int_str :: "int \<Rightarrow> string" where
  "int_str n = (if n < 0 then ''-'' @ int_digits (- n) else int_digits n)"

definition zeros :: "int \<Rightarrow> string" where
  "zeros k = replicate (nat k) (CHR ''0'')"

text \<open>A coefficient printed with the point after \<open>place\<close> digits, padded with zeros.\<close>

definition point_at :: "int \<Rightarrow> string \<Rightarrow> string" where
  "point_at place ds =
     (if place \<le> 0 then ''0.'' @ zeros (- place) @ ds
      else if int (length ds) \<le> place then ds @ zeros (place - int (length ds))
      else take (nat place) ds @ ''.'' @ drop (nat place) ds)"

definition sign_str :: "bool \<Rightarrow> string" where
  "sign_str s = (if s then ''-'' else [])"

text \<open>\<^verbatim>\<open>str(x)\<close>\<close>

fun dec_str :: "decimal \<Rightarrow> string" where
  "dec_str (Dec s c e) =
     (let ds = int_digits c; left = e + int (length ds);
          place = (if e \<le> 0 \<and> - 6 < left then left else 1)
      in sign_str s @ point_at place ds
         @ (if left = place then []
            else ''E'' @ (if 0 \<le> left - place then ''+'' else []) @ int_str (left - place)))"
| "dec_str (DecInfinity s) = sign_str s @ ''Infinity''"
| "dec_str DecNaN = ''NaN''"

text \<open>\<^verbatim>\<open>x.normalize()\<close> and \<^verbatim>\<open>format(x, "f")\<close>\<close>

fun dec_normalize :: "decimal \<Rightarrow> exn + decimal" where
  "dec_normalize (Dec s c e) =
     rbind (dec_fix s c e)
     (\<lambda>x. case x of
        Dec s' c' e' \<Rightarrow>
          if c' = 0 then Inr (Dec s' 0 0)
          else (case drop_zeros c' e' emax of (c'', e'') \<Rightarrow> Inr (Dec s' c'' e''))
      | _ \<Rightarrow> Inr x)"
| "dec_normalize x = Inr x"

fun dec_format_f :: "decimal \<Rightarrow> string" where
  "dec_format_f (Dec s c e) =
     sign_str s
     @ (if 0 \<le> e then int_digits (c * pow10 e)
        else point_at (e + int (length (int_digits c))) (int_digits c))"
| "dec_format_f (DecInfinity s) = sign_str s @ ''Infinity''"
| "dec_format_f DecNaN = ''NaN''"

text \<open>The canonical money string \<^verbatim>\<open>format(x.normalize(), "f")\<close>.\<close>

definition money_str :: "decimal \<Rightarrow> exn + string" where
  "money_str x = rbind (dec_normalize x) (\<lambda>y. Inr (dec_format_f y))"


section \<open>Powers and digits\<close>

lemma pow10_pos [simp]: "0 < pow10 k"
  by (simp add: pow10_def)

lemma pow10_nonneg [simp]: "0 \<le> pow10 k"
  by (simp add: pow10_def)

lemma pow10_0 [simp]: "pow10 0 = 1"
  by (simp add: pow10_def)

lemma pow10_nonpos: "k \<le> 0 \<Longrightarrow> pow10 k = 1"
  by (simp add: pow10_def)

lemma pow10_add: "0 \<le> a \<Longrightarrow> 0 \<le> b \<Longrightarrow> pow10 (a + b) = pow10 a * pow10 b"
  by (simp add: pow10_def nat_add_distrib power_add)

lemma pow10_Suc: "0 \<le> k \<Longrightarrow> pow10 (k + 1) = 10 * pow10 k"
  using pow10_add[of k 1] by (simp add: pow10_def)

lemma pow10_mono: "a \<le> b \<Longrightarrow> pow10 a \<le> pow10 b"
  by (simp add: pow10_def nat_mono)

lemma of_int_pow10: "0 \<le> k \<Longrightarrow> of_int (pow10 k) = (10 :: rat) powi k"
  by (simp add: pow10_def power_int_def)

lemma powi_split: "(10 :: rat) powi (a + b) = 10 powi a * 10 powi b"
  by (simp add: power_int_add)

lemma powi_pos [simp]: "0 < (10 :: rat) powi k"
  by (simp add: zero_less_power_int)

lemma powi_mono: "a \<le> b \<Longrightarrow> (10 :: rat) powi a \<le> 10 powi b"
  by (simp add: power_int_increasing)

lemma ndigits_pos [simp]: "1 \<le> ndigits c"
proof (induction c rule: ndigits.induct)
  case (1 c)
  then show ?case by (subst ndigits.simps) auto
qed

lemma ndigits_gt_0 [simp]: "0 < ndigits c"
  using ndigits_pos[of c] by linarith

lemma ndigits_nonneg [simp]: "0 \<le> ndigits c"
  using ndigits_pos[of c] by linarith

lemma ndigits_bounds:
  assumes "0 < c"
  shows "pow10 (ndigits c - 1) \<le> c \<and> c < pow10 (ndigits c)"
  using assms
proof (induction c rule: ndigits.induct)
  case (1 c)
  show ?case
  proof (cases "c < 10")
    case True
    with 1 show ?thesis by (subst (1 2) ndigits.simps) (simp add: pow10_def)
  next
    case False
    then have step: "ndigits c = 1 + ndigits (c div 10)" by (subst ndigits.simps) simp
    from False have "0 < c div 10" by simp
    with 1 False have IH: "pow10 (ndigits (c div 10) - 1) \<le> c div 10" "c div 10 < pow10 (ndigits (c div 10))"
      by auto
    have n: "1 \<le> ndigits (c div 10)" by simp
    then have "pow10 (ndigits c - 1) = 10 * pow10 (ndigits (c div 10) - 1)"
      "pow10 (ndigits c) = 10 * pow10 (ndigits (c div 10))"
      using pow10_Suc[of "ndigits (c div 10) - 1"] pow10_Suc[of "ndigits (c div 10)"] n
      by (auto simp: step add.commute)
    with IH show ?thesis by linarith
  qed
qed

lemma ndigits_le: "0 \<le> c \<Longrightarrow> c < pow10 k \<Longrightarrow> 1 \<le> k \<Longrightarrow> ndigits c \<le> k"
proof (rule ccontr)
  assume a: "0 \<le> c" "c < pow10 k" "1 \<le> k" "\<not> ndigits c \<le> k"
  then have "0 < c" by (cases "c = 0") (auto simp: ndigits.simps[of 0])
  from ndigits_bounds[OF this] pow10_mono[of k "ndigits c - 1"] a show False by simp
qed

section \<open>The value of a number\<close>

definition magnitude :: "int \<Rightarrow> int \<Rightarrow> rat" where
  "magnitude c e = of_int c * 10 powi e"

fun dec_value :: "decimal \<Rightarrow> rat" where
  "dec_value (Dec s c e) = (if s then - magnitude c e else magnitude c e)"
| "dec_value _ = 0"

lemma magnitude_nonneg [simp]: "0 \<le> c \<Longrightarrow> 0 \<le> magnitude c e"
  by (simp add: magnitude_def less_imp_le)

lemma magnitude_0 [simp]: "magnitude 0 e = 0"
  by (simp add: magnitude_def)

lemma dec_value_abs: "0 \<le> c \<Longrightarrow> \<bar>dec_value (Dec s c e)\<bar> = magnitude c e"
  by simp

lemma dec_value_scaled:
  assumes "m \<le> e"
  shows "dec_value (Dec s c e) = of_int (signed s c * pow10 (e - m)) * 10 powi m"
  using assms powi_split[of "e - m" m] by (simp add: of_int_pow10 signed_def magnitude_def)

lemma compare_at_value:
  assumes "is_finite x" "is_finite y"
  shows "dec_less x y \<longleftrightarrow> dec_value x < dec_value y" "dec_le x y \<longleftrightarrow> dec_value x \<le> dec_value y"
    "dec_equal x y \<longleftrightarrow> dec_value x = dec_value y"
proof -
  obtain s c e s' c' e' where xy: "x = Dec s c e" "y = Dec s' c' e'"
    using assms by (cases x; cases y) auto
  let ?m = "min e e'"
  have "dec_value x = of_int (signed s c * pow10 (e - ?m)) * 10 powi ?m"
    "dec_value y = of_int (signed s' c' * pow10 (e' - ?m)) * 10 powi ?m"
    unfolding xy by (intro dec_value_scaled; simp)+
  then show "dec_less x y \<longleftrightarrow> dec_value x < dec_value y" "dec_le x y \<longleftrightarrow> dec_value x \<le> dec_value y"
    "dec_equal x y \<longleftrightarrow> dec_value x = dec_value y"
    by (simp_all add: dec_less_def dec_le_def dec_equal_def compare_at_def xy Let_def
        del: dec_value.simps of_int_mult)
qed

lemma dec_value_of_int [simp]: "dec_value (dec_of_int n) = of_int n" "is_finite (dec_of_int n)"
  by (simp_all add: dec_of_int_def magnitude_def)

lemma dec_min_le:
  "is_finite x \<Longrightarrow> is_finite y \<Longrightarrow>
     is_finite (dec_min x y) \<and> dec_value (dec_min x y) = min (dec_value x) (dec_value y)"
  by (auto simp: dec_min_def compare_at_value)

lemma dec_max_ge:
  "is_finite x \<Longrightarrow> is_finite y \<Longrightarrow>
     is_finite (dec_max x y) \<and> dec_value (dec_max x y) = max (dec_value x) (dec_value y)"
  by (auto simp: dec_max_def compare_at_value)

section \<open>Rounding, exactly\<close>

lemma dec_fix_exact:
  assumes "0 \<le> c" "c < pow10 precision" "etiny \<le> e" "e \<le> emax - precision + 1"
  shows "dec_fix s c e = Inr (Dec s c e)"
proof (cases "c = 0")
  case True
  with assms show ?thesis by (simp add: dec_fix_def precision_def)
next
  case False
  have "ndigits c \<le> precision" using assms by (intro ndigits_le) (auto simp: precision_def)
  with assms False show ?thesis by (simp add: dec_fix_def Let_def)
qed

lemma round_div_bounds:
  assumes "0 \<le> c" "0 < p"
  shows "0 \<le> round_div m c p" "2 * \<bar>round_div ROUND_HALF_EVEN c p * p - c\<bar> \<le> p"
proof -
  have c: "c = (c div p) * p + c mod p" by simp
  have r: "0 \<le> c mod p" "c mod p < p" using assms by simp_all
  have q: "0 \<le> c div p" using assms by (simp add: pos_imp_zdiv_nonneg_iff)
  then show "0 \<le> round_div m c p" by (cases m) (auto simp: Let_def)
  show "2 * \<bar>round_div ROUND_HALF_EVEN c p * p - c\<bar> \<le> p"
  proof (cases "p < 2 * (c mod p) \<or> 2 * (c mod p) = p \<and> odd (c div p)")
    case True
    then have "round_div ROUND_HALF_EVEN c p = c div p + 1" by (simp add: Let_def)
    then have "round_div ROUND_HALF_EVEN c p * p - c = p - c mod p"
      using c by (simp only: distrib_right)
    with True r show ?thesis by auto
  next
    case False
    then have eq: "round_div ROUND_HALF_EVEN c p = c div p" by (auto simp: Let_def)
    have "round_div ROUND_HALF_EVEN c p * p - c = - (c mod p)" unfolding eq using c by linarith
    with False r show ?thesis by auto
  qed
qed

lemma rescaled_nonneg: "0 \<le> c \<Longrightarrow> 0 \<le> rescaled m c e e'"
  using round_div_bounds(1)[of c "pow10 (e' - e)" m] by (simp add: rescaled_def)

lemma dec_fix_finite: "0 \<le> c \<Longrightarrow> dec_fix s c e = Inr d \<Longrightarrow> is_finite d \<and> dec_ok d"
  using rescaled_nonneg[of c ROUND_HALF_EVEN e "max (ndigits c + e - precision) etiny"]
  by (auto simp: dec_fix_def Let_def split: if_splits)


section \<open>Rounding errors\<close>

lemma dec_value_shift: "dec_value (Dec s (c * 10) e) = dec_value (Dec s c (e + 1))"
  by (simp add: magnitude_def power_int_add)

lemma div_int_pos_less: "(c :: int) < a * p \<Longrightarrow> 0 < p \<Longrightarrow> c div p < a"
proof -
  assume "c < a * p" "0 < p"
  moreover from this have "c div p * p \<le> c" by (simp add: minus_mod_eq_div_mult[symmetric])
  ultimately show ?thesis by (metis linorder_not_less mult_right_mono order_less_le order_trans)
qed

lemma rescaled_error:
  assumes "0 \<le> c" "e < m"
  shows "2 * \<bar>dec_value (Dec s (rescaled ROUND_HALF_EVEN c e m) m) - dec_value (Dec s c e)\<bar> \<le> 10 powi m"
proof -
  let ?p = "pow10 (m - e)" and ?r = "rescaled ROUND_HALF_EVEN c e m"
  have "2 * \<bar>?r * ?p - c\<bar> \<le> ?p"
    using round_div_bounds(2)[of c ?p] assms by (simp only: rescaled_def) simp
  then have "of_int (2 * \<bar>?r * ?p - c\<bar>) * (10 :: rat) powi e \<le> of_int ?p * 10 powi e"
    by (intro mult_right_mono) (simp_all only: of_int_le_iff less_imp_le powi_pos)
  moreover have u: "of_int ?p * (10 :: rat) powi e = 10 powi m"
    using assms powi_split[of "m - e" e] by (simp add: of_int_pow10)
  moreover have "of_int (2 * \<bar>?r * ?p - c\<bar>) * (10 :: rat) powi e = 2 * \<bar>magnitude ?r m - magnitude c e\<bar>"
  proof -
    have "magnitude ?r m - magnitude c e = of_int (?r * ?p - c) * 10 powi e"
      using u by (simp add: magnitude_def mult.assoc left_diff_distrib)
    then show ?thesis by (simp add: abs_mult)
  qed
  ultimately have "2 * \<bar>magnitude ?r m - magnitude c e\<bar> \<le> 10 powi m" by simp
  then show ?thesis by (cases s) (simp_all add: abs_minus_commute)
qed

lemma dec_value_lower:
  assumes "0 < c"
  shows "10 powi (ndigits c - 1 + e) \<le> \<bar>dec_value (Dec s c e)\<bar>"
proof -
  have "of_int (pow10 (ndigits c - 1)) \<le> (of_int c :: rat)"
    using ndigits_bounds[OF assms] by (simp only: of_int_le_iff)
  then have "(10 :: rat) powi (ndigits c - 1) \<le> of_int c"
    by (subst of_int_pow10[symmetric]) simp_all
  then have "(10 :: rat) powi (ndigits c - 1) * 10 powi e \<le> of_int c * 10 powi e"
    by (intro mult_right_mono) (simp_all add: less_imp_le)
  then show ?thesis using assms
    by (subst dec_value_abs) (simp_all only: powi_split magnitude_def less_imp_le)
qed

lemma rounded_top:
  assumes "0 < c" "ndigits c + e - precision \<le> m" "e < m"
    "precision < ndigits (rescaled ROUND_HALF_EVEN c e m)"
  shows "rescaled ROUND_HALF_EVEN c e m = 10 * pow10 (precision - 1)"
proof -
  let ?p = "pow10 (m - e)" and ?r = "rescaled ROUND_HALF_EVEN c e m"
  have "c < pow10 (ndigits c)" using ndigits_bounds[OF assms(1)] by simp
  also have "\<dots> \<le> pow10 (precision + (m - e))" using assms by (intro pow10_mono) simp
  also have "\<dots> = pow10 precision * ?p" using assms by (intro pow10_add) (auto simp: precision_def)
  finally have "c div ?p < pow10 precision" by (intro div_int_pos_less) simp_all
  moreover have "?r \<le> c div ?p + 1" using assms(3) by (simp add: rescaled_def Let_def)
  moreover have "pow10 precision \<le> ?r"
  proof (rule ccontr)
    assume "\<not> pow10 precision \<le> ?r"
    then have "ndigits ?r \<le> precision"
      using assms(1) by (intro ndigits_le) (auto simp: rescaled_nonneg precision_def)
    with assms(4) show False by simp
  qed
  ultimately have "?r = pow10 precision" by simp
  then show ?thesis by (simp add: pow10_def precision_def)
qed

lemma dec_fix_error:
  assumes "0 \<le> c" "dec_fix s c e = Inr d"
  shows "2 * \<bar>dec_value d - dec_value (Dec s c e)\<bar>
     \<le> max (10 powi (-27) * \<bar>dec_value (Dec s c e)\<bar>) (10 powi etiny)"
proof -
  let ?m = "max (ndigits c + e - precision) etiny"
  let ?r = "rescaled ROUND_HALF_EVEN c e ?m"
  consider (same) "dec_value d = dec_value (Dec s c e)"
    | (rounded) "0 < c" "e < ?m" "dec_value d = dec_value (Dec s ?r ?m)"
  proof (cases "c = 0 \<or> ?m \<le> e")
    case True
    with assms that(1) show thesis by (auto simp: dec_fix_def Let_def split: if_splits)
  next
    case False
    then have c: "0 < c" "e < ?m" using assms(1) by auto
    show thesis
    proof (cases "precision < ndigits ?r")
      case True
      then have r: "?r = 10 * pow10 (precision - 1)" using c by (intro rounded_top) simp_all
      from True c assms(2) have "d = Dec s (?r div 10) (?m + 1)"
        by (auto simp: dec_fix_def Let_def split: if_splits)
      with r dec_value_shift[of s "pow10 (precision - 1)" ?m] have "dec_value d = dec_value (Dec s ?r ?m)"
        by (simp only: mult.commute[of 10] nonzero_mult_div_cancel_right)
      with c that(2) show thesis by simp
    next
      case False
      with c assms(2) have "d = Dec s ?r ?m" by (auto simp: dec_fix_def Let_def split: if_splits)
      with c that(2) show thesis by simp
    qed
  qed
  then show ?thesis
  proof cases
    case same
    then show ?thesis by (simp add: le_max_iff_disj)
  next
    case rounded
    have err: "2 * \<bar>dec_value d - dec_value (Dec s c e)\<bar> \<le> 10 powi ?m"
      unfolding rounded(3) using rounded(1,2) by (intro rescaled_error) simp_all
    have "(10 :: rat) powi (ndigits c + e - precision) = 10 powi (-27) * 10 powi (ndigits c - 1 + e)"
      unfolding powi_split[symmetric] by (simp add: precision_def algebra_simps)
    also have "\<dots> \<le> 10 powi (-27) * \<bar>dec_value (Dec s c e)\<bar>"
      using dec_value_lower[OF rounded(1), of e s] by (intro mult_left_mono) (simp_all only: less_imp_le powi_pos)
    finally have "10 powi (ndigits c + e - precision) \<le> 10 powi (-27) * \<bar>dec_value (Dec s c e)\<bar>" .
    with err show ?thesis by (auto simp: max_def split: if_splits)
  qed
qed


section \<open>Quotients\<close>

lemma drop_zeros_value:
  "drop_zeros c e ideal = (c', e') \<Longrightarrow> 0 \<le> c \<Longrightarrow> 0 \<le> c' \<and> magnitude c' e' = magnitude c e"
proof (induction c e ideal arbitrary: c' e' rule: drop_zeros.induct)
  case (1 c e ideal)
  show ?case
  proof (cases "e < ideal \<and> c mod 10 = 0")
    case True
    with 1 have IH: "0 \<le> c'" "magnitude c' e' = magnitude (c div 10) (e + 1)"
      by (simp_all add: drop_zeros.simps[of c])
    from True have "c = c div 10 * 10" using div_mult_mod_eq[of c 10] by linarith
    then have "magnitude c e = magnitude (c div 10 * 10) e" by simp
    also have "\<dots> = magnitude (c div 10) (e + 1)" by (simp add: magnitude_def power_int_add)
    finally show ?thesis using IH by simp
  next
    case False
    with 1 show ?thesis by (auto simp: drop_zeros.simps[of c])
  qed
qed

lemma quotient_digits:
  assumes "0 < c" "0 < c'"
  defines "shift \<equiv> ndigits c' - ndigits c + precision + 1"
  shows "pow10 precision * (c' * pow10 (- shift)) \<le> c * pow10 shift"
proof -
  have c: "pow10 (ndigits c - 1) \<le> c" and c': "c' \<le> pow10 (ndigits c')"
    using ndigits_bounds assms by (auto intro: less_imp_le)
  show ?thesis
  proof (cases "0 \<le> shift")
    case True
    have "pow10 precision * c' \<le> pow10 precision * pow10 (ndigits c')"
      using c' by simp
    also have "\<dots> = pow10 (ndigits c - 1) * pow10 shift"
      using True ndigits_pos[of c] ndigits_pos[of c']
      by (simp add: pow10_add[symmetric] shift_def precision_def)
    also have "\<dots> \<le> c * pow10 shift" using c by simp
    finally show ?thesis using True by (simp add: pow10_nonpos)
  next
    case False
    have "pow10 precision * (c' * pow10 (- shift)) \<le> pow10 precision * (pow10 (ndigits c') * pow10 (- shift))"
      using c' by simp
    also have "\<dots> = pow10 (ndigits c - 1)"
      using False pow10_add[of "ndigits c'" "- shift"] pow10_add[of precision "ndigits c' - shift"]
        ndigits_pos[of c'] by (simp add: shift_def precision_def)
    finally show ?thesis using c False by (simp add: pow10_nonpos)
  qed
qed

lemma magnitude_quotient:
  assumes "0 < c'" "shift = e - e' - x"
  shows "of_int (c * pow10 shift) / of_int (c' * pow10 (- shift)) * 10 powi x = magnitude c e / magnitude c' e'"
proof -
  have s: "of_int (pow10 shift) / of_int (pow10 (- shift)) = (10 :: rat) powi shift"
  proof (cases "0 \<le> shift")
    case True
    then show ?thesis by (simp add: of_int_pow10 pow10_nonpos)
  next
    case False
    then have "of_int (pow10 (- shift)) = (10 :: rat) powi (- shift)" by (simp add: of_int_pow10)
    with False show ?thesis by (simp add: pow10_nonpos power_int_minus divide_inverse)
  qed
  have "of_int (c * pow10 shift) / of_int (c' * pow10 (- shift)) * (10 :: rat) powi x
      = of_int c / of_int c' * (of_int (pow10 shift) / of_int (pow10 (- shift)) * 10 powi x)"
    by simp
  also have "\<dots> = of_int c / of_int c' * 10 powi (e - e')"
    unfolding s powi_split[symmetric] by (simp add: assms(2))
  also have "\<dots> = magnitude c e / magnitude c' e'"
    by (simp add: magnitude_def power_int_diff)
  finally show ?thesis .
qed

lemma error_budget:
  "2 * a \<le> 3 / 2 * K + t \<Longrightarrow> d \<le> a + b \<Longrightarrow> b \<le> x \<Longrightarrow> x \<le> K / 10 \<Longrightarrow> 0 \<le> K \<Longrightarrow> 0 < t
   \<Longrightarrow> d \<le> K + (t :: rat)"
  by linarith

lemma dec_div_error:
  assumes "0 \<le> c" "0 < c'" "dec_div (Dec False c e) (Dec False c' e') = Inr q"
  shows "is_finite q \<and> dec_ok q
     \<and> \<bar>dec_value q - magnitude c e / magnitude c' e'\<bar>
         \<le> 10 powi (-27) * (magnitude c e / magnitude c' e') + 10 powi etiny"
proof (cases "c = 0")
  case True
  with assms show ?thesis by (auto simp: dec_fix_def split: if_splits)
next
  case False
  define shift where "shift = ndigits c' - ndigits c + precision + 1"
  define x where "x = e - e' - shift"
  define n where "n = c * pow10 shift"
  define d where "d = c' * pow10 (- shift)"
  define X where "X = magnitude c e / magnitude c' e'"
  have d: "0 < d" and n: "0 < n" using assms False by (simp_all add: d_def n_def)
  have eq: "dec_div (Dec False c e) (Dec False c' e') =
     (if n mod d \<noteq> 0 then dec_fix False (if (n div d) mod 5 = 0 then n div d + 1 else n div d) x
      else (case drop_zeros (n div d) x (e - e') of (q', x') \<Rightarrow> dec_fix False q' x'))"
    using False assms(2) by (simp add: Let_def shift_def n_def d_def x_def)
  have X: "of_int n / of_int d * 10 powi x = X"
    unfolding n_def d_def X_def by (rule magnitude_quotient[OF assms(2)]) (simp add: x_def)
  have big: "pow10 precision * d \<le> n"
    using quotient_digits[of c c'] assms False by (simp add: n_def d_def shift_def)
  have "(of_int (pow10 precision) :: rat) \<le> of_int n / of_int d"
    using big d by (simp add: pos_le_divide_eq flip: of_int_mult)
  then have "of_int (pow10 precision) * 10 powi x \<le> of_int n / of_int d * (10 :: rat) powi x"
    by (intro mult_right_mono) (simp_all add: less_imp_le)
  then have small: "10 powi x \<le> 10 powi (-28) * X"
    unfolding X by (simp add: pow10_def precision_def)
  have X0: "0 \<le> X" using assms by (simp add: X_def)
  obtain y z where y: "0 \<le> y" "dec_fix False y z = Inr q" "\<bar>magnitude y z - X\<bar> \<le> 10 powi x"
  proof (cases "n mod d = 0")
    case True
    then have nd: "n = n div d * d" using div_mult_mod_eq[of n d] by linarith
    obtain q' x' where dz: "drop_zeros (n div d) x (e - e') = (q', x')" by fastforce
    have pos: "0 \<le> n div d" using d n by (simp add: pos_imp_zdiv_nonneg_iff)
    have "magnitude (n div d) x = X"
      using X d by (subst (asm) nd) (simp add: magnitude_def)
    with drop_zeros_value[OF dz pos] have "0 \<le> q'" "magnitude q' x' = X" by simp_all
    moreover have "dec_fix False q' x' = Inr q"
      using assms(3) True dz unfolding eq by simp
    ultimately show thesis using that[of q' x'] by simp
  next
    case inexact: False
    define w where "w = (if (n div d) mod 5 = 0 then n div d + 1 else n div d)"
    have "dec_fix False w x = Inr q"
      using assms(3) inexact unfolding eq w_def by simp
    moreover have "0 \<le> w" using d n by (simp add: w_def pos_imp_zdiv_nonneg_iff)
    moreover have "\<bar>magnitude w x - X\<bar> \<le> 10 powi x"
    proof -
      have "n div d \<le> w" "w \<le> n div d + 1" by (simp_all add: w_def)
      moreover have "n div d * d \<le> n" "n \<le> (n div d + 1) * d"
        using d pos_mod_bound[OF d, of n] pos_mod_sign[OF d, of n] div_mult_mod_eq[of n d]
        by (simp_all only: distrib_right)
      moreover from calculation(1,2) have "n div d * d \<le> w * d" "w * d \<le> (n div d + 1) * d"
        using d by (intro mult_right_mono; simp)+
      moreover have "(n div d + 1) * d = n div d * d + d" by (simp only: distrib_right mult_1)
      ultimately have "w * d - d \<le> n" "n \<le> w * d + d" by linarith+
      then have "\<bar>of_int w - of_int n / of_int d\<bar> \<le> (1 :: rat)"
        using d by (auto simp: abs_le_iff field_simps simp flip: of_int_mult of_int_add)
      then have "\<bar>of_int w - of_int n / of_int d\<bar> * 10 powi x \<le> 1 * (10 :: rat) powi x"
        by (intro mult_right_mono) (simp_all add: less_imp_le)
      moreover have "\<bar>of_int w - of_int n / of_int d\<bar> * 10 powi x = \<bar>magnitude w x - X\<bar>"
        unfolding X[symmetric] magnitude_def left_diff_distrib[symmetric] abs_mult by simp
      ultimately show ?thesis by simp
    qed
    ultimately show thesis using that[of w x] by simp
  qed
  have fin: "is_finite q \<and> dec_ok q" using dec_fix_finite[OF y(1,2)] .
  have "0 \<le> (10 :: rat) powi (-27) * magnitude y z" "0 \<le> (10 :: rat) powi etiny"
    using y(1) by (simp_all add: less_imp_le)
  then have "2 * \<bar>dec_value q - magnitude y z\<bar> \<le> 10 powi (-27) * magnitude y z + 10 powi etiny"
    using dec_fix_error[OF y(1,2)] y(1)
    by (simp only: dec_value.simps if_False abs_of_nonneg magnitude_nonneg max_def split: if_splits)
  moreover have "10 powi (-27) * magnitude y z \<le> 10 powi (-27) * (3 / 2 * X)"
    using y(3) small X0 by (intro mult_left_mono) (simp_all add: abs_le_iff)
  moreover define K where "K = 10 powi (-27) * X"
  then have K: "(10 :: rat) powi (-28) * X = K / 10" "10 powi (-27) * (3 / 2 * X) = 3 / 2 * K" "0 \<le> K"
    using X0 by simp_all
  ultimately have "2 * \<bar>dec_value q - magnitude y z\<bar> \<le> 3 / 2 * K + 10 powi etiny" by simp
  moreover have "\<bar>dec_value q - X\<bar> \<le> \<bar>dec_value q - magnitude y z\<bar> + \<bar>magnitude y z - X\<bar>"
    using abs_triangle_ineq[of "dec_value q - magnitude y z" "magnitude y z - X"] by simp
  ultimately have "\<bar>dec_value q - X\<bar> \<le> K + 10 powi etiny"
    using y(3) small[unfolded K(1)] K(3) powi_pos[of etiny] by (rule error_budget)
  then have "\<bar>dec_value q - X\<bar> \<le> 10 powi (-27) * X + 10 powi etiny" by (simp only: K_def)
  with fin show ?thesis by (simp add: X_def)
qed


text \<open>
  Rounding a quotient down to a whole number and multiplying back does not exceed the dividend,
  as long as the dividend is far below the precision: below \<open>10\<^sup>26\<close> units of the last place.
\<close>

definition whole_part :: "decimal \<Rightarrow> int" where
  "whole_part x = (case dec_to_integral ROUND_DOWN x of Dec s c e \<Rightarrow> c * pow10 e | _ \<Rightarrow> 0)"

lemma whole_part_le:
  assumes "is_finite q" "dec_ok q"
  shows "0 \<le> whole_part q \<and> (of_int (whole_part q) :: rat) \<le> \<bar>dec_value q\<bar>"
proof -
  obtain s c e where q: "q = Dec s c e" "0 \<le> c" using assms by (cases q) auto
  show ?thesis
  proof (cases "0 \<le> e")
    case True
    with q show ?thesis
      by (simp add: whole_part_def magnitude_def of_int_pow10 abs_if)
  next
    case False
    have "c div pow10 (- e) * pow10 (- e) \<le> c"
      using pos_mod_sign[OF pow10_pos, of c "- e"] div_mult_mod_eq[of c "pow10 (- e)"] by linarith
    then have "of_int (c div pow10 (- e) * pow10 (- e)) \<le> (of_int c :: rat)"
      by (simp only: of_int_le_iff)
    then have "of_int (c div pow10 (- e)) * (10 :: rat) powi (- e) * 10 powi e \<le> of_int c * 10 powi e"
      using False by (intro mult_right_mono) (simp_all add: of_int_pow10 less_imp_le)
    moreover have "(10 :: rat) powi (- e) * 10 powi e = 1"
      unfolding powi_split[symmetric] by simp
    ultimately have "of_int (c div pow10 (- e)) \<le> (of_int c * 10 powi e :: rat)"
      by (simp add: mult.assoc)
    with q False show ?thesis
      by (simp add: whole_part_def magnitude_def rescaled_def pos_imp_zdiv_nonneg_iff pow10_nonpos)
  qed
qed

lemma whole_quotient_sound:
  assumes "0 \<le> c" "0 < c'" "dec_div (Dec False c e) (Dec False c' e') = Inr q"
    and small: "magnitude c e < 10 powi (26 + min e e')"
  shows "of_int (whole_part q) * magnitude c' e' \<le> magnitude c e"
proof (rule ccontr)
  let ?n = "whole_part q" and ?u = "(10 :: rat) powi (min e e')"
  let ?A = "magnitude c e" and ?B = "magnitude c' e'"
  assume "\<not> ?thesis"
  then have over: "?A < of_int ?n * ?B" by simp
  note err = dec_div_error[OF assms(1-3)]
  then have n: "0 \<le> ?n" "(of_int ?n :: rat) \<le> \<bar>dec_value q\<bar>" using whole_part_le by blast+
  have B: "0 < ?B" using assms(2) by (simp add: magnitude_def)
  have A: "0 \<le> ?A" using assms(1) by simp
  have scale: "?A = of_int (c * pow10 (e - min e e')) * ?u" "?B = of_int (c' * pow10 (e' - min e e')) * ?u"
    using powi_split[of "e - min e e'" "min e e'"] powi_split[of "e' - min e e'" "min e e'"]
    by (simp_all add: magnitude_def of_int_pow10)
  have "c * pow10 (e - min e e') < ?n * (c' * pow10 (e' - min e e'))"
  proof -
    have "of_int (c * pow10 (e - min e e')) * ?u < of_int (?n * (c' * pow10 (e' - min e e'))) * ?u"
      using over scale by (simp only: of_int_mult mult.assoc)
    then show ?thesis by (simp only: mult_less_cancel_right_pos powi_pos of_int_less_iff)
  qed
  then have "of_int (c * pow10 (e - min e e') + 1) * ?u \<le> of_int (?n * (c' * pow10 (e' - min e e'))) * ?u"
    by (intro mult_right_mono) (simp_all only: of_int_le_iff less_imp_le powi_pos)
  then have gap: "?A + ?u \<le> of_int ?n * ?B"
    using scale by (simp add: distrib_right)
  have "1 \<le> ?n" using over A B n(1) by (cases "?n = 0") auto
  then have one: "(1 :: rat) \<le> of_int ?n" by simp
  have tiny: "(10 :: rat) powi etiny \<le> 10 powi (-30)" by (intro powi_mono) (simp add: etiny_def)
  have q: "\<bar>dec_value q\<bar> \<le> (1 + 10 powi (-27)) * (?A / ?B) + 10 powi etiny"
    using err[THEN conjunct2, THEN conjunct2] divide_nonneg_pos[OF A B]
    by (simp only: distrib_right mult_1)
  then have upper: "of_int ?n * ?B \<le> (1 + 10 powi (-27)) * ?A + 10 powi etiny * ?B"
    using n(2) B mult_right_mono[of "of_int ?n" "(1 + 10 powi (-27)) * (?A / ?B) + 10 powi etiny" ?B]
    by (simp add: distrib_right)
  have "?B \<le> 2 * ?A"
  proof -
    have "?B \<le> of_int ?n * ?B" using one B by simp
    also have "\<dots> \<le> (1 + 10 powi (-27)) * ?A + 10 powi (-30) * ?B"
      using upper mult_right_mono[OF tiny less_imp_le[OF B]] by linarith
    finally show ?thesis using A B by (simp add: field_simps)
  qed
  then have "10 powi etiny * ?B \<le> 10 powi (-30) * (2 * ?A)"
    using tiny A B by (intro mult_mono) (simp_all add: less_imp_le)
  with gap upper have "?u \<le> 10 powi (-27) * ?A + 10 powi (-30) * (2 * ?A)"
    by (simp add: distrib_right)
  moreover have "?A < 10 powi 26 * ?u" using small by (simp only: powi_split)
  ultimately show False using powi_pos[of "min e e'"] by (simp add: field_simps)
qed

end
