(* ===== verification/Position_Ledger.thy ===== *)
theory Position_Ledger
  imports Decimals "HOL-Library.List_Lexorder" "HOL-Library.Product_Lexorder" "HOL-Library.Char_ord"
begin

text \<open>
  The operator-asserted position ledger, \<^verbatim>\<open>decision_candidate/operator_position_ledger.py\<close>: the
  events and the checks of their constructor, the fold of one position key, the validation of an
  appended event and the state derived at a cutoff. The file proves which sequences fold, that
  appending keeps the ledger coherent, that the order of storage does not matter, and that a
  coherent ledger can be read at every cutoff.
\<close>

section \<open>Events\<close>

definition asserted_price_max_decimal_places :: int where
  "asserted_price_max_decimal_places = 6"

definition asserted_price_max_integer_digits :: int where
  "asserted_price_max_integer_digits = 14"

datatype position_event_kind = OPENED | REDUCED | CLOSED

record position_event =
  pe_governance_id :: string
  pe_runtime_id :: string
  pe_position :: string
  pe_symbol :: string
  pe_kind :: position_event_kind
  pe_quantity :: int
  pe_price :: decimal
  pe_event_timestamp :: datetime
  pe_recorded_at :: datetime
  pe_plan :: "string option"
  pe_note :: "string option"

text \<open>
  \<^verbatim>\<open>__post_init__\<close>. A price that is not a number cannot be compared; an infinite one has no integer
  exponent. A zero or negative price is refused before its digits are looked at.
\<close>

fun price_checks :: "decimal \<Rightarrow> exn + unit" where
  "price_checks DecNaN = Inl invalid_operation"
| "price_checks (DecInfinity s) = Inl (LedgerRejectionError NON_POSITIVE_ASSERTED_PRICE)"
| "price_checks (Dec s c e) =
     rbind (ensure (dec_less (dec_of_int 0) (Dec s c e)) (LedgerRejectionError NON_POSITIVE_ASSERTED_PRICE))
     (\<lambda>_. rbind (ensure (max 0 (ndigits c + e) \<le> asserted_price_max_integer_digits)
                  (LedgerRejectionError ASSERTED_PRICE_PRECISION_EXCEEDED))
     (\<lambda>_. ensure (- e \<le> asserted_price_max_decimal_places)
            (LedgerRejectionError ASSERTED_PRICE_PRECISION_EXCEEDED)))"

definition event_checks :: "position_event \<Rightarrow> exn + unit" where
  "event_checks e =
     rbind (ensure (is_aware (pe_event_timestamp e)) (LedgerRejectionError NAIVE_TIMESTAMP))
     (\<lambda>_. rbind (ensure (is_aware (pe_recorded_at e)) (LedgerRejectionError NAIVE_TIMESTAMP))
     (\<lambda>_. rbind (price_checks (pe_price e))
     (\<lambda>_. rbind (ensure (pe_kind e \<in> {OPENED, REDUCED} \<longrightarrow> 0 < pe_quantity e)
                  (LedgerRejectionError NON_POSITIVE_QUANTITY))
     (\<lambda>_. ensure (0 \<le> pe_quantity e) (LedgerRejectionError NON_POSITIVE_QUANTITY)))))"

definition make_event :: "position_event \<Rightarrow> exn + position_event" where
  "make_event e = rbind (event_checks e) (\<lambda>_. Inr e)"

text \<open>An event the constructor accepts, its price a number of Python (no negative coefficient).\<close>

definition event_ok :: "position_event \<Rightarrow> bool" where
  "event_ok e \<longleftrightarrow> event_checks e = Inr () \<and> dec_ok (pe_price e)"

fun instant :: "datetime \<Rightarrow> int" where
  "instant (Aware t) = t"
| "instant (Naive t) = t"

abbreviation event_instant :: "position_event \<Rightarrow> int" where
  "event_instant e \<equiv> instant (pe_event_timestamp e)"

definition order_key :: "position_event \<Rightarrow> int \<times> string" where
  "order_key e = (event_instant e, pe_governance_id e)"

definition in_time_order :: "position_event list \<Rightarrow> position_event list" where
  "in_time_order = sort_key order_key"

section \<open>The fold of one position key\<close>

text \<open>\<^verbatim>\<open>opened\<close> and \<^verbatim>\<open>closed\<close> of the code are \<open>fs_opening \<noteq> None\<close> and \<open>fs_closed\<close>.\<close>

record fold_state =
  fs_quantity :: int
  fs_opened :: bool
  fs_closed :: bool
  fs_opening :: "position_event option"

definition fold_start :: fold_state where
  "fold_start = \<lparr>fs_quantity = 0, fs_opened = False, fs_closed = False, fs_opening = None\<rparr>"

definition fold_step :: "position_event \<Rightarrow> fold_state \<Rightarrow> exn + fold_state" where
  "fold_step e st =
     rbind (ensure (case fs_opening st of None \<Rightarrow> True | Some o' \<Rightarrow> pe_symbol e = pe_symbol o')
              (LedgerRejectionError INSTRUMENT_MISMATCH_FOR_POSITION))
     (\<lambda>_. case pe_kind e of
        OPENED \<Rightarrow>
          rbind (ensure (\<not> (fs_opened st \<and> \<not> fs_closed st)) (LedgerRejectionError POSITION_ALREADY_OPEN))
          (\<lambda>_. rbind (ensure (\<not> fs_closed st) (LedgerRejectionError POSITION_ALREADY_CLOSED))
          (\<lambda>_. Inr (st\<lparr>fs_opened := True, fs_opening := Some e, fs_quantity := pe_quantity e\<rparr>)))
      | REDUCED \<Rightarrow>
          rbind (ensure (fs_opened st \<and> \<not> fs_closed st) (LedgerRejectionError POSITION_NOT_OPEN))
          (\<lambda>_. rbind (ensure (pe_quantity e \<le> fs_quantity st)
                       (LedgerRejectionError REDUCTION_EXCEEDS_OPEN_QUANTITY))
          (\<lambda>_. let q = fs_quantity st - pe_quantity e in
                Inr (st\<lparr>fs_quantity := q, fs_closed := (if q = 0 then True else fs_closed st)\<rparr>)))
      | CLOSED \<Rightarrow>
          rbind (ensure (fs_opened st \<and> \<not> fs_closed st)
                   (LedgerRejectionError (if fs_closed st then POSITION_ALREADY_CLOSED else POSITION_NOT_OPEN)))
          (\<lambda>_. Inr (st\<lparr>fs_quantity := 0, fs_closed := True\<rparr>)))"

fun fold_from :: "position_event list \<Rightarrow> fold_state \<Rightarrow> exn + fold_state" where
  "fold_from [] st = Inr st"
| "fold_from (e # es) st = rbind (fold_step e st) (fold_from es)"

definition fold_result :: "fold_state \<Rightarrow> exn + int \<times> bool \<times> position_event" where
  "fold_result st =
     (case fs_opening st of
        None \<Rightarrow> Inl (LedgerRejectionError POSITION_NOT_OPEN)
      | Some o' \<Rightarrow> Inr (fs_quantity st, \<not> fs_closed st, o'))"

definition fold_one_position :: "position_event list \<Rightarrow> exn + int \<times> bool \<times> position_event" where
  "fold_one_position es = rbind (fold_from es fold_start) fold_result"

section \<open>Appending\<close>

definition same_position :: "position_event list \<Rightarrow> position_event \<Rightarrow> position_event list" where
  "same_position existing candidate = filter (\<lambda>e. pe_position e = pe_position candidate) existing"

text \<open>The candidate as it is folded: a closing event carries the quantity open before it.\<close>

definition effective_candidate :: "position_event list \<Rightarrow> position_event \<Rightarrow> exn + position_event" where
  "effective_candidate existing candidate =
     (if pe_kind candidate = CLOSED then
        let prior = filter (\<lambda>e. order_key e < order_key candidate) (same_position existing candidate) in
        rbind (if prior = [] then Inr 0 else rbind (fold_one_position (in_time_order prior)) (\<lambda>r. Inr (fst r)))
        (\<lambda>remaining. make_event (candidate\<lparr>pe_quantity := remaining\<rparr>))
      else Inr candidate)"

definition validate_appended_event :: "position_event list \<Rightarrow> position_event \<Rightarrow> exn + int" where
  "validate_appended_event existing candidate =
     rbind (ensure (\<forall>e \<in> set existing. pe_governance_id e \<noteq> pe_governance_id candidate)
              (LedgerRejectionError DUPLICATE_EVENT_GOVERNANCE_ID))
     (\<lambda>_. rbind (effective_candidate existing candidate)
     (\<lambda>c. rbind (fold_one_position (in_time_order (same_position existing candidate @ [c])))
     (\<lambda>_. Inr (pe_quantity c))))"

section \<open>Derived state\<close>

record derived_position =
  dp_position :: string
  dp_symbol :: string
  dp_open_quantity :: int
  dp_is_open :: bool
  dp_entry_price :: string
  dp_open_notional :: string
  dp_opened_at :: datetime
  dp_last_event_at :: datetime
  dp_event_count :: int

record derived_position_state =
  ds_as_of :: datetime
  ds_open :: "derived_position list"
  ds_closed :: "derived_position list"
  ds_total_quantity :: int
  ds_total_notional :: string
  ds_considered :: int
  ds_excluded :: int
  ds_limitations :: "string list"

text \<open>\<^verbatim>\<open>grouped.setdefault(key, []).append(event)\<close> on a dict, which keeps insertion order.\<close>

fun add_to_group :: "position_event \<Rightarrow> (string \<times> position_event list) list \<Rightarrow> (string \<times> position_event list) list" where
  "add_to_group e [] = [(pe_position e, [e])]"
| "add_to_group e ((k, es) # gs) =
     (if k = pe_position e then (k, es @ [e]) # gs else (k, es) # add_to_group e gs)"

definition group_events :: "position_event list \<Rightarrow> (string \<times> position_event list) list" where
  "group_events es = fold add_to_group (in_time_order es) []"

definition derive_position :: "string \<Rightarrow> position_event list \<Rightarrow> exn + derived_position" where
  "derive_position key ordered =
     rbind (fold_one_position ordered)
     (\<lambda>(quantity, is_open, opening).
        rbind (dec_mul (dec_of_int quantity) (pe_price opening))
        (\<lambda>notional. rbind (money_str (pe_price opening))
        (\<lambda>price_text. rbind (money_str notional)
        (\<lambda>notional_text.
           Inr \<lparr>dp_position = key, dp_symbol = pe_symbol opening, dp_open_quantity = quantity,
                dp_is_open = is_open, dp_entry_price = price_text, dp_open_notional = notional_text,
                dp_opened_at = pe_event_timestamp opening,
                dp_last_event_at = pe_event_timestamp (last ordered),
                dp_event_count = int (length ordered)\<rparr>))))"

text \<open>\<^verbatim>\<open>Decimal(text)\<close> of a numeral as \<open>dec_format_f\<close> prints it: a sign, digits, a point.\<close>

definition digit_value :: "char \<Rightarrow> int" where
  "digit_value c = int (of_char c) - 48"

definition digits_value :: "string \<Rightarrow> int" where
  "digits_value ds = foldl (\<lambda>n c. 10 * n + digit_value c) 0 ds"

definition dec_of_numeral :: "string \<Rightarrow> decimal" where
  "dec_of_numeral s =
     (let neg = (s \<noteq> [] \<and> hd s = CHR ''-''); t = (if neg then tl s else s);
          whole = takeWhile (\<lambda>c. c \<noteq> CHR ''.'') t; frac = drop (Suc (length whole)) t
      in Dec neg (digits_value (whole @ frac)) (- int (length frac)))"

fun dec_sum :: "decimal \<Rightarrow> decimal list \<Rightarrow> exn + decimal" where
  "dec_sum acc [] = Inr acc"
| "dec_sum acc (x # xs) = rbind (dec_add acc x) (\<lambda>s. dec_sum s xs)"

definition considered_events :: "position_event list \<Rightarrow> int \<Rightarrow> position_event list" where
  "considered_events es t = filter (\<lambda>e. event_instant e \<le> t) es"

definition derive_position_state :: "position_event list \<Rightarrow> datetime \<Rightarrow> exn + derived_position_state" where
  "derive_position_state es as_of =
     rbind (ensure (is_aware as_of) (LedgerRejectionError NAIVE_TIMESTAMP))
     (\<lambda>_. let considered = considered_events es (instant as_of);
             excluded = int (length es) - int (length considered);
             groups = group_events considered in
        rbind (rmap (\<lambda>key. derive_position key (the (map_of groups key))) (sort (map fst groups)))
        (\<lambda>positions. let opens = filter dp_is_open positions in
           rbind (dec_sum (dec_of_int 0) (map (\<lambda>p. dec_of_numeral (dp_open_notional p)) opens))
           (\<lambda>total. rbind (money_str total)
           (\<lambda>total_text.
              Inr \<lparr>ds_as_of = as_of, ds_open = opens,
                   ds_closed = filter (\<lambda>p. \<not> dp_is_open p) positions,
                   ds_total_quantity = sum_list (map dp_open_quantity opens),
                   ds_total_notional = total_text,
                   ds_considered = int (length considered), ds_excluded = excluded,
                   ds_limitations =
                     [''every value here is what the operator asserted, not a broker record or a verified fill'',
                      ''notional is quantity x asserted entry price -- not a market value and not P&L'']
                     @ (if excluded \<noteq> 0 then
                          [int_str excluded @ '' event(s) stamped after the requested as_of were excluded'']
                        else [])\<rparr>))))"

section \<open>Time order\<close>

lemma mset_in_time_order [simp]: "mset (in_time_order es) = mset es"
  by (simp add: in_time_order_def)

lemma set_in_time_order [simp]: "set (in_time_order es) = set es"
  by (simp add: in_time_order_def)

lemma length_in_time_order [simp]: "length (in_time_order es) = length es"
  by (simp add: in_time_order_def)

lemma in_time_order_eq_Nil [simp]: "in_time_order es = [] \<longleftrightarrow> es = []"
  by (metis length_0_conv length_in_time_order)

lemma filter_in_time_order: "filter P (in_time_order es) = in_time_order (filter P es)"
  by (simp add: in_time_order_def filter_sort)

lemma in_time_order_cong:
  assumes "mset es = mset es'" "distinct (map pe_governance_id es)"
  shows "in_time_order es = in_time_order es'"
  unfolding in_time_order_def
proof (rule sort_key_inj_key_eq)
  show "mset es = mset (sort_key order_key es')" using assms(1) by simp
  show "inj_on order_key (set es)"
    using assms(2) by (auto simp: order_key_def distinct_map inj_on_def)
qed simp

lemma sorted_instants: "sorted (map event_instant (in_time_order es))"
proof -
  have "sorted (map order_key (in_time_order es))" by (simp add: in_time_order_def)
  then show ?thesis
    by (auto simp: sorted_wrt_map order_key_def less_eq_prod_def elim!: sorted_wrt_mono_rel[rotated])
qed

text \<open>On a sorted list, what satisfies a downward closed predicate comes first.\<close>

lemma filter_until_prefix:
  assumes "sorted (map f xs)" "\<And>x y. f x \<le> f y \<Longrightarrow> P y \<Longrightarrow> P x"
  shows "\<exists>ys. xs = filter P xs @ ys"
  using assms(1)
proof (induction xs)
  case (Cons x xs)
  show ?case
  proof (cases "P x")
    case False
    with Cons.prems assms(2) have "filter P xs = []" by (auto simp: filter_empty_conv)
    with False show ?thesis by simp
  qed (use Cons in auto)
qed simp

lemma in_time_order_map:
  "(\<And>e. order_key (g e) = order_key e) \<Longrightarrow> in_time_order (map g es) = map g (in_time_order es)"
proof (induction es)
  case (Cons e es)
  have "insort_key order_key (g e) (map g xs) = map g (insort_key order_key e xs)" for xs
    using Cons.prems by (induction xs) auto
  with Cons show ?case by (simp add: in_time_order_def)
qed (simp add: in_time_order_def)

section \<open>Which sequences fold\<close>

definition open_state :: "position_event \<Rightarrow> int \<Rightarrow> fold_state" where
  "open_state o' q = \<lparr>fs_quantity = q, fs_opened = True, fs_closed = False, fs_opening = Some o'\<rparr>"

definition closed_state :: "position_event \<Rightarrow> fold_state" where
  "closed_state o' = \<lparr>fs_quantity = 0, fs_opened = True, fs_closed = True, fs_opening = Some o'\<rparr>"

definition positive_quantity :: "position_event \<Rightarrow> bool" where
  "positive_quantity e \<longleftrightarrow> (pe_kind e \<noteq> CLOSED \<longrightarrow> 0 < pe_quantity e) \<and> 0 \<le> pe_quantity e"

lemma event_ok_positive: "event_ok e \<Longrightarrow> positive_quantity e"
  by (cases "pe_kind e") (auto simp: event_ok_def event_checks_def positive_quantity_def result_eqs)

lemma event_ok_aware: "event_ok e \<Longrightarrow> is_aware (pe_event_timestamp e)"
  by (auto simp: event_ok_def event_checks_def result_eqs)

definition reduced_by :: "position_event list \<Rightarrow> int" where
  "reduced_by es = sum_list (map pe_quantity es)"

lemma reduced_by_simps [simp]: "reduced_by [] = 0" "reduced_by (e # es) = pe_quantity e + reduced_by es"
  by (simp_all add: reduced_by_def)

lemma reduced_by_nonneg: "\<forall>e \<in> set es. positive_quantity e \<Longrightarrow> 0 \<le> reduced_by es"
  by (induction es) (auto simp: positive_quantity_def)

lemma fold_step_start:
  "fold_step e fold_start = Inr st \<longleftrightarrow> pe_kind e = OPENED \<and> st = open_state e (pe_quantity e)"
  by (cases "pe_kind e") (auto simp: fold_step_def fold_start_def open_state_def result_eqs)

lemma fold_step_open:
  "fold_step e (open_state o' q) = Inr st \<longleftrightarrow>
     pe_symbol e = pe_symbol o'
     \<and> (pe_kind e = REDUCED \<and> pe_quantity e \<le> q
          \<and> st = (if pe_quantity e = q then closed_state o' else open_state o' (q - pe_quantity e))
        \<or> pe_kind e = CLOSED \<and> st = closed_state o')"
  by (cases "pe_kind e") (auto simp: fold_step_def open_state_def closed_state_def Let_def result_eqs)

lemma fold_step_closed: "fold_step e (closed_state o') \<noteq> Inr st"
  by (cases "pe_kind e") (auto simp: fold_step_def closed_state_def result_eqs)

lemma fold_from_closed: "fold_from es (closed_state o') = Inr st \<longleftrightarrow> es = [] \<and> st = closed_state o'"
  by (cases es) (auto simp: rbind_eq_Inr fold_step_closed)

lemma fold_from_append: "fold_from (es @ es') st = rbind (fold_from es st) (fold_from es')"
  by (induction es arbitrary: st) (auto simp: rbind_def split: sum.splits)

text \<open>The shape of what may follow the opening: reductions, and at the end one closing.\<close>

definition exits :: "position_event \<Rightarrow> int \<Rightarrow> position_event list \<Rightarrow> position_event list \<Rightarrow> bool" where
  "exits o' q rs tail \<longleftrightarrow>
     (\<forall>e \<in> set rs. pe_kind e = REDUCED) \<and> (\<forall>e \<in> set (rs @ tail). pe_symbol e = pe_symbol o')
     \<and> (tail = [] \<and> reduced_by rs \<le> q
        \<or> (\<exists>c. tail = [c] \<and> pe_kind c = CLOSED \<and> reduced_by rs < q))"

lemma exits_Cons:
  "exits o' q (r # rs) tail \<longleftrightarrow>
     pe_kind r = REDUCED \<and> pe_symbol r = pe_symbol o' \<and> exits o' (q - pe_quantity r) rs tail"
  by (auto simp: exits_def)

lemma exits_nothing_left:
  assumes "\<forall>e \<in> set rs. positive_quantity e" "reduced_by rs \<le> 0" "\<forall>e \<in> set rs. pe_kind e = REDUCED"
  shows "rs = []"
proof (cases rs)
  case (Cons r rs')
  with assms reduced_by_nonneg[of rs'] show ?thesis by (auto simp: positive_quantity_def)
qed simp

definition state_after :: "position_event \<Rightarrow> int \<Rightarrow> position_event list \<Rightarrow> position_event list \<Rightarrow> fold_state" where
  "state_after o' q rs tail =
     (if tail = [] \<and> reduced_by rs < q then open_state o' (q - reduced_by rs) else closed_state o')"

lemma exits_split:
  "(\<exists>rs tail. e # es = rs @ tail \<and> exits o' q rs tail \<and> P rs tail) \<longleftrightarrow>
     (es = [] \<and> exits o' q [] [e] \<and> P [] [e])
     \<or> (\<exists>rs tail. es = rs @ tail \<and> exits o' q (e # rs) tail \<and> P (e # rs) tail)"
proof -
  have "es = []" if "exits o' q [] (e # es)"
    using that by (auto simp: exits_def)
  then show ?thesis
    by (subst (1) Cons_eq_append_conv) blast
qed

lemma fold_from_open:
  assumes "0 < q" "\<forall>e \<in> set es. positive_quantity e"
  shows "fold_from es (open_state o' q) = Inr st \<longleftrightarrow>
     (\<exists>rs tail. es = rs @ tail \<and> exits o' q rs tail \<and> st = state_after o' q rs tail)"
  using assms
proof (induction es arbitrary: q)
  case Nil
  then show ?case by (auto simp: exits_def state_after_def)
next
  case (Cons e es)
  note split = exits_split[where P = "\<lambda>rs tail. st = state_after o' q rs tail"]
  have nonneg: "0 \<le> reduced_by rs" if "es = rs @ tail" for rs tail
    using Cons.prems(2) that by (intro reduced_by_nonneg) auto
  have step: "fold_from (e # es) (open_state o' q) = rbind (fold_step e (open_state o' q)) (fold_from es)"
    by simp
  show ?case
  proof (cases "pe_kind e = REDUCED \<and> pe_symbol e = pe_symbol o' \<and> pe_quantity e \<le> q")
    case True
    then have shifted: "exits o' q (e # rs) tail \<longleftrightarrow> exits o' (q - pe_quantity e) rs tail"
      "state_after o' q (e # rs) tail = state_after o' (q - pe_quantity e) rs tail"
      "\<not> exits o' q [] [e]" for rs tail
      by (simp_all add: exits_Cons state_after_def algebra_simps) (auto simp: exits_def)
    show ?thesis
    proof (cases "pe_quantity e = q")
      case True
      with \<open>_ \<and> _ \<and> _\<close> have "fold_step e (open_state o' q) = Inr (closed_state o')"
        by (simp add: fold_step_open)
      moreover have "es = rs @ tail \<and> exits o' 0 rs tail \<longleftrightarrow> es = [] \<and> rs = [] \<and> tail = []" for rs tail
        using Cons.prems(2) nonneg[of rs tail] exits_nothing_left[of rs] by (auto simp: exits_def)
      then have "(\<exists>rs tail. es = rs @ tail \<and> exits o' 0 rs tail \<and> P rs tail) \<longleftrightarrow> es = [] \<and> P [] []" for P
        by blast
      ultimately show ?thesis
        unfolding step split shifted using True
        by (simp add: fold_from_closed) (auto simp: state_after_def)
    next
      case False
      with True have "fold_step e (open_state o' q) = Inr (open_state o' (q - pe_quantity e))"
        by (simp add: fold_step_open)
      with False True Cons.prems show ?thesis
        unfolding step split shifted(1,2) by (simp add: Cons.IH shifted(3))
    qed
  next
    case False
    then have "\<not> (es = rs @ tail \<and> exits o' q (e # rs) tail)" for rs tail
      using nonneg[of rs tail] by (auto simp: exits_def)
    moreover have "fold_step e (open_state o' q) = Inr st' \<longleftrightarrow>
        exits o' q [] [e] \<and> st' = closed_state o'" for st'
      using False Cons.prems by (auto simp: fold_step_open exits_def)
    ultimately show ?thesis
      unfolding step split by (auto simp: rbind_eq_Inr fold_from_closed state_after_def)
  qed
qed

text \<open>
  The reference reading of one position: the first event opens it, then come reductions that take
  no more than is there, and possibly one closing of what is left; all events name one instrument.
\<close>

definition open_quantity :: "position_event list \<Rightarrow> position_event list \<Rightarrow> position_event \<Rightarrow> int" where
  "open_quantity rs tail o' = (if tail = [] then pe_quantity o' - reduced_by rs else 0)"

lemma fold_result_after:
  "exits o' (pe_quantity o') rs tail \<Longrightarrow>
   fold_result (state_after o' (pe_quantity o') rs tail)
     = Inr (open_quantity rs tail o', 0 < open_quantity rs tail o', o')"
  by (auto simp: fold_result_def state_after_def open_quantity_def open_state_def closed_state_def exits_def)

text \<open>The sequences a fold accepts, and its result.\<close>

lemma fold_one_position_exact:
  assumes "\<forall>e \<in> set es. positive_quantity e"
  shows "fold_one_position es = Inr (q, is_open, o') \<longleftrightarrow>
     (\<exists>rs tail. es = o' # rs @ tail \<and> pe_kind o' = OPENED \<and> exits o' (pe_quantity o') rs tail
        \<and> q = open_quantity rs tail o' \<and> (is_open \<longleftrightarrow> 0 < q))"
proof (cases es)
  case Nil
  then show ?thesis by (auto simp: fold_one_position_def fold_result_def fold_start_def)
next
  case (Cons e rest)
  show ?thesis
  proof (cases "pe_kind e = OPENED")
    case True
    with assms Cons have positive: "0 < pe_quantity e" "\<forall>e \<in> set rest. positive_quantity e"
      by (auto simp: positive_quantity_def)
    have "fold_one_position es = rbind (fold_from rest (open_state e (pe_quantity e))) fold_result"
      using Cons True fold_step_start[of e "open_state e (pe_quantity e)"]
      by (simp add: fold_one_position_def)
    then have "fold_one_position es = Inr (q, is_open, o') \<longleftrightarrow>
        (\<exists>rs tail. rest = rs @ tail \<and> exits e (pe_quantity e) rs tail
           \<and> fold_result (state_after e (pe_quantity e) rs tail) = Inr (q, is_open, o'))"
      by (simp add: rbind_eq_Inr fold_from_open[OF positive]) blast
    also have "\<dots> \<longleftrightarrow> (\<exists>rs tail. rest = rs @ tail \<and> exits e (pe_quantity e) rs tail
           \<and> (open_quantity rs tail e, 0 < open_quantity rs tail e, e) = (q, is_open, o'))"
      by (simp add: fold_result_after cong: conj_cong)
    finally show ?thesis using Cons True by auto
  qed (use Cons in \<open>auto simp: fold_one_position_def rbind_eq_Inr fold_step_start\<close>)
qed

section \<open>Coherent ledgers\<close>

definition folds :: "position_event list \<Rightarrow> bool" where
  "folds es \<longleftrightarrow> (\<exists>r. fold_one_position (in_time_order es) = Inr r)"

definition coherent :: "position_event list \<Rightarrow> bool" where
  "coherent es \<longleftrightarrow> (\<forall>e \<in> set es. folds (same_position es e))"

definition ledger_ok :: "position_event list \<Rightarrow> bool" where
  "ledger_ok es \<longleftrightarrow> (\<forall>e \<in> set es. event_ok e) \<and> distinct (map pe_governance_id es) \<and> coherent es"

text \<open>
  What \<^verbatim>\<open>append_validated\<close> records: the candidate, a closing event with the derived quantity
  (\<^verbatim>\<open>dataclasses.replace\<close> runs the constructor's checks again).
\<close>

definition append_event :: "position_event list \<Rightarrow> position_event \<Rightarrow> exn + position_event" where
  "append_event existing candidate =
     rbind (validate_appended_event existing candidate)
     (\<lambda>q. if pe_kind candidate = CLOSED then make_event (candidate\<lparr>pe_quantity := q\<rparr>) else Inr candidate)"

lemma fold_step_opening: "fold_step e st = Inr st' \<Longrightarrow> fs_opening st' \<noteq> None"
  if "fs_opened st \<longleftrightarrow> fs_opening st \<noteq> None"
  using that by (cases "pe_kind e") (auto simp: fold_step_def Let_def result_eqs)

lemma fold_step_opened:
  "fold_step e st = Inr st' \<Longrightarrow> fs_opened st \<longleftrightarrow> fs_opening st \<noteq> None \<Longrightarrow> fs_opened st' \<longleftrightarrow> fs_opening st' \<noteq> None"
  by (cases "pe_kind e") (auto simp: fold_step_def Let_def result_eqs)

lemma fold_from_opening:
  "fold_from es st = Inr st' \<Longrightarrow> fs_opened st \<longleftrightarrow> fs_opening st \<noteq> None \<Longrightarrow> es \<noteq> [] \<Longrightarrow> fs_opening st' \<noteq> None"
proof (induction es arbitrary: st)
  case (Cons e es)
  then obtain st1 where "fold_step e st = Inr st1" "fold_from es st1 = Inr st'" by (auto simp: rbind_eq_Inr)
  with Cons fold_step_opening[of st e st1] fold_step_opened[of e st st1] show ?case
    by (cases "es = []") auto
qed simp

lemma fold_prefix:
  assumes "fold_one_position (xs @ ys) = Inr r" "xs \<noteq> []"
  shows "\<exists>r'. fold_one_position xs = Inr r'"
proof -
  from assms(1) obtain st where "fold_from xs fold_start = Inr st"
    by (auto simp: fold_one_position_def fold_from_append rbind_eq_Inr)
  with fold_from_opening[OF this] assms(2) show ?thesis
    by (auto simp: fold_one_position_def fold_result_def fold_start_def)
qed

text \<open>A prefix in time of a position that folds, folds.\<close>

lemma folds_until:
  assumes "folds es" "\<And>x y. order_key x \<le> order_key y \<Longrightarrow> P y \<Longrightarrow> P x" "filter P es \<noteq> []"
  shows "folds (filter P es)"
proof -
  have "sorted (map order_key (in_time_order es))" by (simp add: in_time_order_def)
  from filter_until_prefix[where P = P, OF this] assms(2) obtain ys where
    "in_time_order es = in_time_order (filter P es) @ ys" by (auto simp: filter_in_time_order)
  with assms(1,3) fold_prefix show ?thesis by (auto simp: folds_def)
qed

text \<open>
  What the fold looks at: the kind, the instrument and, except in a closing, the quantity. Two
  events that agree there and in key, identifier and time are exchangeable.
\<close>

definition similar :: "position_event \<Rightarrow> position_event \<Rightarrow> bool" where
  "similar e e' \<longleftrightarrow> pe_governance_id e' = pe_governance_id e \<and> pe_position e' = pe_position e
     \<and> pe_symbol e' = pe_symbol e \<and> pe_kind e' = pe_kind e \<and> event_instant e' = event_instant e
     \<and> (pe_kind e \<noteq> CLOSED \<longrightarrow> pe_quantity e' = pe_quantity e)"

definition rename_opening :: "(position_event \<Rightarrow> position_event) \<Rightarrow> fold_state \<Rightarrow> fold_state" where
  "rename_opening g st = st\<lparr>fs_opening := map_option g (fs_opening st)\<rparr>"

lemma fold_step_rename:
  assumes "\<And>e. similar e (g e)"
  shows "fold_step (g e) (rename_opening g st) = map_sum id (rename_opening g) (fold_step e st)"
  using assms[of e] assms[of "the (fs_opening st)"]
  by (cases "pe_kind e"; cases "fs_opening st")
    (auto simp: fold_step_def rename_opening_def similar_def rbind_def ensure_def Let_def)

lemma fold_from_rename:
  assumes "\<And>e. similar e (g e)"
  shows "fold_from (map g es) (rename_opening g st) = map_sum id (rename_opening g) (fold_from es st)"
proof (induction es arbitrary: st)
  case (Cons e es)
  then show ?case by (cases "fold_step e st") (simp_all add: fold_step_rename[OF assms])
qed simp

lemma folds_similar:
  assumes "similar c c'" "pe_governance_id c \<notin> pe_governance_id ` set es"
  shows "folds (es @ [c']) \<longleftrightarrow> folds (es @ [c])"
proof -
  define g :: "position_event \<Rightarrow> position_event" where "g e = (if e = c then c' else e)" for e
  have g: "similar e (g e)" for e using assms(1) by (simp add: g_def similar_def)
  have "rename_opening g fold_start = fold_start" by (simp add: rename_opening_def fold_start_def)
  then have "isl (fold_one_position (map g xs)) = isl (fold_one_position xs)" for xs
    using fold_from_rename[of g xs fold_start, OF g]
    by (cases "fold_from xs fold_start")
      (auto simp: fold_one_position_def fold_result_def rename_opening_def split: option.splits)
  moreover have "folds xs \<longleftrightarrow> \<not> isl (fold_one_position (in_time_order xs))" for xs
    by (cases "fold_one_position (in_time_order xs)") (auto simp: folds_def)
  moreover have "map g es = es" using assms(2) by (intro map_idI) (auto simp: g_def)
  then have "map g (es @ [c]) = es @ [c']" by (simp add: g_def)
  moreover have "in_time_order (map g xs) = map g (in_time_order xs)" for xs
    using g by (intro in_time_order_map) (simp add: similar_def order_key_def)
  ultimately show ?thesis by metis
qed

lemma folds_closing_quantity:
  assumes "pe_kind c = CLOSED" "pe_governance_id c \<notin> pe_governance_id ` set es"
  shows "folds (es @ [c\<lparr>pe_quantity := q\<rparr>]) \<longleftrightarrow> folds (es @ [c])"
  using assms by (intro folds_similar) (simp_all add: similar_def)

lemma coherent_append:
  assumes "coherent es"
  shows "coherent (es @ [c]) \<longleftrightarrow> folds (same_position es c @ [c])"
proof -
  have "same_position (es @ [c]) e = (if pe_position e = pe_position c then same_position es c @ [c] else same_position es e)" for e
    by (auto simp: same_position_def intro: filter_cong)
  with assms show ?thesis by (auto simp: coherent_def)
qed

lemma closing_event_ok:
  "event_ok c \<Longrightarrow> 0 \<le> q \<Longrightarrow> pe_kind c = CLOSED \<Longrightarrow> event_ok (c\<lparr>pe_quantity := q\<rparr>)"
  by (auto simp: event_ok_def event_checks_def result_eqs)

lemma make_event_ok: "event_ok e \<Longrightarrow> make_event e = Inr e"
  by (simp add: make_event_def event_ok_def)

lemma effective_candidate_defined:
  assumes "ledger_ok es" "event_ok c"
  shows "\<exists>q \<ge> 0. effective_candidate es c = Inr (if pe_kind c = CLOSED then c\<lparr>pe_quantity := q\<rparr> else c)"
proof (cases "pe_kind c = CLOSED")
  case True
  let ?prior = "filter (\<lambda>e. order_key e < order_key c) (same_position es c)"
  have "\<exists>q \<ge> 0. (if ?prior = [] then Inr 0
      else rbind (fold_one_position (in_time_order ?prior)) (\<lambda>r. Inr (fst r))) = Inr q"
  proof (cases "?prior = []")
    case False
    then obtain e where "e \<in> set es" "pe_position e = pe_position c" by (auto simp: same_position_def filter_empty_conv)
    with assms(1) have "folds (same_position es c)"
      by (force simp: ledger_ok_def coherent_def same_position_def)
    with False have "folds ?prior" by (intro folds_until) auto
    then obtain q is_open o' where r: "fold_one_position (in_time_order ?prior) = Inr (q, is_open, o')"
      by (auto simp: folds_def)
    have "\<forall>e \<in> set (in_time_order ?prior). positive_quantity e"
      using assms(1) by (auto simp: same_position_def ledger_ok_def intro: event_ok_positive)
    from r[unfolded fold_one_position_exact[OF this]] have "0 \<le> q"
      by (auto simp: open_quantity_def exits_def)
    with r False show ?thesis by simp
  qed auto
  then show ?thesis
    using True closing_event_ok[OF assms(2)] by (auto simp: effective_candidate_def Let_def make_event_ok)
qed (auto simp: effective_candidate_def)

definition recorded_as :: "position_event \<Rightarrow> int \<Rightarrow> position_event" where
  "recorded_as c q = (if pe_kind c = CLOSED then c\<lparr>pe_quantity := q\<rparr> else c)"

lemma recorded_as_simps [simp]:
  "pe_governance_id (recorded_as c q) = pe_governance_id c" "pe_position (recorded_as c q) = pe_position c"
  "same_position es (recorded_as c q) = same_position es c"
  by (simp_all add: recorded_as_def same_position_def)

lemma folds_recorded:
  "pe_governance_id c \<notin> pe_governance_id ` set es \<Longrightarrow> folds (es @ [recorded_as c q]) \<longleftrightarrow> folds (es @ [c])"
  by (simp add: recorded_as_def folds_closing_quantity)

lemma append_event_Inr:
  assumes "ledger_ok es" "event_ok c"
  shows "\<exists>q \<ge> 0. \<forall>p. append_event es c = Inr p \<longleftrightarrow>
     pe_governance_id c \<notin> pe_governance_id ` set es \<and> folds (same_position es c @ [c]) \<and> p = recorded_as c q"
proof -
  obtain q where q: "0 \<le> q" "effective_candidate es c = Inr (recorded_as c q)"
    using effective_candidate_defined[OF assms] unfolding recorded_as_def by blast
  have fresh: "pe_governance_id c \<notin> pe_governance_id ` set es
      \<Longrightarrow> pe_governance_id c \<notin> pe_governance_id ` set (same_position es c)"
    by (auto simp: same_position_def)
  have "validate_appended_event es c = Inr n \<longleftrightarrow> pe_governance_id c \<notin> pe_governance_id ` set es
      \<and> folds (same_position es c @ [recorded_as c q]) \<and> n = pe_quantity (recorded_as c q)" for n
    by (auto simp: validate_appended_event_def q(2) rbind_eq_Inr ensure_eq_Inr not_in_image folds_def)
  then have "append_event es c = Inr p \<longleftrightarrow>
      pe_governance_id c \<notin> pe_governance_id ` set es \<and> folds (same_position es c @ [c]) \<and> p = recorded_as c q" for p
    using fresh folds_recorded[of c "same_position es c" q] closing_event_ok[OF assms(2) q(1)]
    by (auto simp: append_event_def rbind_eq_Inr make_event_ok recorded_as_def)
  with q(1) show ?thesis by blast
qed

lemma ledger_ok_append:
  assumes "ledger_ok es" "event_ok p"
  shows "ledger_ok (es @ [p]) \<longleftrightarrow>
     pe_governance_id p \<notin> pe_governance_id ` set es \<and> folds (same_position es p @ [p])"
  using assms coherent_append[of es p] by (auto simp: ledger_ok_def)

lemma ledger_ok_similar:
  assumes "ledger_ok es" "event_ok p" "event_ok p'" "similar p p'" "ledger_ok (es @ [p])"
  shows "ledger_ok (es @ [p'])"
proof -
  have "same_position es p' = same_position es p" "pe_governance_id p' = pe_governance_id p"
    using assms(4) by (simp_all add: similar_def same_position_def)
  moreover have "pe_governance_id p \<notin> pe_governance_id ` set (same_position es p)"
    using assms(1,2,5) ledger_ok_append by (auto simp: same_position_def)
  ultimately show ?thesis
    using assms folds_similar[OF assms(4), of "same_position es p"] by (simp add: ledger_ok_append)
qed

text \<open>What may be appended, and that it keeps the ledger coherent.\<close>

lemma append_event_exact:
  assumes "ledger_ok es" "event_ok c"
  shows "((\<exists>p. append_event es c = Inr p) \<longleftrightarrow> ledger_ok (es @ [c]))
     \<and> (\<forall>p. append_event es c = Inr p \<longrightarrow> ledger_ok (es @ [p]))"
proof -
  obtain q where q: "0 \<le> q" "\<And>p. append_event es c = Inr p \<longleftrightarrow>
     pe_governance_id c \<notin> pe_governance_id ` set es \<and> folds (same_position es c @ [c]) \<and> p = recorded_as c q"
    using append_event_Inr[OF assms] by blast
  have event: "event_ok (recorded_as c q)"
    using assms(2) closing_event_ok[OF assms(2) q(1)] by (simp add: recorded_as_def)
  from ledger_ok_append[OF assms] ledger_ok_append[OF assms(1) event] show ?thesis
    unfolding q(2) using folds_recorded[of c "same_position es c" q] by (auto simp: same_position_def)
qed

section \<open>Reading the ledger at a cutoff\<close>

lemma map_of_add_to_group:
  "map_of (add_to_group e gs) k =
     (if k = pe_position e then Some ((case map_of gs k of None \<Rightarrow> [] | Some es \<Rightarrow> es) @ [e])
      else map_of gs k)"
  by (induction e gs rule: add_to_group.induct) auto

lemma distinct_add_to_group:
  "distinct (map fst gs) \<Longrightarrow> distinct (map fst (add_to_group e gs))
   \<and> set (map fst (add_to_group e gs)) = insert (pe_position e) (set (map fst gs))"
  by (induction e gs rule: add_to_group.induct) auto

definition events_of :: "string \<Rightarrow> position_event list \<Rightarrow> position_event list" where
  "events_of key es = filter (\<lambda>e. pe_position e = key) es"

text \<open>Grouping is filtering: a key has the events that name it, in order.\<close>

lemma map_of_fold_groups:
  "map_of (fold add_to_group es []) k = (if events_of k es = [] then None else Some (events_of k es))"
  by (induction es rule: rev_induct) (auto simp: map_of_add_to_group events_of_def)

lemma distinct_fold_groups:
  "distinct (map fst (fold add_to_group es []))
   \<and> set (map fst (fold add_to_group es [])) = pe_position ` set es"
proof (induction es rule: rev_induct)
  case (snoc e es)
  with distinct_add_to_group[of "fold add_to_group es []" e] show ?case by auto
qed simp

lemma group_of:
  "key \<in> set (map fst (group_events es)) \<Longrightarrow>
   the (map_of (group_events es) key) = in_time_order (events_of key es) \<and> events_of key es \<noteq> []"
  using distinct_fold_groups[of "in_time_order es"]
  by (auto simp: group_events_def map_of_fold_groups events_of_def filter_in_time_order filter_empty_conv)

lemma events_of_considered:
  assumes "ledger_ok es" "events_of key (considered_events es t) \<noteq> []"
  shows "folds (events_of key (considered_events es t))"
proof -
  from assms(2) obtain e where e: "e \<in> set es" "pe_position e = key"
    by (auto simp: events_of_def considered_events_def filter_empty_conv)
  with assms(1) have "folds (same_position es e)" by (auto simp: ledger_ok_def coherent_def)
  moreover have "events_of key (considered_events es t) = filter (\<lambda>e. event_instant e \<le> t) (same_position es e)"
    using e(2) by (auto simp: events_of_def considered_events_def same_position_def intro: filter_cong)
  moreover have "order_key x \<le> order_key y \<Longrightarrow> event_instant y \<le> t \<Longrightarrow> event_instant x \<le> t" for x y
    by (auto simp: order_key_def)
  ultimately show ?thesis
    using assms(2) folds_until[of "same_position es e" "\<lambda>e. event_instant e \<le> t"] by metis
qed

text \<open>The arithmetic of the report raises only what \<^verbatim>\<open>decimal\<close> raises.\<close>

definition arithmetic :: "exn \<Rightarrow> bool" where
  "arithmetic e \<longleftrightarrow> (\<exists>s. e = ArithmeticError s)"

lemma dec_fix_raises: "dec_fix s c x = Inl e \<Longrightarrow> arithmetic e"
  by (auto simp: dec_fix_def Let_def arithmetic_def decimal_overflow_def split: if_splits)

lemma dec_mul_raises: "dec_mul x y = Inl e \<Longrightarrow> arithmetic e"
  by (cases x; cases y) (auto dest: dec_fix_raises simp: arithmetic_def invalid_operation_def split: if_splits)

lemma dec_add_raises: "dec_add x y = Inl e \<Longrightarrow> arithmetic e"
  by (cases x; cases y)
    (auto dest: dec_fix_raises simp: arithmetic_def invalid_operation_def Let_def split: if_splits)

lemma money_str_raises: "money_str x = Inl e \<Longrightarrow> arithmetic e"
  by (cases x)
    (auto simp: money_str_def rbind_eq_Inl dest: dec_fix_raises split: decimal.splits if_splits prod.splits,
      metis decimal.exhaust)

lemma dec_sum_raises: "dec_sum x xs = Inl e \<Longrightarrow> arithmetic e"
  by (induction x xs rule: dec_sum.induct) (auto simp: rbind_eq_Inl dest: dec_add_raises)

lemma derive_position_raises:
  assumes "derive_position key ordered = Inl e" "fold_one_position ordered = Inr r"
  shows "arithmetic e"
  using assms
  by (auto simp: derive_position_def rbind_eq_Inl dest: dec_mul_raises money_str_raises split: prod.splits)

lemma rmap_Inl: "rmap f xs = Inl e \<Longrightarrow> \<exists>x \<in> set xs. f x = Inl e"
  by (induction xs) (auto simp: rbind_eq_Inl)

text \<open>
  C18. A coherent ledger can be read at every cutoff that is a point in time, also before events
  that are already recorded: the ledger itself is never found incoherent there, so nothing but the
  arithmetic of huge amounts can fail.
\<close>

theorem derive_reads_every_cutoff:
  assumes "ledger_ok es"
  shows "case derive_position_state es (Aware t) of
     Inr st \<Rightarrow> ds_considered st + ds_excluded st = int (length es) | Inl e \<Rightarrow> \<exists>s. e = ArithmeticError s"
proof -
  have "arithmetic e'" if "rmap (\<lambda>key. derive_position key
      (the (map_of (group_events (considered_events es t)) key)))
      (sort (map fst (group_events (considered_events es t)))) = Inl e'" for e'
  proof -
    from rmap_Inl[OF that] obtain key where key: "key \<in> set (map fst (group_events (considered_events es t)))"
      "derive_position key (the (map_of (group_events (considered_events es t)) key)) = Inl e'"
      by auto
    with group_of[OF key(1)] events_of_considered[OF assms] show ?thesis
      by (auto simp: folds_def intro: derive_position_raises)
  qed
  then have "arithmetic e" if "derive_position_state es (Aware t) = Inl e" for e
    using that by (auto simp: derive_position_state_def Let_def rbind_eq_Inl dest: money_str_raises dec_sum_raises)
  then show ?thesis
    by (auto simp: arithmetic_def derive_position_state_def Let_def rbind_eq_Inr split: sum.splits)
qed

definition derived_view ::
    "derived_position_state \<Rightarrow> derived_position list \<times> derived_position list \<times> int \<times> string \<times> int" where
  "derived_view st =
     (ds_open st, ds_closed st, ds_total_quantity st, ds_total_notional st, ds_considered st)"


lemma rmap_list_all2: "rmap f xs = Inr ys \<Longrightarrow> list_all2 (\<lambda>x y. f x = Inr y) xs ys"
  by (induction xs arbitrary: ys) (auto simp: rbind_eq_Inr)

lemma list_all2_in_set2: "list_all2 P xs ys \<Longrightarrow> y \<in> set ys \<Longrightarrow> \<exists>x \<in> set xs. P x y"
  by (induction rule: list_all2_induct) auto

lemma derive_position_Inr:
  "derive_position key ordered = Inr p \<Longrightarrow> dp_position p = key
     \<and> (\<exists>o'. fold_one_position ordered = Inr (dp_open_quantity p, dp_is_open p, o') \<and> dp_symbol p = pe_symbol o')"
  by (auto simp: derive_position_def rbind_eq_Inr split: prod.splits)

text \<open>
  C19. Every position named by a considered event is derived exactly once, and what is reported of
  it is the reference reading of its events: the quantity opened less the reductions, nothing once
  closed, open exactly if something is left. The total is the sum over the open positions.
\<close>

theorem derived_positions_sound:
  assumes "ledger_ok es" "derive_position_state es (Aware t) = Inr st"
  shows "mset (map dp_position (ds_open st @ ds_closed st))
       = mset_set (pe_position ` set (considered_events es t))
     \<and> ds_total_quantity st = sum_list (map dp_open_quantity (ds_open st))
     \<and> (\<forall>p \<in> set (ds_open st @ ds_closed st). \<exists>o' rs tail.
          in_time_order (events_of (dp_position p) (considered_events es t)) = o' # rs @ tail
          \<and> pe_kind o' = OPENED \<and> exits o' (pe_quantity o') rs tail
          \<and> dp_open_quantity p = open_quantity rs tail o' \<and> dp_symbol p = pe_symbol o'
          \<and> (dp_is_open p \<longleftrightarrow> 0 < dp_open_quantity p) \<and> (p \<in> set (ds_open st) \<longleftrightarrow> dp_is_open p))"
proof -
  let ?groups = "group_events (considered_events es t)"
  let ?derive = "\<lambda>key. derive_position key (the (map_of ?groups key))"
  from assms(2) obtain positions where ps: "rmap ?derive (sort (map fst ?groups)) = Inr positions"
    "ds_open st = filter dp_is_open positions" "ds_closed st = filter (\<lambda>p. \<not> dp_is_open p) positions"
    "ds_total_quantity st = sum_list (map dp_open_quantity (filter dp_is_open positions))"
    by (auto simp: derive_position_state_def Let_def rbind_eq_Inr)
  have each: "list_all2 (\<lambda>key p. ?derive key = Inr p) (sort (map fst ?groups)) positions"
    using rmap_list_all2[OF ps(1)] .
  then have keys: "map dp_position positions = sort (map fst ?groups)"
    by (induction rule: list_all2_induct) (auto dest: derive_position_Inr)
  have "mset (map dp_position (ds_open st @ ds_closed st)) = mset (map dp_position positions)"
    by (simp add: ps(2,3) image_mset_union[symmetric] del: image_mset_union)
  also have "\<dots> = mset (map fst ?groups)"
    by (simp only: keys mset_sort)
  also have "\<dots> = mset_set (pe_position ` set (considered_events es t))"
    using distinct_fold_groups[of "in_time_order (considered_events es t)"]
    by (metis group_events_def mset_set_set set_in_time_order)
  finally have "mset (map dp_position (ds_open st @ ds_closed st))
      = mset_set (pe_position ` set (considered_events es t))" .
  moreover have "\<exists>o' rs tail.
          in_time_order (events_of (dp_position p) (considered_events es t)) = o' # rs @ tail
          \<and> pe_kind o' = OPENED \<and> exits o' (pe_quantity o') rs tail
          \<and> dp_open_quantity p = open_quantity rs tail o' \<and> dp_symbol p = pe_symbol o'
          \<and> (dp_is_open p \<longleftrightarrow> 0 < dp_open_quantity p)" if "p \<in> set positions" for p
  proof -
    from list_all2_in_set2[OF each that] obtain key where
      key: "key \<in> set (map fst ?groups)" "?derive key = Inr p"
      by (auto simp only: set_sort)
    let ?es = "in_time_order (events_of key (considered_events es t))"
    from group_of[OF key(1)] key(2) derive_position_Inr[of key ?es p] obtain o' where
      o': "fold_one_position ?es = Inr (dp_open_quantity p, dp_is_open p, o')" "dp_symbol p = pe_symbol o'"
        "dp_position p = key"
      by auto
    have "\<forall>e \<in> set ?es. positive_quantity e"
      using assms(1) by (auto simp: ledger_ok_def events_of_def considered_events_def intro: event_ok_positive)
    from o'(1)[unfolded fold_one_position_exact[OF this]] o'(2,3) show ?thesis by blast
  qed
  ultimately show ?thesis by (simp add: ps(2-4)) blast
qed

section \<open>Examples\<close>

definition sample_event :: "string \<Rightarrow> position_event_kind \<Rightarrow> int \<Rightarrow> int \<Rightarrow> position_event" where
  "sample_event name kind quantity time =
     \<lparr>pe_governance_id = name, pe_runtime_id = name, pe_position = ''POS-1'', pe_symbol = ''AAPL'',
      pe_kind = kind, pe_quantity = quantity, pe_price = Dec False 1255 (- 1),
      pe_event_timestamp = Aware time, pe_recorded_at = Aware 9, pe_plan = None, pe_note = None\<rparr>"

definition sample_ledger :: "position_event list" where
  "sample_ledger = [sample_event ''OPEV-0002'' CLOSED 10 30, sample_event ''OPEV-0001'' OPENED 10 10]"

definition sample_reduction :: position_event where
  "sample_reduction = sample_event ''OPEV-0003'' REDUCED 4 20"

lemma sample_event_ok: "0 < q \<Longrightarrow> event_ok (sample_event n k q t)"
  by (simp add: event_ok_def event_checks_def sample_event_def dec_less_def compare_at_def dec_of_int_def
      signed_def asserted_price_max_decimal_places_def asserted_price_max_integer_digits_def
      ndigits.simps[of 1255] ndigits.simps[of 125] ndigits.simps[of 12] ndigits.simps[of 1])

lemma sample_folds: "\<not> isl (fold_one_position (in_time_order sample_ledger))"
  by code_simp

lemma sample_ledger_ok: "ledger_ok sample_ledger"
proof -
  have "same_position sample_ledger e = sample_ledger" if "e \<in> set sample_ledger" for e
    using that by (auto simp: sample_ledger_def same_position_def sample_event_def)
  moreover have "folds sample_ledger"
    using sample_folds by (cases "fold_one_position (in_time_order sample_ledger)") (auto simp: folds_def)
  ultimately show ?thesis
    by (auto simp: ledger_ok_def coherent_def sample_ledger_def sample_event_ok) (simp_all add: sample_event_def)
qed

lemma sample_appended: "append_event sample_ledger sample_reduction = Inr sample_reduction"
proof -
  have "case append_event sample_ledger sample_reduction of Inl e \<Rightarrow> False | Inr p \<Rightarrow> True" by code_simp
  then obtain p where p: "append_event sample_ledger sample_reduction = Inr p"
    by (auto split: sum.splits)
  then show ?thesis
    by (auto simp: append_event_def sample_reduction_def sample_event_def rbind_eq_Inr)
qed

text \<open>
  C8. The fold of a position accepts exactly the sequences of an opening, reductions that together
  do not exceed the opened quantity, and at most one closing while something is left, all on one
  instrument; the result is what is left, whether anything is left, and the opening.
\<close>

theorem fold_one_position_iff:
  assumes "\<forall>e \<in> set es. positive_quantity e"
  shows "fold_one_position es = Inr (q, is_open, o') \<longleftrightarrow>
     (\<exists>rs tail. es = o' # rs @ tail \<and> pe_kind o' = OPENED \<and> exits o' (pe_quantity o') rs tail
        \<and> q = open_quantity rs tail o' \<and> (is_open \<longleftrightarrow> 0 < q))"
  using assms by (rule fold_one_position_exact)

theorem fold_one_position_iff_witness:
  "\<exists>o' rs tail. [sample_event ''OPEV-0001'' OPENED 10 10, sample_reduction] = o' # rs @ tail
     \<and> exits o' (pe_quantity o') rs tail \<and> open_quantity rs tail o' = 6"
proof -
  let ?es = "[sample_event ''OPEV-0001'' OPENED 10 10, sample_reduction]"
  have "\<forall>e \<in> set ?es. positive_quantity e"
    by (simp add: positive_quantity_def sample_event_def sample_reduction_def)
  moreover have "fold_one_position ?es = Inr (6, True, hd ?es)" by code_simp
  ultimately show ?thesis
    using fold_one_position_iff[of ?es 6 True "hd ?es"] by auto
qed

text \<open>
  C2. An event is recorded exactly if the ledger with it is coherent: every position folds and no
  event identifier occurs twice. What is recorded keeps the ledger coherent, so a back-dated event
  that would invalidate a later one is never recorded.
\<close>

theorem append_event_iff:
  assumes "ledger_ok es" "event_ok c"
  shows "((\<exists>p. append_event es c = Inr p) \<longleftrightarrow> ledger_ok (es @ [c]))
     \<and> (\<forall>p. append_event es c = Inr p \<longrightarrow> ledger_ok (es @ [p]))"
  using assms by (rule append_event_exact)

theorem append_event_iff_witness:
  "ledger_ok (sample_ledger @ [sample_reduction])"
  using append_event_iff[OF sample_ledger_ok, of sample_reduction] sample_appended sample_event_ok
  by (auto simp: sample_reduction_def)


definition sample_state :: "exn + derived_position_state" where
  "sample_state = derive_position_state sample_ledger (Aware 20)"

theorem derived_positions_sound_witness:
  "\<exists>st. sample_state = Inr st \<and> mset (map dp_position (ds_open st @ ds_closed st)) = {#''POS-1''#}
     \<and> ds_total_quantity st = 10"
proof -
  have "(case sample_state of Inl e \<Rightarrow> False | Inr st \<Rightarrow> map dp_open_quantity (ds_open st) = [10])" by code_simp
  then obtain st where st: "sample_state = Inr st" "map dp_open_quantity (ds_open st) = [10]"
    by (auto split: sum.splits)
  from derived_positions_sound[OF sample_ledger_ok st(1)[unfolded sample_state_def]] st show ?thesis
    by (auto simp: sample_ledger_def considered_events_def sample_event_def)
qed


theorem derive_reads_every_cutoff_witness:
  "case derive_position_state sample_ledger (Aware 20) of
     Inr st \<Rightarrow> ds_considered st + ds_excluded st = int (length sample_ledger) | Inl e \<Rightarrow> \<exists>s. e = ArithmeticError s"
  by (rule derive_reads_every_cutoff[OF sample_ledger_ok])

end
