(* ===== verification/Sql.thy ===== *)
theory Sql
  imports Values
begin

text \<open>
  The relational vocabulary of the PostgreSQL repositories: programs over a state that may
  raise, the tables and columns of
  \<^verbatim>\<open>migrations/versions/5b58cdd7751b_create_m022_postgresql_schema.py\<close> with their types,
  nullability, CHECK, UNIQUE and FOREIGN KEY constraints, and the statements the repositories
  send. PostgreSQL itself is a parameter: the locale \<open>postgres_server\<close> states what its
  documentation promises of the statements used.
\<close>

section \<open>Programs over a state\<close>

type_synonym ('s, 'a) prog = "'s \<Rightarrow> (exn + 'a) \<times> 's"

definition preturn :: "'a \<Rightarrow> ('s, 'a) prog" where
  "preturn x s = (Inr x, s)"

definition praise :: "exn \<Rightarrow> ('s, 'a) prog" where
  "praise e s = (Inl e, s)"

definition plift :: "exn + 'a \<Rightarrow> ('s, 'a) prog" where
  "plift r s = (r, s)"

definition pbind :: "('s, 'a) prog \<Rightarrow> ('a \<Rightarrow> ('s, 'b) prog) \<Rightarrow> ('s, 'b) prog" where
  "pbind m f s = (case m s of (Inl e, s') \<Rightarrow> (Inl e, s') | (Inr x, s') \<Rightarrow> f x s')"

text \<open>\<^verbatim>\<open>for x in xs: f(x)\<close>, and the tuple of the results.\<close>

fun peach :: "('a \<Rightarrow> ('s, 'b) prog) \<Rightarrow> 'a list \<Rightarrow> ('s, 'b list) prog" where
  "peach f [] = preturn []"
| "peach f (x # xs) = pbind (f x) (\<lambda>y. pbind (peach f xs) (\<lambda>ys. preturn (y # ys)))"

text \<open>\<^verbatim>\<open>except E as exc: raise g(exc)\<close>, as \<^const>\<open>rcatch\<close>.\<close>

definition pcatch :: "(exn \<Rightarrow> exn) \<Rightarrow> ('s, 'a) prog \<Rightarrow> ('s, 'a) prog" where
  "pcatch g m s = (case m s of (r, s') \<Rightarrow> (rcatch g r, s'))"

lemma pbind_Inr_iff:
  "pbind m f s = (Inr y, s') \<longleftrightarrow> (\<exists>x t. m s = (Inr x, t) \<and> f x t = (Inr y, s'))"
  by (auto simp: pbind_def split: sum.splits prod.splits)

lemma pbind_Inl_iff:
  "pbind m f s = (Inl e, s') \<longleftrightarrow>
     m s = (Inl e, s') \<or> (\<exists>x t. m s = (Inr x, t) \<and> f x t = (Inl e, s'))"
  by (auto simp: pbind_def split: sum.splits prod.splits)

lemma pbind_Inl_step: "m s = (Inl e, s') \<Longrightarrow> pbind m f s = (Inl e, s')"
  by (simp add: pbind_def)

lemma pbind_Inr_step: "m s = (Inr x, s') \<Longrightarrow> pbind m f s = f x s'"
  by (simp add: pbind_def)

lemma pbind_preturn [simp]: "pbind (preturn x) f = f x"
  by (rule ext) (simp add: pbind_def preturn_def)

lemma pbind_assoc [simp]: "pbind (pbind m f) g = pbind m (\<lambda>x. pbind (f x) g)"
  by (rule ext) (auto simp: pbind_def split: sum.splits prod.splits)

lemma preturn_eq [simp]: "preturn x s = (r, s') \<longleftrightarrow> r = Inr x \<and> s' = s"
  by (auto simp: preturn_def)

lemma praise_eq [simp]: "praise e s = (r, s') \<longleftrightarrow> r = Inl e \<and> s' = s"
  by (auto simp: praise_def)

lemma plift_eq [simp]: "plift x s = (r, s') \<longleftrightarrow> r = x \<and> s' = s"
  by (auto simp: plift_def)

lemma plift_rbind: "plift (rbind m f) = pbind (plift m) (\<lambda>x. plift (f x))"
  by (rule ext) (cases m; simp add: pbind_def plift_def)

lemma pcatch_Inr_iff [simp]: "pcatch g m s = (Inr x, s') \<longleftrightarrow> m s = (Inr x, s')"
  by (cases "m s"; cases "fst (m s)") (auto simp: pcatch_def)

lemma peach_map: "peach f (map g xs) = peach (\<lambda>x. f (g x)) xs"
  by (induction xs) simp_all

section \<open>Tables, columns and values\<close>

datatype table =
  T_campaign | T_campaign_transition | T_run | T_run_manifest | T_run_transition
| T_evidence_package | T_evidence_package_criterion_result | T_evidence_package_artifact_reference
| T_evidence_package_transition | T_review | T_review_finding | T_review_transition

datatype column =
  K_runtime_id | K_governance_id | K_scope_statement | K_lifecycle_state | K_version
| K_next_transition_sequence | K_campaign_runtime_id | K_sequence | K_from_state | K_to_state
| K_actor | K_occurred_at | K_identity_governance_id | K_identity_runtime_id | K_correlation_id
| K_reason | K_campaign_id | K_run_runtime_id | K_position | K_manifest_id | K_recorded_at
| K_source | K_acquisition_method | K_normalization_method | K_notes | K_run_id
| K_evidence_package_runtime_id | K_criterion_id | K_result_label | K_summary
| K_evidence_references | K_value | K_target_evidence_package_id | K_reviewer_reference
| K_disposition | K_final_disposition_rationale | K_cancellation_reason | K_review_runtime_id
| K_text | K_rationale

datatype sqlval = SNull | SText string | SInt int | STime datetime | STexts "string list"

type_synonym row = "column \<rightharpoonup> sqlval"

type_synonym params = "(column \<times> sqlval) list"

datatype coltype = Uuid | Text | Integer | Timestamptz | TextArray

definition optional_text :: "string option \<Rightarrow> sqlval" where
  "optional_text x = (case x of None \<Rightarrow> SNull | Some s \<Rightarrow> SText s)"

lemma optional_text_simps [simp]: "optional_text None = SNull" "optional_text (Some s) = SText s"
  by (simp_all add: optional_text_def)

text \<open>
  Reading a column of a result row: a missing column is a \<^verbatim>\<open>KeyError\<close>. The driver returns a
  column at the Python type of its SQL type, so the last case of each reader does not arise on
  the columns it is used for.
\<close>

definition get_text :: "row \<Rightarrow> column \<Rightarrow> exn + string" where
  "get_text r c = (case r c of None \<Rightarrow> Inl (KeyError ''column'')
     | Some (SText s) \<Rightarrow> Inr s | Some _ \<Rightarrow> Inl (TypeError ''column type''))"

text \<open>\<^verbatim>\<open>str(row[c])\<close> of a text column.\<close>

definition get_str :: "row \<Rightarrow> column \<Rightarrow> exn + string" where
  "get_str r c = (case r c of None \<Rightarrow> Inl (KeyError ''column'')
     | Some SNull \<Rightarrow> Inr ''None'' | Some (SText s) \<Rightarrow> Inr s | Some _ \<Rightarrow> Inl (TypeError ''column type''))"

definition get_optional_text :: "row \<Rightarrow> column \<Rightarrow> exn + string option" where
  "get_optional_text r c = (case r c of None \<Rightarrow> Inl (KeyError ''column'')
     | Some SNull \<Rightarrow> Inr None | Some (SText s) \<Rightarrow> Inr (Some s)
     | Some _ \<Rightarrow> Inl (TypeError ''column type''))"

definition get_int :: "row \<Rightarrow> column \<Rightarrow> exn + int" where
  "get_int r c = (case r c of None \<Rightarrow> Inl (KeyError ''column'')
     | Some (SInt n) \<Rightarrow> Inr n | Some _ \<Rightarrow> Inl (TypeError ''column type''))"

definition get_time :: "row \<Rightarrow> column \<Rightarrow> exn + datetime" where
  "get_time r c = (case r c of None \<Rightarrow> Inl (KeyError ''column'')
     | Some (STime t) \<Rightarrow> Inr t | Some _ \<Rightarrow> Inl (TypeError ''column type''))"

definition get_texts :: "row \<Rightarrow> column \<Rightarrow> exn + string list" where
  "get_texts r c = (case r c of None \<Rightarrow> Inl (KeyError ''column'')
     | Some (STexts ss) \<Rightarrow> Inr ss | Some _ \<Rightarrow> Inl (TypeError ''column type''))"

lemma get_text_Some [simp]: "r c = Some (SText s) \<Longrightarrow> get_text r c = Inr s"
  by (simp add: get_text_def)

lemma get_str_Some [simp]: "r c = Some (SText s) \<Longrightarrow> get_str r c = Inr s"
  by (simp add: get_str_def)

lemma get_optional_text_Some [simp]: "r c = Some (optional_text x) \<Longrightarrow> get_optional_text r c = Inr x"
  by (cases x) (simp_all add: get_optional_text_def)

lemma get_int_Some [simp]: "r c = Some (SInt n) \<Longrightarrow> get_int r c = Inr n"
  by (simp add: get_int_def)

lemma get_time_Some [simp]: "r c = Some (STime t) \<Longrightarrow> get_time r c = Inr t"
  by (simp add: get_time_def)

lemma get_texts_Some [simp]: "r c = Some (STexts ss) \<Longrightarrow> get_texts r c = Inr ss"
  by (simp add: get_texts_def)

section \<open>The schema\<close>

definition campaign_lifecycle_states :: "string list" where
  "campaign_lifecycle_states =
     [''DRAFT'', ''READY_FOR_AUTHORIZATION'', ''AUTHORIZED'', ''ACTIVE'', ''SUSPENDED'',
      ''COMPLETED'', ''CANCELLED'']"

definition run_lifecycle_states :: "string list" where
  "run_lifecycle_states =
     [''CREATED'', ''AUTHORIZED'', ''ACQUIRING'', ''NORMALIZING'', ''VALIDATING'',
      ''EXECUTION_COMPLETED'', ''FAILED'', ''CANCELLED'']"

definition evidence_package_lifecycle_states :: "string list" where
  "evidence_package_lifecycle_states = [''INITIALIZED'', ''COLLECTING'', ''SEALED'', ''INVALIDATED'']"

definition review_lifecycle_states :: "string list" where
  "review_lifecycle_states = [''ASSIGNED'', ''IN_PROGRESS'', ''COMPLETED'', ''CANCELLED'']"

definition review_dispositions :: "string list" where
  "review_dispositions = [''ACCEPTED'', ''REJECTED'', ''CHANGES_REQUESTED'', ''INCONCLUSIVE'']"

text \<open>Columns as (name, type, nullable).\<close>

definition transition_columns :: "(column \<times> coltype \<times> bool) list" where
  "transition_columns =
     [(K_sequence, Integer, False), (K_from_state, Text, True), (K_to_state, Text, False),
      (K_version, Integer, False), (K_actor, Text, False), (K_occurred_at, Timestamptz, False),
      (K_identity_governance_id, Text, True), (K_identity_runtime_id, Uuid, True),
      (K_correlation_id, Text, True), (K_reason, Text, True)]"

fun table_columns :: "table \<Rightarrow> (column \<times> coltype \<times> bool) list" where
  "table_columns T_campaign =
     [(K_runtime_id, Uuid, False), (K_governance_id, Text, False), (K_scope_statement, Text, False),
      (K_lifecycle_state, Text, False), (K_version, Integer, False),
      (K_next_transition_sequence, Integer, False)]"
| "table_columns T_campaign_transition = (K_campaign_runtime_id, Uuid, False) # transition_columns"
| "table_columns T_run =
     [(K_runtime_id, Uuid, False), (K_governance_id, Text, False), (K_campaign_id, Text, False),
      (K_lifecycle_state, Text, False), (K_version, Integer, False),
      (K_next_transition_sequence, Integer, False)]"
| "table_columns T_run_manifest =
     [(K_run_runtime_id, Uuid, False), (K_position, Integer, False), (K_manifest_id, Text, True),
      (K_recorded_at, Timestamptz, False), (K_source, Text, False),
      (K_acquisition_method, Text, True), (K_normalization_method, Text, True),
      (K_notes, TextArray, False)]"
| "table_columns T_run_transition = (K_run_runtime_id, Uuid, False) # transition_columns"
| "table_columns T_evidence_package =
     [(K_runtime_id, Uuid, False), (K_governance_id, Text, False), (K_run_id, Text, False),
      (K_lifecycle_state, Text, False), (K_version, Integer, False),
      (K_next_transition_sequence, Integer, False)]"
| "table_columns T_evidence_package_criterion_result =
     [(K_evidence_package_runtime_id, Uuid, False), (K_position, Integer, False),
      (K_criterion_id, Text, False), (K_recorded_at, Timestamptz, False),
      (K_result_label, Text, False), (K_summary, Text, True),
      (K_evidence_references, TextArray, False)]"
| "table_columns T_evidence_package_artifact_reference =
     [(K_evidence_package_runtime_id, Uuid, False), (K_position, Integer, False),
      (K_value, Text, False)]"
| "table_columns T_evidence_package_transition =
     (K_evidence_package_runtime_id, Uuid, False) # transition_columns"
| "table_columns T_review =
     [(K_runtime_id, Uuid, False), (K_governance_id, Text, False),
      (K_target_evidence_package_id, Text, False), (K_reviewer_reference, Text, False),
      (K_lifecycle_state, Text, False), (K_disposition, Text, True),
      (K_final_disposition_rationale, Text, True), (K_cancellation_reason, Text, True),
      (K_version, Integer, False), (K_next_transition_sequence, Integer, False)]"
| "table_columns T_review_finding =
     [(K_review_runtime_id, Uuid, False), (K_sequence, Integer, False), (K_text, Text, False),
      (K_rationale, Text, True), (K_evidence_references, TextArray, False)]"
| "table_columns T_review_transition = (K_review_runtime_id, Uuid, False) # transition_columns"

text \<open>CHECK constraints. An \<^verbatim>\<open>IN\<close> or comparison on the null value is not violated.\<close>

definition at_least :: "int \<Rightarrow> sqlval option \<Rightarrow> bool" where
  "at_least n v = (case v of Some (SInt m) \<Rightarrow> n \<le> m | _ \<Rightarrow> True)"

definition is_in :: "string list \<Rightarrow> sqlval option \<Rightarrow> bool" where
  "is_in ss v = (case v of Some (SText s) \<Rightarrow> s \<in> set ss | _ \<Rightarrow> True)"

definition transition_checks :: "string list \<Rightarrow> row \<Rightarrow> bool" where
  "transition_checks states r \<longleftrightarrow>
     at_least 1 (r K_sequence) \<and> at_least 0 (r K_version)
     \<and> is_in states (r K_from_state) \<and> is_in states (r K_to_state)"

definition root_checks :: "string list \<Rightarrow> row \<Rightarrow> bool" where
  "root_checks states r \<longleftrightarrow>
     at_least 0 (r K_version) \<and> at_least 1 (r K_next_transition_sequence)
     \<and> is_in states (r K_lifecycle_state)"

fun table_checks :: "table \<Rightarrow> row \<Rightarrow> bool" where
  "table_checks T_campaign r = root_checks campaign_lifecycle_states r"
| "table_checks T_campaign_transition r = transition_checks campaign_lifecycle_states r"
| "table_checks T_run r = root_checks run_lifecycle_states r"
| "table_checks T_run_manifest r = at_least 0 (r K_position)"
| "table_checks T_run_transition r = transition_checks run_lifecycle_states r"
| "table_checks T_evidence_package r = root_checks evidence_package_lifecycle_states r"
| "table_checks T_evidence_package_criterion_result r = at_least 0 (r K_position)"
| "table_checks T_evidence_package_artifact_reference r = at_least 0 (r K_position)"
| "table_checks T_evidence_package_transition r = transition_checks evidence_package_lifecycle_states r"
| "table_checks T_review r \<longleftrightarrow>
     root_checks review_lifecycle_states r \<and> is_in review_dispositions (r K_disposition)"
| "table_checks T_review_finding r = at_least 1 (r K_sequence)"
| "table_checks T_review_transition r = transition_checks review_lifecycle_states r"

text \<open>Primary keys, unique constraints and the partial unique index, by the names of the
  naming convention.\<close>

fun unique_keys :: "table \<Rightarrow> (string \<times> column list) list" where
  "unique_keys T_campaign =
     [(''pk_campaign'', [K_runtime_id]), (''uq_campaign_governance_id'', [K_governance_id])]"
| "unique_keys T_campaign_transition =
     [(''pk_campaign_transition'', [K_campaign_runtime_id, K_sequence])]"
| "unique_keys T_run =
     [(''pk_run'', [K_runtime_id]), (''uq_run_governance_id'', [K_governance_id])]"
| "unique_keys T_run_manifest =
     [(''pk_run_manifest'', [K_run_runtime_id, K_position]),
      (''ix_run_manifest_manifest_id_partial_unique'', [K_run_runtime_id, K_manifest_id])]"
| "unique_keys T_run_transition = [(''pk_run_transition'', [K_run_runtime_id, K_sequence])]"
| "unique_keys T_evidence_package =
     [(''pk_evidence_package'', [K_runtime_id]),
      (''uq_evidence_package_governance_id'', [K_governance_id])]"
| "unique_keys T_evidence_package_criterion_result =
     [(''pk_evidence_package_criterion_result'', [K_evidence_package_runtime_id, K_position]),
      (''uq_evidence_package_criterion_result_evidence_package_runtime_id'',
         [K_evidence_package_runtime_id, K_criterion_id])]"
| "unique_keys T_evidence_package_artifact_reference =
     [(''pk_evidence_package_artifact_reference'', [K_evidence_package_runtime_id, K_position]),
      (''uq_evidence_package_artifact_reference_evidence_package_runtime_id'',
         [K_evidence_package_runtime_id, K_value])]"
| "unique_keys T_evidence_package_transition =
     [(''pk_evidence_package_transition'', [K_evidence_package_runtime_id, K_sequence])]"
| "unique_keys T_review =
     [(''pk_review'', [K_runtime_id]), (''uq_review_governance_id'', [K_governance_id])]"
| "unique_keys T_review_finding = [(''pk_review_finding'', [K_review_runtime_id, K_sequence])]"
| "unique_keys T_review_transition = [(''pk_review_transition'', [K_review_runtime_id, K_sequence])]"

text \<open>Foreign keys as (column, referenced table, referenced column).\<close>

fun foreign_keys :: "table \<Rightarrow> (column \<times> table \<times> column) list" where
  "foreign_keys T_campaign = []"
| "foreign_keys T_campaign_transition = [(K_campaign_runtime_id, T_campaign, K_runtime_id)]"
| "foreign_keys T_run = [(K_campaign_id, T_campaign, K_governance_id)]"
| "foreign_keys T_run_manifest = [(K_run_runtime_id, T_run, K_runtime_id)]"
| "foreign_keys T_run_transition = [(K_run_runtime_id, T_run, K_runtime_id)]"
| "foreign_keys T_evidence_package = [(K_run_id, T_run, K_governance_id)]"
| "foreign_keys T_evidence_package_criterion_result =
     [(K_evidence_package_runtime_id, T_evidence_package, K_runtime_id)]"
| "foreign_keys T_evidence_package_artifact_reference =
     [(K_evidence_package_runtime_id, T_evidence_package, K_runtime_id)]"
| "foreign_keys T_evidence_package_transition =
     [(K_evidence_package_runtime_id, T_evidence_package, K_runtime_id)]"
| "foreign_keys T_review = [(K_target_evidence_package_id, T_evidence_package, K_governance_id)]"
| "foreign_keys T_review_finding = [(K_review_runtime_id, T_review, K_runtime_id)]"
| "foreign_keys T_review_transition = [(K_review_runtime_id, T_review, K_runtime_id)]"

definition all_tables :: "table list" where
  "all_tables =
     [T_campaign, T_campaign_transition, T_run, T_run_manifest, T_run_transition,
      T_evidence_package, T_evidence_package_criterion_result, T_evidence_package_artifact_reference,
      T_evidence_package_transition, T_review, T_review_finding, T_review_transition]"

lemma in_all_tables [simp]: "t \<in> set all_tables"
  by (cases t) (simp_all add: all_tables_def)

end
