(* ===== verification/Postgres.thy ===== *)
theory Postgres
  imports Sql
begin

text \<open>
  What the repositories rely on of PostgreSQL. The statements are the four forms the
  repositories send; \<open>schema_ok\<close> is the schema as a predicate on table contents (multisets of
  rows, since a table has no order); the locale \<open>postgres_server\<close> collects the documented
  behaviour of a server as laws about an unspecified server \<open>pg\<close> seen through \<open>tab\<close>, its
  tables. The laws speak only of statements that succeed: any statement may fail.
\<close>

section \<open>Statements\<close>

text \<open>
  \<open>Select cols t w ord\<close> is \<^verbatim>\<open>SELECT cols FROM t WHERE w ORDER BY ord\<close> (\<open>None\<close> for \<open>*\<close> and
  for no order), \<open>Update t sets w ret\<close> is \<^verbatim>\<open>UPDATE t SET sets WHERE w RETURNING ret\<close>. A
  condition is a conjunction of equalities between a column and a bound parameter.
\<close>

datatype sql =
  Select "column list option" table params "column option"
| Insert table params
| Update table params params "column list"
| Delete table params

fun typed :: "coltype \<Rightarrow> sqlval \<Rightarrow> bool" where
  "typed Uuid (SText s) = uuid4_canonical s"
| "typed Text (SText s) = True"
| "typed Integer (SInt n) = True"
| "typed Timestamptz (STime d) = True"
| "typed TextArray (STexts ss) = True"
| "typed _ SNull = True"
| "typed _ _ = False"

definition column_type :: "table \<Rightarrow> column \<Rightarrow> coltype option" where
  "column_type t c = map_option fst (map_of (table_columns t) c)"

definition params_typed :: "table \<Rightarrow> params \<Rightarrow> bool" where
  "params_typed t ps \<longleftrightarrow>
     (\<forall>(c, v) \<in> set ps. case column_type t c of None \<Rightarrow> False | Some ty \<Rightarrow> typed ty v)"

text \<open>
  The statements the laws speak of: parameters of the columns' types, and every column of the
  table given a value by an \<^verbatim>\<open>INSERT\<close>.
\<close>

fun stmt_ok :: "sql \<Rightarrow> bool" where
  "stmt_ok (Select cs t w ord) = params_typed t w"
| "stmt_ok (Insert t ps) \<longleftrightarrow>
     params_typed t ps \<and> distinct (map fst ps) \<and> set (map fst ps) = set (map fst (table_columns t))"
| "stmt_ok (Update t sets w ret) \<longleftrightarrow> params_typed t sets \<and> params_typed t w"
| "stmt_ok (Delete t w) = params_typed t w"

section \<open>Effects of statements on rows\<close>

definition matches :: "params \<Rightarrow> row \<Rightarrow> bool" where
  "matches w r \<longleftrightarrow> (\<forall>(c, v) \<in> set w. v \<noteq> SNull \<and> r c = Some v)"

definition project :: "column list option \<Rightarrow> row \<Rightarrow> row" where
  "project cs r = (case cs of None \<Rightarrow> r | Some cs' \<Rightarrow> r |` set cs')"

lemma project_None [simp]: "project None = (\<lambda>r. r)"
  by (rule ext) (simp add: project_def)

text \<open>
  A \<^verbatim>\<open>TIMESTAMPTZ\<close> column keeps the instant. A naive datetime is read in the session's time
  zone, which \<open>tz\<close> resolves.
\<close>

fun stored :: "(int \<Rightarrow> int) \<Rightarrow> sqlval \<Rightarrow> sqlval" where
  "stored tz (STime (Naive n)) = STime (Aware (tz n))"
| "stored tz v = v"

definition stored_row :: "(int \<Rightarrow> int) \<Rightarrow> params \<Rightarrow> row" where
  "stored_row tz ps = map_option (stored tz) \<circ> map_of ps"

fun int_value :: "sqlval option \<Rightarrow> int" where
  "int_value (Some (SInt n)) = n"
| "int_value _ = 0"

definition in_order :: "column option \<Rightarrow> row list \<Rightarrow> bool" where
  "in_order ord rs =
     (case ord of None \<Rightarrow> True | Some c \<Rightarrow> sorted (map (\<lambda>r. int_value (r c)) rs))"

section \<open>The schema as a predicate\<close>

type_synonym tables = "table \<Rightarrow> row multiset"

definition value_ok :: "coltype \<Rightarrow> bool \<Rightarrow> sqlval option \<Rightarrow> bool" where
  "value_ok ty nullable v =
     (case v of
        None \<Rightarrow> False
      | Some SNull \<Rightarrow> nullable
      | Some (SInt n) \<Rightarrow> ty = Integer \<and> - 2147483648 \<le> n \<and> n < 2147483648
      | Some x \<Rightarrow> typed ty x)"

definition row_ok :: "table \<Rightarrow> row \<Rightarrow> bool" where
  "row_ok t r \<longleftrightarrow>
     (\<forall>(c, ty, nullable) \<in> set (table_columns t). value_ok ty nullable (r c)) \<and> table_checks t r"

definition same_key :: "column list \<Rightarrow> row \<Rightarrow> row \<Rightarrow> bool" where
  "same_key ks r r' \<longleftrightarrow> (\<forall>c \<in> set ks. r c \<noteq> Some SNull \<and> r' c = r c)"

definition unique_ok :: "column list \<Rightarrow> row multiset \<Rightarrow> bool" where
  "unique_ok ks M \<longleftrightarrow> (\<forall>r \<in># M. size {#r' \<in># M. same_key ks r r'#} \<le> 1)"

definition reference_ok_in :: "tables \<Rightarrow> table \<Rightarrow> column \<times> table \<times> column \<Rightarrow> bool" where
  "reference_ok_in T t fk \<longleftrightarrow>
     (case fk of (c, t', c') \<Rightarrow> \<forall>r \<in># T t. r c = Some SNull \<or> (\<exists>p \<in># T t'. p c' = r c))"

definition schema_ok :: "tables \<Rightarrow> bool" where
  "schema_ok T \<longleftrightarrow>
     (\<forall>t \<in> set all_tables.
        (\<forall>r \<in># T t. row_ok t r)
        \<and> (\<forall>(name, ks) \<in> set (unique_keys t). unique_ok ks (T t))
        \<and> (\<forall>fk \<in> set (foreign_keys t). reference_ok_in T t fk))"

lemma schema_ok_row: "schema_ok T \<Longrightarrow> r \<in># T t \<Longrightarrow> row_ok t r"
  by (simp add: schema_ok_def)

lemma schema_ok_unique: "schema_ok T \<Longrightarrow> (n, ks) \<in> set (unique_keys t) \<Longrightarrow> unique_ok ks (T t)"
  by (fastforce simp: schema_ok_def)

lemma schema_ok_reference: "schema_ok T \<Longrightarrow> fk \<in> set (foreign_keys t) \<Longrightarrow> reference_ok_in T t fk"
  by (simp add: schema_ok_def)

text \<open>Two rows with the same value in a one-column key are one row.\<close>

lemma unique_ok_single:
  assumes "unique_ok [c] M" "r \<in># M" "r c = Some v" "v \<noteq> SNull"
  shows "{#r' \<in># M. r' c = Some v#} = {#r#}"
proof -
  have eq: "{#r' \<in># M. same_key [c] r r'#} = {#r' \<in># M. r' c = Some v#}"
    using assms(3,4) by (intro filter_mset_cong) (auto simp: same_key_def)
  have "size {#r' \<in># M. r' c = Some v#} \<le> 1"
    using assms(1,2) eq by (fastforce simp: unique_ok_def)
  moreover have "r \<in># {#r' \<in># M. r' c = Some v#}"
    using assms(2,3) by simp
  then obtain N where "{#r' \<in># M. r' c = Some v#} = add_mset r N"
    by (meson mset_add)
  ultimately show ?thesis by simp
qed

section \<open>A server\<close>

text \<open>
  \<open>pg_exec\<close> runs a statement inside a transaction, on the transaction's view of the database;
  \<open>pg_begin\<close> and \<open>pg_rollback\<close> answer whether connecting and rolling back fail;
  \<open>pg_commit before work\<close> tries to make \<open>work\<close> the durable database.
\<close>

record 'db postgres =
  pg_exec :: "'db \<Rightarrow> sql \<Rightarrow> (db_error + row list) \<times> 'db"
  pg_begin :: "'db \<Rightarrow> db_error option"
  pg_commit :: "'db \<Rightarrow> 'db \<Rightarrow> db_error option \<times> 'db"
  pg_rollback :: "'db \<Rightarrow> db_error option"

locale postgres_server =
  fixes pg :: "'db postgres"
    and tab :: "'db \<Rightarrow> tables"
    and tz :: "int \<Rightarrow> int"
  assumes select_effect:
      "stmt_ok (Select cs t w ord) \<Longrightarrow> pg_exec pg db (Select cs t w ord) = (Inr rows, db')
       \<Longrightarrow> tab db' = tab db
           \<and> (\<exists>full. mset full = {#r \<in># tab db t. matches w r#} \<and> in_order ord full
                \<and> rows = map (project cs) full)"
    and insert_effect:
      "stmt_ok (Insert t ps) \<Longrightarrow> pg_exec pg db (Insert t ps) = (Inr rows, db')
       \<Longrightarrow> tab db' = (tab db)(t := add_mset (stored_row tz ps) (tab db t))"
    and update_effect:
      "stmt_ok (Update t sets w ret) \<Longrightarrow> pg_exec pg db (Update t sets w ret) = (Inr rows, db')
       \<Longrightarrow> tab db' = (tab db)(t := image_mset
              (\<lambda>r. if matches w r then r ++ stored_row tz sets else r) (tab db t))
           \<and> length rows = size {#r \<in># tab db t. matches w r#}"
    and delete_effect:
      "stmt_ok (Delete t w) \<Longrightarrow> pg_exec pg db (Delete t w) = (Inr rows, db')
       \<Longrightarrow> tab db' = (tab db)(t := {#r \<in># tab db t. \<not> matches w r#})"
    and schema_kept:
      "stmt_ok s \<Longrightarrow> pg_exec pg db s = (Inr rows, db') \<Longrightarrow> schema_ok (tab db) \<Longrightarrow> schema_ok (tab db')"
    and unique_violation_real:
      "stmt_ok (Insert t ps) \<Longrightarrow> pg_exec pg db (Insert t ps) = (Inl (UniqueViolation name), db')
       \<Longrightarrow> \<exists>ks. (name, ks) \<in> set (unique_keys t)
             \<and> (\<exists>r \<in># tab db t. same_key ks (stored_row tz ps) r)"
    and commit_effect:
      "pg_commit pg before work = (outcome, after)
       \<Longrightarrow> after = work \<or> (outcome \<noteq> None \<and> after = before)"

section \<open>Executing a statement from Python\<close>

definition safe_message_for :: "db_error \<Rightarrow> string \<Rightarrow> string" where
  "safe_message_for err operation =
     (case err of
        PoolTimeout \<Rightarrow> ''Persistence '' @ operation @ '' timed out''
      | ServerUnreachable \<Rightarrow>
          ''Persistence '' @ operation @ '' failed because PostgreSQL is unreachable''
      | UniqueViolation _ \<Rightarrow> ''Persistence '' @ operation @ '' failed in the database driver''
      | DatabaseError \<Rightarrow> ''Persistence '' @ operation @ '' failed in the database driver''
      | LibraryError \<Rightarrow> ''Persistence '' @ operation @ '' failed''
      | OtherFailure \<Rightarrow> ''Persistence '' @ operation @ '' failed unexpectedly'')"

definition translate_persistence_error :: "db_error \<Rightarrow> string \<Rightarrow> exn" where
  "translate_persistence_error err operation =
     FoundationError PERSISTENCE (safe_message_for err operation) operation (Some err)"

definition execute :: "'db postgres \<Rightarrow> sql \<Rightarrow> ('db, row list) prog" where
  "execute pg s db =
     (case pg_exec pg db s of
        (Inl err, db') \<Rightarrow> (Inl (translate_persistence_error err ''execute''), db')
      | (Inr rows, db') \<Rightarrow> (Inr rows, db'))"

lemma execute_Inr [simp]: "execute pg s db = (Inr rows, db') \<longleftrightarrow> pg_exec pg db s = (Inr rows, db')"
  by (cases "pg_exec pg db s"; cases "fst (pg_exec pg db s)") (auto simp: execute_def)

lemma execute_Inl:
  "execute pg s db = (Inl e, db') \<longleftrightarrow>
     (\<exists>err. pg_exec pg db s = (Inl err, db') \<and> e = translate_persistence_error err ''execute'')"
  by (cases "pg_exec pg db s"; cases "fst (pg_exec pg db s)") (auto simp: execute_def)

text \<open>\<^verbatim>\<open>work.execute\<close> of a statement that is not one of the four forms above.\<close>

definition run_statement :: "('db \<Rightarrow> (db_error + 'a) \<times> 'db) \<Rightarrow> ('db, 'a) prog" where
  "run_statement f db =
     (case f db of
        (Inl err, db') \<Rightarrow> (Inl (translate_persistence_error err ''execute''), db')
      | (Inr x, db') \<Rightarrow> (Inr x, db'))"

lemma run_statement_Inr: "run_statement f db = (Inr x, db') \<longleftrightarrow> f db = (Inr x, db')"
  by (cases "f db"; cases "fst (f db)") (auto simp: run_statement_def)

lemma run_statement_Inl: "run_statement f db = (Inl e, db') \<Longrightarrow> \<exists>err. e = translate_persistence_error err ''execute''"
  by (cases "f db"; cases "fst (f db)") (auto simp: run_statement_def)

text \<open>\<^verbatim>\<open>unique_violation_constraint_name\<close> of \<^verbatim>\<open>postgres_repositories/_errors.py\<close>.\<close>

definition unique_violation_constraint_name :: "exn \<Rightarrow> string option" where
  "unique_violation_constraint_name e =
     (case e of FoundationError _ _ _ (Some (UniqueViolation name)) \<Rightarrow> Some name | _ \<Rightarrow> None)"

end
