(* ===== verification/Unit_Of_Work.thy ===== *)
theory Unit_Of_Work
  imports Postgres
begin

text \<open>
  \<^verbatim>\<open>shared/persistence/postgres.py\<close>: the persistence service and its health, the unit of work
  (commit on success, rollback on an exception), the composed scope that several repository
  calls join, and the poisoning of that scope by a failed call. The two context variables are
  fields of the execution context; a service is told from another by its number, as the code
  compares services by identity. The file proves that a unit of work and a composed
  transaction are all-or-nothing, and that a swallowed failure cannot be committed.
\<close>

section \<open>Health and the service\<close>

datatype health_state = H_PASS | H_FAIL | H_DEGRADED | H_UNKNOWN | H_NOT_APPLICABLE

record layer_health =
  lh_liveness :: health_state
  lh_readiness :: health_state
  lh_dependency :: health_state

definition health :: "health_state \<Rightarrow> health_state \<Rightarrow> layer_health" where
  "health readiness dependency =
     \<lparr>lh_liveness = H_PASS, lh_readiness = readiness, lh_dependency = dependency\<rparr>"

record service =
  sv_id :: nat
  sv_engine :: bool
  sv_initialized :: bool
  sv_closed :: bool
  sv_health :: layer_health

definition persistence_error :: "string \<Rightarrow> string \<Rightarrow> exn" where
  "persistence_error message operation = FoundationError PERSISTENCE message operation None"

definition new_service :: "nat \<Rightarrow> bool \<Rightarrow> service" where
  "new_service n engine =
     \<lparr>sv_id = n, sv_engine = engine, sv_initialized = False, sv_closed = False,
      sv_health = health H_UNKNOWN H_UNKNOWN\<rparr>"

text \<open>
  \<open>creating\<close> and \<open>probing\<close> are the outcomes of \<^verbatim>\<open>create_engine\<close> and of \<^verbatim>\<open>SELECT 1\<close>, the two
  calls that leave the program; \<open>None\<close> is success.
\<close>

definition service_initialize ::
    "db_error option \<Rightarrow> db_error option \<Rightarrow> service \<Rightarrow> (exn + unit) \<times> service" where
  "service_initialize creating probing sv =
     (if sv_initialized sv \<and> \<not> sv_closed sv then (Inr (), sv)
      else if sv_closed sv then
        (Inl (persistence_error ''Persistence service is closed'' ''initialize''), sv)
      else
        case (if sv_engine sv then None else creating) of
          Some err \<Rightarrow> (Inl (translate_persistence_error err ''initialize''),
                       sv\<lparr>sv_health := health H_FAIL H_FAIL\<rparr>)
        | None \<Rightarrow>
            (case probing of
               Some err \<Rightarrow> (Inl (translate_persistence_error err ''initialize''),
                            sv\<lparr>sv_engine := True, sv_health := health H_FAIL H_FAIL\<rparr>)
             | None \<Rightarrow> (Inr (), sv\<lparr>sv_engine := True, sv_initialized := True,
                                  sv_health := health H_PASS H_PASS\<rparr>)))"

definition service_check :: "db_error option \<Rightarrow> service \<Rightarrow> bool \<times> service" where
  "service_check probing sv =
     (if \<not> sv_initialized sv \<or> sv_closed sv then
        (False, sv\<lparr>sv_health := health (if \<not> sv_closed sv then H_UNKNOWN else H_FAIL) H_UNKNOWN\<rparr>)
      else
        case probing of
          Some _ \<Rightarrow> (False, sv\<lparr>sv_health := health H_FAIL H_FAIL\<rparr>)
        | None \<Rightarrow> (True, sv\<lparr>sv_health := health H_PASS H_PASS\<rparr>))"

definition service_close :: "service \<Rightarrow> service" where
  "service_close sv =
     (if sv_closed sv then sv
      else sv\<lparr>sv_closed := True, sv_initialized := False, sv_health := health H_FAIL H_UNKNOWN\<rparr>)"

definition ensure_can_work :: "service \<Rightarrow> string \<Rightarrow> exn + unit" where
  "ensure_can_work sv operation =
     rbind (ensure (\<not> sv_closed sv) (persistence_error ''Persistence service is closed'' operation))
     (\<lambda>_. ensure (sv_initialized sv)
            (persistence_error ''Persistence service is not initialized'' operation))"

definition can_work :: "service \<Rightarrow> bool" where
  "can_work sv \<longleftrightarrow> sv_initialized sv \<and> \<not> sv_closed sv"

lemma ensure_can_work_Inr [result_eqs]: "ensure_can_work sv operation = Inr u \<longleftrightarrow> can_work sv"
  by (auto simp: ensure_can_work_def can_work_def result_eqs)

lemma ensure_can_work_ready: "can_work sv \<Longrightarrow> ensure_can_work sv operation = Inr ()"
  by (simp add: ensure_can_work_Inr)

section \<open>One transaction\<close>

text \<open>
  \<^verbatim>\<open>PostgresUnitOfWork\<close> around a body: the body works on the transaction's view; leaving
  normally commits, leaving by an exception rolls back. The exception of a failed commit or
  rollback replaces the body's outcome.
\<close>

definition finish_commit :: "'db postgres \<Rightarrow> 'db \<Rightarrow> 'db \<Rightarrow> 'a \<Rightarrow> (exn + 'a) \<times> 'db" where
  "finish_commit pg db work x =
     (case pg_commit pg db work of
        (None, db') \<Rightarrow> (Inr x, db')
      | (Some err, db') \<Rightarrow> (Inl (translate_persistence_error err ''commit''), db'))"

definition finish_rollback :: "'db postgres \<Rightarrow> 'db \<Rightarrow> exn \<Rightarrow> (exn + 'a) \<times> 'db" where
  "finish_rollback pg db e =
     (case pg_rollback pg db of
        None \<Rightarrow> (Inl e, db)
      | Some err \<Rightarrow> (Inl (translate_persistence_error err ''rollback''), db))"

definition transact :: "'db postgres \<Rightarrow> ('db, 'a) prog \<Rightarrow> ('db, 'a) prog" where
  "transact pg body db =
     (case pg_begin pg db of
        Some err \<Rightarrow> (Inl (translate_persistence_error err ''begin''), db)
      | None \<Rightarrow>
          (case body db of
             (Inr x, work) \<Rightarrow> finish_commit pg db work x
           | (Inl e, work) \<Rightarrow> finish_rollback pg db e))"

section \<open>The execution context\<close>

record 'db composed_scope =
  sc_owner :: nat
  sc_work :: 'db
  sc_poisoned :: bool

record 'db exec_context =
  cx_db :: 'db
  cx_active :: bool
  cx_scope :: "'db composed_scope option"

definition nested_error :: exn where
  "nested_error = persistence_error ''Nested persistence units of work are not supported'' ''begin''"

definition own_unit_of_work :: "'db postgres \<Rightarrow> service \<Rightarrow> ('db, 'a) prog \<Rightarrow> ('db exec_context, 'a) prog" where
  "own_unit_of_work pg sv body cx =
     (case rbind (ensure_can_work sv ''begin'') (\<lambda>_. ensure (\<not> cx_active cx) nested_error) of
        Inl e \<Rightarrow> (Inl e, cx)
      | Inr _ \<Rightarrow> (case transact pg body (cx_db cx) of (r, db') \<Rightarrow> (r, cx\<lparr>cx_db := db'\<rparr>)))"

definition joined_unit_of_work ::
    "'db composed_scope \<Rightarrow> ('db, 'a) prog \<Rightarrow> ('db exec_context, 'a) prog" where
  "joined_unit_of_work sc body cx =
     (case body (sc_work sc) of
        (Inl e, work) \<Rightarrow>
          (Inl e, cx\<lparr>cx_scope := Some (sc\<lparr>sc_work := work, sc_poisoned := True\<rparr>)\<rparr>)
      | (Inr x, work) \<Rightarrow> (Inr x, cx\<lparr>cx_scope := Some (sc\<lparr>sc_work := work\<rparr>)\<rparr>))"

definition unit_of_work :: "'db postgres \<Rightarrow> service \<Rightarrow> ('db, 'a) prog \<Rightarrow> ('db exec_context, 'a) prog" where
  "unit_of_work pg sv body cx =
     (case ensure_can_work sv ''unit_of_work'' of
        Inl e \<Rightarrow> (Inl e, cx)
      | Inr _ \<Rightarrow>
          (case cx_scope cx of
             Some sc \<Rightarrow> if sc_owner sc = sv_id sv then joined_unit_of_work sc body cx
                        else own_unit_of_work pg sv body cx
           | None \<Rightarrow> own_unit_of_work pg sv body cx))"

text \<open>
  \<^verbatim>\<open>_ComposedTransaction\<close> and \<^verbatim>\<open>run_composed\<close>. The scope is published for the operations and
  withdrawn afterwards; \<open>scope_after\<close> reads the scope object the transaction holds.
\<close>

definition open_scope :: "service \<Rightarrow> 'db exec_context \<Rightarrow> 'db exec_context" where
  "open_scope sv cx =
     cx\<lparr>cx_active := True,
        cx_scope := Some \<lparr>sc_owner = sv_id sv, sc_work = cx_db cx, sc_poisoned = False\<rparr>\<rparr>"

definition scope_after :: "service \<Rightarrow> 'db exec_context \<Rightarrow> 'db exec_context \<Rightarrow> 'db composed_scope" where
  "scope_after sv cx cx' =
     (case cx_scope cx' of
        Some sc \<Rightarrow> sc
      | None \<Rightarrow> \<lparr>sc_owner = sv_id sv, sc_work = cx_db cx, sc_poisoned = True\<rparr>)"

definition poisoned_error :: exn where
  "poisoned_error =
     persistence_error ''Composed transaction poisoned by a failed operation'' ''run_composed''"

definition compose_guard :: "service \<Rightarrow> 'db exec_context \<Rightarrow> exn + unit" where
  "compose_guard sv cx =
     rbind (ensure_can_work sv ''run_composed'')
     (\<lambda>_. rbind (ensure_can_work sv ''begin'') (\<lambda>_. ensure (\<not> cx_active cx) nested_error))"

lemma compose_guard_Inr [result_eqs]: "compose_guard sv cx = Inr u \<longleftrightarrow> can_work sv \<and> \<not> cx_active cx"
  by (auto simp: compose_guard_def result_eqs)

definition run_composed ::
    "'db postgres \<Rightarrow> service \<Rightarrow> ('db exec_context, 'a) prog list \<Rightarrow> ('db exec_context, 'a list) prog" where
  "run_composed pg sv operations cx =
     (case compose_guard sv cx of
        Inl e \<Rightarrow> (Inl e, cx)
      | Inr _ \<Rightarrow>
          (case pg_begin pg (cx_db cx) of
             Some err \<Rightarrow> (Inl (translate_persistence_error err ''begin''), cx)
           | None \<Rightarrow>
               (case peach (\<lambda>operation. operation) operations (open_scope sv cx) of (results, cx') \<Rightarrow>
                  (let sc = scope_after sv cx cx';
                       finished =
                         (case results of
                            Inl e \<Rightarrow> finish_rollback pg (cx_db cx) e
                          | Inr xs \<Rightarrow> if sc_poisoned sc then finish_rollback pg (cx_db cx) poisoned_error
                                     else finish_commit pg (cx_db cx) (sc_work sc) xs)
                   in (case finished of (r, db') \<Rightarrow> (r, cx\<lparr>cx_db := db'\<rparr>))))))"

section \<open>All or nothing\<close>

definition commit_failure :: "exn \<Rightarrow> bool" where
  "commit_failure e \<longleftrightarrow> (\<exists>err. e = translate_persistence_error err ''commit'')"

definition idle :: "'db exec_context \<Rightarrow> bool" where
  "idle cx \<longleftrightarrow> \<not> cx_active cx \<and> cx_scope cx = None"

lemma unit_of_work_idle:
  assumes "can_work sv" "idle cx"
  shows "unit_of_work pg sv body cx
       = (case transact pg body (cx_db cx) of (r, db') \<Rightarrow> (r, cx\<lparr>cx_db := db'\<rparr>))"
  using assms by (simp add: unit_of_work_def own_unit_of_work_def ensure_can_work_ready idle_def)

lemma unit_of_work_joined:
  assumes "can_work sv" "cx_scope cx = Some sc" "sc_owner sc = sv_id sv"
  shows "unit_of_work pg sv body cx = joined_unit_of_work sc body cx"
  using assms by (simp add: unit_of_work_def ensure_can_work_ready)

lemma run_composed_ready:
  assumes "can_work sv" "\<not> cx_active cx"
  shows "run_composed pg sv operations cx =
     (case pg_begin pg (cx_db cx) of
        Some err \<Rightarrow> (Inl (translate_persistence_error err ''begin''), cx)
      | None \<Rightarrow>
          (case peach (\<lambda>operation. operation) operations (open_scope sv cx) of (results, cx') \<Rightarrow>
             (let sc = scope_after sv cx cx';
                  finished =
                    (case results of
                       Inl e \<Rightarrow> finish_rollback pg (cx_db cx) e
                     | Inr xs \<Rightarrow> if sc_poisoned sc then finish_rollback pg (cx_db cx) poisoned_error
                                else finish_commit pg (cx_db cx) (sc_work sc) xs)
              in (case finished of (r, db') \<Rightarrow> (r, cx\<lparr>cx_db := db'\<rparr>)))))"
  using assms by (simp add: run_composed_def compose_guard_def ensure_can_work_ready)

lemma finish_rollback_state: "finish_rollback pg db e = (r, db') \<Longrightarrow> db' = db \<and> (\<exists>e'. r = Inl e')"
  by (auto simp: finish_rollback_def split: option.splits)

context postgres_server
begin

text \<open>
  A unit of work against the durable state: success means the body succeeded and its view is
  the new state; an exception other than a failed commit leaves the state as it was, and a
  failed commit leaves the old or the complete new state.
\<close>

lemma finish_commit_Inr: "finish_commit pg db work x = (Inr y, db') \<Longrightarrow> y = x \<and> db' = work"
  using commit_effect[of db work "fst (pg_commit pg db work)" "snd (pg_commit pg db work)"]
  by (auto simp: finish_commit_def split: prod.splits option.splits)

lemma finish_commit_Inl:
  "finish_commit pg db work x = (Inl e, db') \<Longrightarrow> commit_failure e \<and> (db' = work \<or> db' = db)"
  using commit_effect[of db work "fst (pg_commit pg db work)" "snd (pg_commit pg db work)"]
  by (auto simp: finish_commit_def commit_failure_def split: prod.splits option.splits)

lemma transact_Inr: "transact pg body db = (Inr x, db') \<Longrightarrow> body db = (Inr x, db')"
  by (auto simp: transact_def split: option.splits prod.splits sum.splits
      dest: finish_commit_Inr finish_rollback_state)

lemma transact_Inl:
  "transact pg body db = (Inl e, db')
   \<Longrightarrow> db' = db \<or> commit_failure e \<and> (\<exists>x. body db = (Inr x, db'))"
  by (auto simp: transact_def split: option.splits prod.splits sum.splits
      dest: finish_commit_Inl finish_rollback_state)

lemma unit_of_work_Inr:
  assumes "can_work sv" "idle cx" "unit_of_work pg sv body cx = (Inr x, cx')"
  shows "\<exists>db'. body (cx_db cx) = (Inr x, db') \<and> cx' = cx\<lparr>cx_db := db'\<rparr>"
  using assms by (auto simp: unit_of_work_idle split: prod.splits dest: transact_Inr)

lemma unit_of_work_Inl:
  assumes "can_work sv" "idle cx" "unit_of_work pg sv body cx = (Inl e, cx')"
  shows "cx' = cx \<or> commit_failure e \<and> (\<exists>x db'. body (cx_db cx) = (Inr x, db') \<and> cx' = cx\<lparr>cx_db := db'\<rparr>)"
  using assms by (auto simp: unit_of_work_idle split: prod.splits dest: transact_Inl)

end

text \<open>The exception a transaction raises is the body's own or a \<^const>\<open>FoundationError\<close>.\<close>

lemma transact_Inl_cause:
  assumes "transact pg body db = (Inl e, db')"
  shows "(\<exists>w. body db = (Inl e, w)) \<or> (\<exists>err operation. e = translate_persistence_error err operation)"
  using assms
  by (auto simp: transact_def finish_commit_def finish_rollback_def
      split: option.splits prod.splits sum.splits)

section \<open>Composed transactions\<close>

text \<open>Joined units run their bodies one after the other on the scope's view.\<close>

lemma peach_joined:
  assumes "can_work sv" "cx_scope cx = Some sc" "sc_owner sc = sv_id sv"
  shows "peach (\<lambda>operation. operation) (map (unit_of_work pg sv) bodies) cx =
     (case peach (\<lambda>body. body) bodies (sc_work sc) of
        (Inr xs, w) \<Rightarrow> (Inr xs, cx\<lparr>cx_scope := Some (sc\<lparr>sc_work := w\<rparr>)\<rparr>)
      | (Inl e, w) \<Rightarrow> (Inl e, cx\<lparr>cx_scope := Some (sc\<lparr>sc_work := w, sc_poisoned := True\<rparr>)\<rparr>))"
  using assms
proof (induction bodies arbitrary: cx sc)
  case Nil
  then show ?case by (cases cx; cases sc) (simp add: preturn_def)
next
  case (Cons body bodies)
  show ?case
  proof (cases "body (sc_work sc)")
    case (Pair r w)
    show ?thesis
    proof (cases r)
      case (Inl e)
      with Pair Cons.prems show ?thesis
        by (simp add: pbind_def unit_of_work_joined joined_unit_of_work_def)
    next
      case (Inr x)
      let ?cx = "cx\<lparr>cx_scope := Some (sc\<lparr>sc_work := w\<rparr>)\<rparr>"
      have step: "unit_of_work pg sv body cx = (Inr x, ?cx)"
        using Pair Inr Cons.prems by (simp add: unit_of_work_joined joined_unit_of_work_def)
      obtain r2 w2 where rest: "peach (\<lambda>body. body) bodies w = (r2, w2)" by fastforce
      show ?thesis
        using Cons.IH[of ?cx "sc\<lparr>sc_work := w\<rparr>"] Cons.prems step Pair Inr
        by (cases cx; cases sc; cases r2) (simp_all add: pbind_def preturn_def rest)
    qed
  qed
qed

text \<open>Composing the units of one service is running their bodies in one transaction.\<close>

lemma run_composed_as_transaction:
  assumes "can_work sv" "\<not> cx_active cx"
  shows "run_composed pg sv (map (unit_of_work pg sv) bodies) cx
       = (case transact pg (peach (\<lambda>body. body) bodies) (cx_db cx) of (r, db') \<Rightarrow> (r, cx\<lparr>cx_db := db'\<rparr>))"
proof -
  let ?sc = "\<lparr>sc_owner = sv_id sv, sc_work = cx_db cx, sc_poisoned = False\<rparr>"
  have "peach (\<lambda>operation. operation) (map (unit_of_work pg sv) bodies) (open_scope sv cx) =
     (case peach (\<lambda>body. body) bodies (cx_db cx) of
        (Inr xs, w) \<Rightarrow> (Inr xs, (open_scope sv cx)\<lparr>cx_scope := Some (?sc\<lparr>sc_work := w\<rparr>)\<rparr>)
      | (Inl e, w) \<Rightarrow> (Inl e, (open_scope sv cx)\<lparr>cx_scope := Some (?sc\<lparr>sc_work := w, sc_poisoned := True\<rparr>)\<rparr>))"
    using peach_joined[of sv "open_scope sv cx" ?sc pg bodies] assms(1)
    by (simp add: open_scope_def)
  moreover obtain r w where body: "peach (\<lambda>body. body) bodies (cx_db cx) = (r, w)" by fastforce
  ultimately show ?thesis
    unfolding run_composed_ready[OF assms] transact_def
    by (cases r; cases "pg_begin pg (cx_db cx)")
      (simp_all add: body scope_after_def Let_def case_prod_beta)
qed

text \<open>An operation that catches whatever its unit of work raises and returns \<open>d\<close> instead.\<close>

definition swallow :: "'a \<Rightarrow> ('s, 'a) prog \<Rightarrow> ('s, 'a) prog" where
  "swallow d operation s =
     (case operation s of (Inl e, s') \<Rightarrow> (Inr d, s') | (Inr x, s') \<Rightarrow> (Inr x, s'))"

lemma peach_swallowed:
  assumes "can_work sv" "cx_scope cx = Some sc" "sc_owner sc = sv_id sv"
    "peach (\<lambda>operation. operation) (map (\<lambda>body. swallow d (unit_of_work pg sv body)) bodies) cx = (r, cx')"
  shows "\<exists>xs sc'. r = Inr xs \<and> cx_scope cx' = Some sc' \<and> (sc_poisoned sc \<longrightarrow> sc_poisoned sc')
     \<and> (\<not> sc_poisoned sc' \<longrightarrow> peach (\<lambda>body. body) bodies (sc_work sc) = (Inr xs, sc_work sc'))"
  using assms
proof (induction bodies arbitrary: cx sc r cx')
  case Nil
  then show ?case by simp
next
  case (Cons body bodies)
  obtain r1 w where body: "body (sc_work sc) = (r1, w)" by fastforce
  let ?sc = "sc\<lparr>sc_work := w, sc_poisoned := sc_poisoned sc \<or> (\<exists>e. r1 = Inl e)\<rparr>"
  let ?cx = "cx\<lparr>cx_scope := Some ?sc\<rparr>"
  let ?x = "case r1 of Inl e \<Rightarrow> d | Inr x \<Rightarrow> x"
  let ?tail = "peach (\<lambda>operation. operation) (map (\<lambda>body. swallow d (unit_of_work pg sv body)) bodies)"
  have step: "swallow d (unit_of_work pg sv body) cx = (Inr ?x, ?cx)"
    using Cons.prems(1-3) body
    by (cases r1; cases sc)
      (simp_all add: swallow_def unit_of_work_joined joined_unit_of_work_def)
  obtain r2 cx2 where tail: "?tail ?cx = (r2, cx2)" by fastforce
  from Cons.IH[OF Cons.prems(1) _ _ tail, of ?sc] Cons.prems(3)
  obtain xs sc' where ih: "r2 = Inr xs" "cx_scope cx2 = Some sc'"
      "sc_poisoned ?sc \<longrightarrow> sc_poisoned sc'"
      "\<not> sc_poisoned sc' \<longrightarrow> peach (\<lambda>body. body) bodies w = (Inr xs, sc_work sc')"
    by auto
  have "r = Inr (?x # xs)" "cx' = cx2"
    using Cons.prems(4) step tail ih(1) by (auto simp: pbind_def preturn_def)
  with ih body show ?case
    by (cases r1) (auto simp: pbind_def preturn_def)
qed

context postgres_server
begin

lemma run_composed_Inl:
  assumes "run_composed pg sv operations cx = (Inl e, cx')"
  shows "cx' = cx \<or> commit_failure e \<and> (\<exists>work. cx' = cx\<lparr>cx_db := work\<rparr>)"
proof (cases "can_work sv \<and> \<not> cx_active cx")
  case True
  then show ?thesis
    using assms
    by (auto simp: run_composed_ready Let_def split: option.splits prod.splits sum.splits if_splits
        dest!: finish_commit_Inl finish_rollback_state intro: exI[of _ "cx_db cx"])
next
  case False
  then obtain e' where "compose_guard sv cx = Inl e'"
    by (cases "compose_guard sv cx") (auto simp: compose_guard_Inr)
  with assms show ?thesis by (simp add: run_composed_def)
qed

lemma run_composed_swallowed:
  assumes "can_work sv" "\<not> cx_active cx"
    "run_composed pg sv (map (\<lambda>body. swallow d (unit_of_work pg sv body)) bodies) cx = (Inr xs, cx')"
  shows "peach (\<lambda>body. body) bodies (cx_db cx) = (Inr xs, cx_db cx')"
proof -
  let ?ops = "map (\<lambda>body. swallow d (unit_of_work pg sv body)) bodies"
  obtain r cx2 where run: "peach (\<lambda>operation. operation) ?ops (open_scope sv cx) = (r, cx2)"
    by fastforce
  from peach_swallowed[OF assms(1) _ _ run]
  obtain ys sc' where ys: "r = Inr ys" "cx_scope cx2 = Some sc'"
      "\<not> sc_poisoned sc' \<longrightarrow> peach (\<lambda>body. body) bodies (cx_db cx) = (Inr ys, sc_work sc')"
    by (auto simp: open_scope_def)
  show ?thesis
    using assms(3) run ys
    unfolding run_composed_ready[OF assms(1,2)]
    by (auto simp: scope_after_def Let_def split: option.splits if_splits prod.splits
        dest!: finish_commit_Inr finish_rollback_state)
qed

end

end
