(* ===== verification/Table_Engine.thy ===== *)
theory Table_Engine
  imports Unit_Of_Work
begin

text \<open>
  A server that keeps its tables as lists of rows, never loses its connection and refuses a
  change exactly when the schema does. It shows the laws of \<open>postgres_server\<close> can hold, and
  it is the server the concrete examples run on. Naive datetimes are read as UTC.
\<close>

type_synonym table_db = "table \<Rightarrow> row list"

definition contents :: "table_db \<Rightarrow> tables" where
  "contents db = (\<lambda>t. mset (db t))"

definition utc :: "int \<Rightarrow> int" where
  "utc n = n"

definition blame :: "table_db \<Rightarrow> table \<Rightarrow> row \<Rightarrow> db_error" where
  "blame db t r =
     (case find (\<lambda>(n, ks). \<exists>r' \<in> set (db t). same_key ks r r') (unique_keys t) of
        Some (n, _) \<Rightarrow> UniqueViolation n
      | None \<Rightarrow> DatabaseError)"

definition change :: "table_db \<Rightarrow> table_db \<Rightarrow> db_error \<Rightarrow> row list \<Rightarrow> (db_error + row list) \<times> table_db" where
  "change db db' err rows = (if schema_ok (contents db') then (Inr rows, db') else (Inl err, db))"

fun table_exec :: "table_db \<Rightarrow> sql \<Rightarrow> (db_error + row list) \<times> table_db" where
  "table_exec db (Select cs t w ord) =
     (let found = filter (matches w) (db t);
          ordered = (case ord of None \<Rightarrow> found | Some c \<Rightarrow> sort_key (\<lambda>r. int_value (r c)) found)
      in (Inr (map (project cs) ordered), db))"
| "table_exec db (Insert t ps) =
     (let r = stored_row utc ps in change db (db(t := r # db t)) (blame db t r) [])"
| "table_exec db (Update t sets w ret) =
     (let upd = (\<lambda>r. if matches w r then r ++ stored_row utc sets else r)
      in change db (db(t := map upd (db t))) DatabaseError
           (map (\<lambda>r. project (Some ret) (r ++ stored_row utc sets)) (filter (matches w) (db t))))"
| "table_exec db (Delete t w) =
     change db (db(t := filter (\<lambda>r. \<not> matches w r) (db t))) DatabaseError []"

definition table_server :: "table_db postgres" where
  "table_server =
     \<lparr>pg_exec = table_exec, pg_begin = (\<lambda>_. None), pg_commit = (\<lambda>_ work. (None, work)),
      pg_rollback = (\<lambda>_. None)\<rparr>"

definition empty_db :: table_db where
  "empty_db = (\<lambda>_. [])"

lemma contents_update: "contents (db(t := rs)) = (contents db)(t := mset rs)"
  by (rule ext) (simp add: contents_def)

lemma change_Inr:
  "change db db' err rows = (Inr rows', db'') \<longleftrightarrow>
     schema_ok (contents db') \<and> rows' = rows \<and> db'' = db'"
  by (auto simp: change_def)

lemma blame_unique:
  assumes "blame db t r = UniqueViolation name"
  shows "\<exists>ks. (name, ks) \<in> set (unique_keys t) \<and> (\<exists>r' \<in> set (db t). same_key ks r r')"
proof -
  obtain p where p: "find (\<lambda>(n, ks). \<exists>r' \<in> set (db t). same_key ks r r') (unique_keys t) = Some p"
    and "fst p = name"
    using assms by (auto simp: blame_def split: option.splits)
  then show ?thesis
    by (cases p) (auto simp: find_Some_iff in_set_conv_nth; metis nth_mem)
qed

interpretation table_db: postgres_server table_server contents utc
proof unfold_locales
  fix cs t w ord db rows db'
  assume "pg_exec table_server db (Select cs t w ord) = (Inr rows, db')"
  then show "contents db' = contents db
      \<and> (\<exists>full. mset full = {#r \<in># contents db t. matches w r#} \<and> in_order ord full
           \<and> rows = map (project cs) full)"
    by (auto simp: table_server_def Let_def contents_def in_order_def mset_filter
        split: option.splits intro!: exI)
next
  fix t ps db rows db'
  assume "pg_exec table_server db (Insert t ps) = (Inr rows, db')"
  then show "contents db' = (contents db)(t := add_mset (stored_row utc ps) (contents db t))"
    by (simp add: table_server_def Let_def change_Inr contents_update) (simp add: contents_def)
next
  fix t sets w ret db rows db'
  assume "pg_exec table_server db (Update t sets w ret) = (Inr rows, db')"
  then show "contents db' = (contents db)(t := image_mset
        (\<lambda>r. if matches w r then r ++ stored_row utc sets else r) (contents db t))
      \<and> length rows = size {#r \<in># contents db t. matches w r#}"
    by (auto simp: table_server_def Let_def change_Inr contents_update)
      (simp_all add: contents_def flip: mset_filter)
next
  fix t w db rows db'
  assume "pg_exec table_server db (Delete t w) = (Inr rows, db')"
  then show "contents db' = (contents db)(t := {#r \<in># contents db t. \<not> matches w r#})"
    by (simp add: table_server_def change_Inr contents_update) (simp add: contents_def mset_filter)
next
  fix s db rows db'
  assume "pg_exec table_server db s = (Inr rows, db')" "schema_ok (contents db)"
  then show "schema_ok (contents db')"
    by (cases s) (auto simp: table_server_def Let_def change_Inr)
next
  fix t ps name db db'
  assume "pg_exec table_server db (Insert t ps) = (Inl (UniqueViolation name), db')"
  then have "blame db t (stored_row utc ps) = UniqueViolation name"
    by (auto simp: table_server_def Let_def change_def split: if_splits)
  from blame_unique[OF this]
  show "\<exists>ks. (name, ks) \<in> set (unique_keys t)
      \<and> (\<exists>r \<in># contents db t. same_key ks (stored_row utc ps) r)"
    by (auto simp: contents_def)
next
  fix before work outcome after
  assume "pg_commit table_server before work = (outcome, after)"
  then show "after = work \<or> (outcome \<noteq> None \<and> after = before)"
    by (simp add: table_server_def)
qed

lemma empty_db_schema_ok: "schema_ok (contents empty_db)"
  by (simp add: schema_ok_def contents_def empty_db_def unique_ok_def reference_ok_in_def
      split: prod.splits)

text \<open>A ready service over the table server.\<close>

definition ready_service :: service where
  "ready_service = \<lparr>sv_id = 1, sv_engine = True, sv_initialized = True, sv_closed = False,
     sv_health = health H_PASS H_PASS\<rparr>"

lemma ready_service_can_work: "can_work ready_service"
  by (simp add: ready_service_def can_work_def)

end
