(* ===== verification/Ledger_Repository.thy ===== *)
theory Ledger_Repository
  imports Position_Ledger Table_Engine
begin

text \<open>
  \<^verbatim>\<open>shared/persistence/postgres_repositories/operator_position_event_repository.py\<close> and the table of
  \<^verbatim>\<open>migrations/versions/b7e1c4a95d38_create_m076_operator_position_event_schema.py\<close>: the rows, the
  atomic validate-and-append under the lock of a position, and the two handlers on it. What
  PostgreSQL promises of the four statements is the locale \<open>ledger_server\<close>. The file proves that
  prices survive storage, that an append is all or nothing and keeps the stored ledger coherent,
  and that interleaved writers cannot make it incoherent.
\<close>

section \<open>Rows\<close>

fun event_kind_value :: "position_event_kind \<Rightarrow> string" where
  "event_kind_value OPENED = ''OPENED''"
| "event_kind_value REDUCED = ''REDUCED''"
| "event_kind_value CLOSED = ''CLOSED''"

definition event_kind_of :: "string \<Rightarrow> exn + position_event_kind" where
  "event_kind_of s =
     (case find (\<lambda>k. event_kind_value k = s) [OPENED, REDUCED, CLOSED] of
        Some k \<Rightarrow> Inr k
      | None \<Rightarrow> Inl (ValueError (s @ '' is not a valid OperatorPositionEventKind'')))"

record event_row =
  er_runtime_id :: string
  er_governance_id :: string
  er_position :: string
  er_symbol :: string
  er_kind :: string
  er_quantity :: int
  er_price :: decimal
  er_event_timestamp :: datetime
  er_recorded_at :: datetime
  er_plan :: "string option"
  er_note :: "string option"

definition event_params :: "position_event \<Rightarrow> event_row" where
  "event_params e =
     \<lparr>er_runtime_id = pe_runtime_id e, er_governance_id = pe_governance_id e,
      er_position = pe_position e, er_symbol = pe_symbol e, er_kind = event_kind_value (pe_kind e),
      er_quantity = pe_quantity e, er_price = pe_price e,
      er_event_timestamp = pe_event_timestamp e, er_recorded_at = pe_recorded_at e,
      er_plan = pe_plan e, er_note = pe_note e\<rparr>"

definition row_to_event :: "event_row \<Rightarrow> exn + position_event" where
  "row_to_event r =
     rbind (event_kind_of (er_kind r))
     (\<lambda>k. make_event
        \<lparr>pe_governance_id = er_governance_id r, pe_runtime_id = er_runtime_id r,
         pe_position = er_position r, pe_symbol = er_symbol r, pe_kind = k,
         pe_quantity = er_quantity r, pe_price = er_price r,
         pe_event_timestamp = er_event_timestamp r, pe_recorded_at = er_recorded_at r,
         pe_plan = er_plan r, pe_note = er_note r\<rparr>)"

text \<open>
  A \<^verbatim>\<open>NUMERIC(20, 6)\<close> column gives every number back with six decimal places; a number with at
  most six places is not rounded.
\<close>

fun numeric_20_6 :: "decimal \<Rightarrow> decimal" where
  "numeric_20_6 (Dec s c e) = Dec s (c * pow10 (e + 6)) (- 6)"
| "numeric_20_6 x = x"

definition stored_event_row :: "event_row \<Rightarrow> event_row" where
  "stored_event_row r = r\<lparr>er_price := numeric_20_6 (er_price r)\<rparr>"

definition as_stored :: "position_event \<Rightarrow> position_event" where
  "as_stored e = e\<lparr>pe_price := numeric_20_6 (pe_price e)\<rparr>"

section \<open>Statements and operations\<close>

record 'db event_table =
  et_lock :: "string \<Rightarrow> 'db \<Rightarrow> (db_error + unit) \<times> 'db"
  et_select :: "'db \<Rightarrow> (db_error + event_row list) \<times> 'db"
  et_insert :: "event_row \<Rightarrow> 'db \<Rightarrow> (db_error + unit) \<times> 'db"

definition root_unique_constraints :: "string list" where
  "root_unique_constraints =
     [''pk_operator_position_event'', ''uq_operator_position_event_governance_id'',
      ''operator_position_event_pkey'']"

definition event_already_exists :: "string \<Rightarrow> exn \<Rightarrow> exn" where
  "event_already_exists name e =
     (case unique_violation_constraint_name e of
        Some c \<Rightarrow> (if c \<in> set root_unique_constraints
                   then AlreadyExistsFor ''OperatorAssertedPositionEvent'' name else e)
      | None \<Rightarrow> e)"

definition insert_event :: "'db event_table \<Rightarrow> position_event \<Rightarrow> ('db, unit) prog" where
  "insert_event et e =
     pcatch (event_already_exists (pe_governance_id e)) (run_statement (et_insert et (event_params e)))"

definition read_events :: "'db event_table \<Rightarrow> ('db, position_event list) prog" where
  "read_events et = pbind (run_statement (et_select et)) (\<lambda>rows. plift (rmap row_to_event rows))"

definition lock_key :: "position_event \<Rightarrow> string" where
  "lock_key e = ''operator_position_event:'' @ pe_position e"

definition append_validated_body :: "'db event_table \<Rightarrow> position_event \<Rightarrow> ('db, position_event) prog" where
  "append_validated_body et candidate =
     pbind (run_statement (et_lock et (lock_key candidate)))
     (\<lambda>_. pbind (read_events et)
     (\<lambda>existing. pbind (plift (append_event existing candidate))
     (\<lambda>persisted. pbind (insert_event et persisted)
     (\<lambda>_. preturn persisted))))"

definition append_validated ::
    "'db postgres \<Rightarrow> 'db event_table \<Rightarrow> service \<Rightarrow> position_event \<Rightarrow> ('db exec_context, position_event) prog" where
  "append_validated pg et sv candidate = unit_of_work pg sv (append_validated_body et candidate)"

definition ledger_list_all :: "'db postgres \<Rightarrow> 'db event_table \<Rightarrow> service \<Rightarrow> ('db exec_context, position_event list) prog" where
  "ledger_list_all pg et sv = unit_of_work pg sv (read_events et)"

text \<open>
  The handlers \<^verbatim>\<open>RecordOperatorPositionEventHandler\<close> and \<^verbatim>\<open>GetOperatorPositionStateHandler\<close>; the
  event of the command is built from primitives by \<^verbatim>\<open>build_operator_position_event\<close>.
\<close>

definition build_operator_position_event :: "event_row \<Rightarrow> exn + position_event" where
  "build_operator_position_event = row_to_event"

definition record_event :: "'db postgres \<Rightarrow> 'db event_table \<Rightarrow> service \<Rightarrow> position_event \<Rightarrow> ('db exec_context, position_event) prog" where
  "record_event pg et sv e = append_validated pg et sv e"

definition get_position_state ::
    "'db postgres \<Rightarrow> 'db event_table \<Rightarrow> service \<Rightarrow> datetime \<Rightarrow> ('db exec_context, derived_position_state) prog" where
  "get_position_state pg et sv as_of =
     pbind (ledger_list_all pg et sv) (\<lambda>es. plift (derive_position_state es as_of))"

section \<open>Storage keeps events\<close>

lemma ndigits_scaled: "0 < c \<Longrightarrow> ndigits (c * 10 ^ k) = ndigits c + int k"
proof (induction k)
  case (Suc k)
  then have "0 < c * 10 ^ k" by simp
  then have "ndigits (c * 10 ^ Suc k) = 1 + ndigits (c * 10 ^ Suc k div 10)"
    by (subst ndigits.simps) auto
  with Suc show ?case by simp
qed simp

lemma event_kind_round_trip [simp]: "event_kind_of (event_kind_value k) = Inr k"
  by (cases k) (simp_all add: event_kind_of_def)

lemma less_zero_dec: "dec_less (dec_of_int 0) (Dec s c e) \<longleftrightarrow> 0 < signed s c"
proof -
  have "0 < signed s c * pow10 k \<longleftrightarrow> 0 < signed s c" for k
    using pow10_pos[of k] by (metis zero_less_mult_pos2 mult_pos_pos)
  then show ?thesis by (simp add: dec_less_def compare_at_def dec_of_int_def signed_def[of _ 0] Let_def)
qed

text \<open>
  A price that passed the constructor's checks is stored without loss: read back it is equal in
  value and passes the checks again.
\<close>

lemma numeric_price_ok:
  assumes "price_checks x = Inr ()" "dec_ok x"
  shows "price_checks (numeric_20_6 x) = Inr () \<and> dec_ok (numeric_20_6 x) \<and> dec_equal (numeric_20_6 x) x"
proof (cases x)
  case (Dec s c e)
  with assms have e: "0 < signed s c" "- e \<le> 6" "max 0 (ndigits c + e) \<le> 14" "0 \<le> c"
    by (auto simp: result_eqs less_zero_dec asserted_price_max_decimal_places_def
        asserted_price_max_integer_digits_def)
  then have c: "\<not> s" "0 < c" by (auto simp: signed_def split: if_splits)
  from c e(2) have "ndigits (c * pow10 (e + 6)) = ndigits c + (e + 6)"
    by (simp add: pow10_def ndigits_scaled)
  moreover from c have "0 < c * pow10 (e + 6)" by simp
  moreover from e(2) have "pow10 (e + 6) = pow10 (e - min (- 6) e)" "pow10 (- 6 - min (- 6) e) = 1"
    by (simp_all add: min_def)
  ultimately show ?thesis
    using Dec e(3) c
    by (simp add: result_eqs less_zero_dec signed_def asserted_price_max_decimal_places_def
        asserted_price_max_integer_digits_def dec_equal_def compare_at_def Let_def)
qed (use assms in auto)

lemma as_stored_ok:
  assumes "event_ok e"
  shows "event_ok (as_stored e)" "similar e (as_stored e)"
  using assms numeric_price_ok[of "pe_price e"]
  by (auto simp: event_ok_def event_checks_def as_stored_def similar_def result_eqs)

lemma stored_params: "stored_event_row (event_params e) = event_params (as_stored e)"
  by (simp add: stored_event_row_def event_params_def as_stored_def)

lemma row_to_event_params: "event_ok e \<Longrightarrow> row_to_event (event_params e) = Inr e"
  using make_event_ok[of e] by (cases e) (simp add: row_to_event_def event_params_def)

text \<open>
  C20. An event that passed its constructor is written and read back as the same event: nothing but
  the exponent of the price changes, and its value does not.
\<close>

theorem event_storage_round_trip:
  assumes "event_ok e"
  shows "row_to_event (stored_event_row (event_params e)) = Inr (as_stored e)
     \<and> dec_equal (pe_price (as_stored e)) (pe_price e) \<and> as_stored e\<lparr>pe_price := pe_price e\<rparr> = e"
proof -
  have "row_to_event (event_params (as_stored e)) = Inr (as_stored e)"
    using as_stored_ok(1)[OF assms] by (rule row_to_event_params)
  with assms numeric_price_ok[of "pe_price e"] show ?thesis
    by (auto simp: stored_params event_ok_def event_checks_def as_stored_def result_eqs)
qed

section \<open>The server\<close>

locale ledger_server = postgres_server pg tab tz
  for pg :: "'db postgres" and tab :: "'db \<Rightarrow> tables" and tz :: "int \<Rightarrow> int" +
  fixes et :: "'db event_table"
    and rows :: "'db \<Rightarrow> event_row multiset"
  assumes lock_effect: "et_lock et k db = (Inr u, db') \<Longrightarrow> rows db' = rows db"
    and select_events: "et_select et db = (Inr rs, db') \<Longrightarrow> mset rs = rows db \<and> rows db' = rows db"
    and insert_events:
      "et_insert et r db = (Inr u, db') \<Longrightarrow> rows db' = add_mset (stored_event_row r) (rows db)"

definition stores :: "event_row multiset \<Rightarrow> position_event list \<Rightarrow> bool" where
  "stores M es \<longleftrightarrow> M = mset (map event_params es) \<and> ledger_ok es"

lemma ledger_ok_perm:
  assumes "mset es = mset es'" "ledger_ok es"
  shows "ledger_ok es'"
proof -
  have distinct: "distinct (map pe_governance_id es')"
    using assms by (metis ledger_ok_def mset_map mset_eq_imp_distinct_iff)
  have "folds (same_position es' e) \<longleftrightarrow> folds (same_position es e)" for e
  proof -
    have "mset (same_position es' e) = mset (same_position es e)"
      using assms(1) by (simp add: same_position_def mset_filter)
    moreover have "distinct (map pe_governance_id (same_position es' e))"
      using distinct by (auto simp: same_position_def distinct_map intro: inj_on_subset)
    ultimately show ?thesis by (simp add: folds_def in_time_order_cong)
  qed
  with assms distinct show ?thesis
    by (auto simp: ledger_ok_def coherent_def dest: mset_eq_setD)
qed

lemma event_params_inj: "event_params e = event_params e' \<longleftrightarrow> e = e'"
proof -
  have "event_kind_value k = event_kind_value k' \<longleftrightarrow> k = k'" for k k' by (cases k; cases k') auto
  then show ?thesis by (cases e; cases e') (auto simp: event_params_def)
qed

text \<open>Reading a stored ledger gives its events, in some order.\<close>

lemma read_stored:
  assumes "mset rs = mset (map event_params es)" "ledger_ok es" "rmap row_to_event rs = r"
  shows "\<exists>es'. r = Inr es' \<and> mset es' = mset es \<and> ledger_ok es'"
proof -
  define unrow where "unrow r = projr (row_to_event r)" for r
  have unrow: "unrow (event_params e) = e" if "e \<in> set es" for e
    using assms(2) that by (simp add: unrow_def row_to_event_params ledger_ok_def)
  have "set rs = event_params ` set es" using mset_eq_setD[OF assms(1)] by simp
  then have rs: "rs = map event_params (map unrow rs)" using unrow by (auto intro!: map_idI[symmetric])
  have "mset (map unrow rs) = image_mset unrow (mset (map event_params es))"
    unfolding assms(1)[symmetric] by simp
  also have "\<dots> = image_mset (\<lambda>e. e) (mset es)"
    by (simp add: multiset.map_comp comp_def flip: mset_map)
      (intro arg_cong[of _ _ mset] map_idI unrow)
  finally have "mset (map unrow rs) = mset es" by simp
  with rs obtain es' where es': "rs = map event_params es'" "mset es' = mset es" by blast
  then have "ledger_ok es'" using ledger_ok_perm[of es es'] assms(2) by simp
  moreover from this have "rmap row_to_event rs = Inr es'"
    unfolding es'(1) by (intro rmap_map_inverse row_to_event_params) (simp add: ledger_ok_def)
  ultimately show ?thesis using es'(2) assms(3) by auto
qed

context ledger_server
begin

lemma read_events_stored:
  assumes "stores (rows db) es" "read_events et db = (r, db')"
  shows "(\<exists>es'. r = Inr es' \<and> stores (rows db) es' \<and> mset es' = mset es \<and> rows db' = rows db)
     \<or> (\<exists>err. r = Inl (translate_persistence_error err ''execute''))"
proof (cases "et_select et db")
  case (Pair x db1)
  show ?thesis
  proof (cases x)
    case (Inr rs)
    with select_events Pair assms(1) have "mset rs = mset (map event_params es)" "rows db1 = rows db"
      by (auto simp: stores_def)
    with read_stored[OF this(1)] assms Pair Inr show ?thesis
      by (auto simp: read_events_def pbind_def run_statement_def stores_def)
  qed (use Pair assms(2) in \<open>auto simp: read_events_def pbind_def run_statement_def\<close>)
qed

lemma append_body_Inr:
  assumes "stores (rows db) es" "event_ok c" "append_validated_body et c db = (Inr p, db')"
  shows "rows db' = add_mset (event_params (as_stored p)) (rows db) \<and> stores (rows db') (es @ [as_stored p])"
proof -
  from assms(3) obtain db1 db2 es' where steps: "et_lock et (lock_key c) db = (Inr (), db1)"
    "read_events et db1 = (Inr es', db2)" "append_event es' c = Inr p"
    "et_insert et (event_params p) db2 = (Inr (), db')"
    by (auto simp: append_validated_body_def pbind_Inr_iff run_statement_Inr insert_event_def)
  from lock_effect[OF steps(1)] assms(1) have "stores (rows db1) es" by simp
  from read_events_stored[OF this steps(2)] lock_effect[OF steps(1)] have es': "mset es' = mset es" "ledger_ok es'"
    "rows db2 = rows db" by (auto simp: stores_def)
  from insert_events[OF steps(4)] es'(3) have rows': "rows db' = add_mset (event_params (as_stored p)) (rows db)"
    by (simp add: stored_params)
  have "event_ok p" "ledger_ok (es' @ [p])"
    using append_event_exact[OF es'(2) assms(2)] steps(3) by (auto simp: ledger_ok_def)
  then have "ledger_ok (es' @ [as_stored p])"
    using ledger_ok_similar[OF es'(2) _ as_stored_ok(1,2)] by blast
  then have "ledger_ok (es @ [as_stored p])"
    using es'(1) ledger_ok_perm[of "es' @ [as_stored p]" "es @ [as_stored p]"] by simp
  with rows' assms(1) show ?thesis by (simp add: stores_def)
qed

text \<open>What an append that raises may raise, and when the ledger itself is the reason.\<close>

lemma append_body_Inl:
  assumes "stores (rows db) es" "event_ok c" "append_validated_body et c db = (Inl (LedgerRejectionError reason), db')"
  shows "\<not> ledger_ok (es @ [c])"
proof -
  have no: "LedgerRejectionError reason \<noteq> translate_persistence_error err operation" for err operation
    by (simp add: translate_persistence_error_def)
  have insert: "insert_event et p db2 \<noteq> (Inl (LedgerRejectionError reason), db')" for p db2
  proof
    assume "insert_event et p db2 = (Inl (LedgerRejectionError reason), db')"
    then obtain e where "run_statement (et_insert et (event_params p)) db2 = (Inl e, db')"
      "LedgerRejectionError reason = event_already_exists (pe_governance_id p) e"
      by (auto simp: insert_event_def pcatch_def rcatch_def split: prod.splits sum.splits)
    with run_statement_Inl show False
      by (fastforce simp: event_already_exists_def translate_persistence_error_def split: option.splits if_splits)
  qed
  have "\<not> (run_statement (et_lock et k) db = (Inl (LedgerRejectionError reason), db'))" for k
    using no run_statement_Inl by metis
  with assms(3) insert consider (read) db1 where "et_lock et (lock_key c) db = (Inr (), db1)"
      "read_events et db1 = (Inl (LedgerRejectionError reason), db')"
    | (append) db1 db2 es' where "et_lock et (lock_key c) db = (Inr (), db1)"
      "read_events et db1 = (Inr es', db2)" "append_event es' c = Inl (LedgerRejectionError reason)"
    by (auto simp: append_validated_body_def pbind_Inl_iff run_statement_Inr)
  then show ?thesis
  proof cases
    case read
    from lock_effect[OF read(1)] assms(1) have "stores (rows db1) es" by simp
    from read_events_stored[OF this read(2)] no show ?thesis by auto
  next
    case append
    from lock_effect[OF append(1)] assms(1) have "stores (rows db1) es" by simp
    from read_events_stored[OF this append(2)] have es': "mset es' = mset es" "ledger_ok es'"
      by (auto simp: stores_def)
    have "\<not> ledger_ok (es' @ [c])"
      using append_event_exact[OF es'(2) assms(2)] append(3) by auto
    with es'(1) ledger_ok_perm[of "es @ [c]" "es' @ [c]"] show ?thesis by auto
  qed
qed

end

section \<open>One writer\<close>

text \<open>
  C21. Recording an event is one transaction: if it returns, exactly one row was added, it holds the
  event as recorded, and the stored ledger is coherent; if it raises, the database is as before
  (or a failed commit took effect and left a coherent ledger), and it raises a ledger rejection
  only if the ledger with the event would be incoherent.
\<close>

theorem append_validated_atomic:
  assumes "ledger_server pg tab tz et rows" "can_work sv" "idle cx" "stores (rows (cx_db cx)) es" "event_ok c"
    "append_validated pg et sv c cx = (r, cx')"
  shows "case r of
     Inr p \<Rightarrow> rows (cx_db cx') = add_mset (event_params (as_stored p)) (rows (cx_db cx))
              \<and> stores (rows (cx_db cx')) (es @ [as_stored p])
   | Inl e \<Rightarrow> (cx' = cx \<or> commit_failure e \<and> (\<exists>es'. stores (rows (cx_db cx')) es'))
              \<and> (\<forall>reason. e = LedgerRejectionError reason \<longrightarrow> \<not> ledger_ok (es @ [c]))"
proof (cases r)
  case (Inr p)
  from postgres_server.unit_of_work_Inr[OF ledger_server.axioms(1)[OF assms(1)] assms(2,3)
      assms(6)[unfolded Inr append_validated_def]]
  obtain db' where run: "append_validated_body et c (cx_db cx) = (Inr p, db')" "cx' = cx\<lparr>cx_db := db'\<rparr>"
    by auto
  from ledger_server.append_body_Inr[OF assms(1,4,5) run(1)] show ?thesis unfolding Inr run(2) by auto
next
  case (Inl e)
  have run: "unit_of_work pg sv (append_validated_body et c) cx = (Inl e, cx')"
    using assms(6) Inl by (simp add: append_validated_def)
  have "cx' = cx \<or> commit_failure e \<and> (\<exists>es'. stores (rows (cx_db cx')) es')"
    using postgres_server.unit_of_work_Inl[OF ledger_server.axioms(1)[OF assms(1)] assms(2,3) run]
  proof (elim disjE conjE exE)
    fix p db' assume run: "append_validated_body et c (cx_db cx) = (Inr p, db')" "cx' = cx\<lparr>cx_db := db'\<rparr>"
      and failed: "commit_failure e"
    from ledger_server.append_body_Inr[OF assms(1,4,5) run(1)] run(2) failed show ?thesis by auto
  qed simp
  moreover have "\<not> ledger_ok (es @ [c])" if "e = LedgerRejectionError reason" for reason
  proof -
    from run obtain db' where "transact pg (append_validated_body et c) (cx_db cx) = (Inl e, db')"
      by (auto simp: unit_of_work_idle[OF assms(2,3)] split: prod.splits)
    from transact_Inl_cause[OF this] that obtain w where
      "append_validated_body et c (cx_db cx) = (Inl (LedgerRejectionError reason), w)"
      by (auto simp: translate_persistence_error_def)
    from ledger_server.append_body_Inl[OF assms(1,4,5) this] show ?thesis .
  qed
  ultimately show ?thesis using Inl by auto
qed

section \<open>Interleaved writers\<close>

text \<open>
  Several writers at the level of their statements. A writer takes the lock of its candidate's
  position, which is a hash of the position's name, reads the committed events, and inserts and
  commits at once or gives up; the lock is held to the end. Reading sees what is committed at that
  time, and inserting fails if an event of that identifier has been committed meanwhile.
\<close>

datatype writer_phase = Locked position_event | Read position_event "position_event list"

fun candidate_of :: "writer_phase \<Rightarrow> position_event" where
  "candidate_of (Locked c) = c"
| "candidate_of (Read c _) = c"

record ledger_system =
  ly_ledger :: "position_event list"
  ly_writers :: "nat \<Rightarrow> writer_phase option"

inductive writer_step :: "(string \<Rightarrow> int) \<Rightarrow> ledger_system \<Rightarrow> ledger_system \<Rightarrow> bool" for hash where
  take_lock:
    "ly_writers s w = None \<Longrightarrow> event_ok c
     \<Longrightarrow> (\<And>w' ph. ly_writers s w' = Some ph \<Longrightarrow> hash (lock_key (candidate_of ph)) \<noteq> hash (lock_key c))
     \<Longrightarrow> writer_step hash s (s\<lparr>ly_writers := (ly_writers s)(w := Some (Locked c))\<rparr>)"
| read_ledger:
    "ly_writers s w = Some (Locked c)
     \<Longrightarrow> writer_step hash s (s\<lparr>ly_writers := (ly_writers s)(w := Some (Read c (ly_ledger s)))\<rparr>)"
| insert_commit:
    "ly_writers s w = Some (Read c es) \<Longrightarrow> append_event es c = Inr p
     \<Longrightarrow> pe_governance_id p \<notin> pe_governance_id ` set (ly_ledger s)
     \<Longrightarrow> writer_step hash s
           \<lparr>ly_ledger = ly_ledger s @ [as_stored p], ly_writers = (ly_writers s)(w := None)\<rparr>"
| give_up:
    "ly_writers s w = Some ph
     \<Longrightarrow> writer_step hash s (s\<lparr>ly_writers := (ly_writers s)(w := None)\<rparr>)"

definition writer_ok :: "position_event list \<Rightarrow> writer_phase \<Rightarrow> bool" where
  "writer_ok ledger ph \<longleftrightarrow> event_ok (candidate_of ph)
     \<and> (case ph of Locked c \<Rightarrow> True
        | Read c es \<Rightarrow> ledger_ok es \<and> same_position es c = same_position ledger c)"

definition system_ok :: "(string \<Rightarrow> int) \<Rightarrow> ledger_system \<Rightarrow> bool" where
  "system_ok hash s \<longleftrightarrow> ledger_ok (ly_ledger s)
     \<and> (\<forall>w ph. ly_writers s w = Some ph \<longrightarrow> writer_ok (ly_ledger s) ph)
     \<and> (\<forall>w w' ph ph'. ly_writers s w = Some ph \<longrightarrow> ly_writers s w' = Some ph' \<longrightarrow> w \<noteq> w'
          \<longrightarrow> hash (lock_key (candidate_of ph)) \<noteq> hash (lock_key (candidate_of ph')))"

lemma append_event_recorded:
  assumes "ledger_ok es" "event_ok c" "append_event es c = Inr p"
  shows "folds (same_position es c @ [c]) \<and> similar c p \<and> event_ok p"
proof -
  obtain q where "0 \<le> q" "folds (same_position es c @ [c])" "p = recorded_as c q"
    using append_event_Inr[OF assms(1,2)] assms(3) by blast
  then show ?thesis
    using assms(2) closing_event_ok[of c q] by (auto simp: recorded_as_def similar_def)
qed

lemma writer_step_keeps:
  assumes "writer_step hash s s'" "system_ok hash s"
  shows "system_ok hash s'"
  using assms
proof (induction rule: writer_step.induct)
  case (take_lock s w c)
  then show ?case by (auto simp: system_ok_def writer_ok_def) metis
next
  case (read_ledger s w c)
  then have "writer_ok (ly_ledger s) (Read c (ly_ledger s))"
    by (auto simp: system_ok_def writer_ok_def dest: spec[of _ w])
  with read_ledger show ?case
    by (auto simp: system_ok_def) (metis candidate_of.simps)+
next
  case (insert_commit s w c es p)
  let ?ledger = "ly_ledger s @ [as_stored p]"
  have ok: "event_ok c" "ledger_ok es" "same_position es c = same_position (ly_ledger s) c" "ledger_ok (ly_ledger s)"
    using insert_commit by (auto simp: system_ok_def writer_ok_def dest: spec[of _ w])
  from append_event_recorded[OF ok(2,1) insert_commit(2)] ok(3)
  have p: "folds (same_position (ly_ledger s) c @ [c])" "similar c p" "event_ok p" by simp_all
  with insert_commit(3) have "ledger_ok (ly_ledger s @ [c])"
    by (simp add: ledger_ok_append[OF ok(4,1)] similar_def)
  from ledger_ok_similar[OF ok(4,1) p(3,2) this] have "ledger_ok ?ledger"
    by (rule ledger_ok_similar[OF ok(4) p(3) as_stored_ok[OF p(3)]])
  moreover have "writer_ok ?ledger ph" if "ly_writers s w' = Some ph" "w' \<noteq> w" for w' ph
  proof -
    from that insert_commit(1,4) have "hash (lock_key (candidate_of ph)) \<noteq> hash (lock_key c)"
      by (force simp: system_ok_def)
    then have "pe_position (as_stored p) \<noteq> pe_position (candidate_of ph)"
      using p(2) by (auto simp: lock_key_def similar_def as_stored_def)
    then have "same_position ?ledger (candidate_of ph) = same_position (ly_ledger s) (candidate_of ph)"
      by (simp add: same_position_def)
    moreover from that(1) insert_commit(4) have "writer_ok (ly_ledger s) ph" by (auto simp: system_ok_def)
    ultimately show ?thesis by (cases ph) (auto simp: writer_ok_def)
  qed
  ultimately show ?case
    using insert_commit(4) by (auto simp: system_ok_def)
next
  case (give_up s w ph)
  then show ?case by (auto simp: system_ok_def)
qed


section \<open>A server with the table\<close>

type_synonym ledger_db = "table_db \<times> event_row list"

definition with_events :: "(db_error + 'a) \<times> table_db \<Rightarrow> event_row list \<Rightarrow> (db_error + 'a) \<times> ledger_db" where
  "with_events r es = (fst r, (snd r, es))"

definition ledger_pg :: "ledger_db postgres" where
  "ledger_pg =
     \<lparr>pg_exec = (\<lambda>db s. with_events (table_exec (fst db) s) (snd db)), pg_begin = (\<lambda>_. None),
      pg_commit = (\<lambda>_ work. (None, work)), pg_rollback = (\<lambda>_. None)\<rparr>"

text \<open>The columns' limits, the CHECKs and the UNIQUE constraints of the table.\<close>

definition event_row_fits :: "event_row \<Rightarrow> bool" where
  "event_row_fits r \<longleftrightarrow>
     length (er_runtime_id r) \<le> 64 \<and> length (er_governance_id r) \<le> 64 \<and> length (er_position r) \<le> 64
     \<and> length (er_symbol r) \<le> 32 \<and> length (er_kind r) \<le> 16
     \<and> - (2 ^ 31) \<le> er_quantity r \<and> er_quantity r < 2 ^ 31
     \<and> (case er_plan r of None \<Rightarrow> True | Some p \<Rightarrow> length p \<le> 64)
     \<and> er_kind r \<in> {''OPENED'', ''REDUCED'', ''CLOSED''} \<and> 0 \<le> er_quantity r
     \<and> (er_kind r = ''CLOSED'' \<or> 0 < er_quantity r) \<and> dec_less (dec_of_int 0) (er_price r)"

definition ledger_table :: "ledger_db event_table" where
  "ledger_table =
     \<lparr>et_lock = (\<lambda>k db. (Inr (), db)),
      et_select = (\<lambda>db. (Inr (sort_key (\<lambda>r. (instant (er_event_timestamp r), er_governance_id r)) (snd db)), db)),
      et_insert = (\<lambda>r db.
        if \<exists>r' \<in> set (snd db). er_runtime_id r' = er_runtime_id r then
          (Inl (UniqueViolation ''operator_position_event_pkey''), db)
        else if \<exists>r' \<in> set (snd db). er_governance_id r' = er_governance_id r then
          (Inl (UniqueViolation ''uq_operator_position_event_governance_id''), db)
        else if \<not> event_row_fits r then (Inl DatabaseError, db)
        else (Inr (), (fst db, stored_event_row r # snd db)))\<rparr>"

lemma ledger_pg_exec:
  "pg_exec ledger_pg db s = (r, db') \<longleftrightarrow> table_exec (fst db) s = (r, fst db') \<and> snd db' = snd db"
  by (cases db'; cases "table_exec (fst db) s") (auto simp: ledger_pg_def with_events_def)

interpretation ledger_db: ledger_server ledger_pg "\<lambda>db. contents (fst db)" utc ledger_table "\<lambda>db. mset (snd db)"
proof unfold_locales
  fix cs t w ord db rows db'
  assume "stmt_ok (Select cs t w ord)" "pg_exec ledger_pg db (Select cs t w ord) = (Inr rows, db')"
  with table_db.select_effect[of cs t w ord "fst db" rows "fst db'"]
  show "contents (fst db') = contents (fst db)
      \<and> (\<exists>full. mset full = {#r \<in># contents (fst db) t. matches w r#} \<and> in_order ord full
           \<and> rows = map (project cs) full)"
    by (simp add: ledger_pg_exec table_server_def)
next
  fix t ps db rows db'
  assume "stmt_ok (Insert t ps)" "pg_exec ledger_pg db (Insert t ps) = (Inr rows, db')"
  with table_db.insert_effect[of t ps "fst db" rows "fst db'"]
  show "contents (fst db') = (contents (fst db))(t := add_mset (stored_row utc ps) (contents (fst db) t))"
    by (simp add: ledger_pg_exec table_server_def)
next
  fix t sets w ret db rows db'
  assume "stmt_ok (Update t sets w ret)" "pg_exec ledger_pg db (Update t sets w ret) = (Inr rows, db')"
  with table_db.update_effect[of t sets w ret "fst db" rows "fst db'"]
  show "contents (fst db') = (contents (fst db))(t := image_mset
        (\<lambda>r. if matches w r then r ++ stored_row utc sets else r) (contents (fst db) t))
      \<and> length rows = size {#r \<in># contents (fst db) t. matches w r#}"
    by (simp add: ledger_pg_exec table_server_def)
next
  fix t w db rows db'
  assume "stmt_ok (Delete t w)" "pg_exec ledger_pg db (Delete t w) = (Inr rows, db')"
  with table_db.delete_effect[of t w "fst db" rows "fst db'"]
  show "contents (fst db') = (contents (fst db))(t := {#r \<in># contents (fst db) t. \<not> matches w r#})"
    by (simp add: ledger_pg_exec table_server_def)
next
  fix s db rows db'
  assume "stmt_ok s" "pg_exec ledger_pg db s = (Inr rows, db')" "schema_ok (contents (fst db))"
  with table_db.schema_kept[of s "fst db" rows "fst db'"]
  show "schema_ok (contents (fst db'))"
    by (simp add: ledger_pg_exec table_server_def)
next
  fix t ps name db db'
  assume "stmt_ok (Insert t ps)" "pg_exec ledger_pg db (Insert t ps) = (Inl (UniqueViolation name), db')"
  with table_db.unique_violation_real[of t ps "fst db" name "fst db'"]
  show "\<exists>ks. (name, ks) \<in> set (unique_keys t)
      \<and> (\<exists>r \<in># contents (fst db) t. same_key ks (stored_row utc ps) r)"
    by (simp add: ledger_pg_exec table_server_def)
qed (auto simp: ledger_pg_def ledger_table_def split: if_splits)

definition ledger_context :: "event_row list \<Rightarrow> ledger_db exec_context" where
  "ledger_context rs = \<lparr>cx_db = (empty_db, rs), cx_active = False, cx_scope = None\<rparr>"

lemma ledger_context_idle: "idle (ledger_context rs)"
  by (simp add: ledger_context_def idle_def)

definition sample_append :: "(exn + position_event) \<times> ledger_db exec_context" where
  "sample_append = append_validated ledger_pg ledger_table ready_service sample_reduction
     (ledger_context (map (stored_event_row \<circ> event_params) sample_ledger))"

theorem event_storage_round_trip_witness:
  "row_to_event (stored_event_row (event_params sample_reduction)) = Inr (as_stored sample_reduction)"
  using event_storage_round_trip[of sample_reduction] sample_event_ok by (simp add: sample_reduction_def)

lemma sample_stored: "stores (mset (map (stored_event_row \<circ> event_params) sample_ledger)) (map as_stored sample_ledger)"
proof -
  have all: "event_ok e" if "e \<in> set sample_ledger" for e
    using that sample_ledger_ok by (simp add: ledger_ok_def)
  have "same_position (map as_stored sample_ledger) (as_stored e) = map as_stored sample_ledger"
    if "e \<in> set sample_ledger" for e
    using that by (auto simp: sample_ledger_def same_position_def sample_event_def as_stored_def)
  moreover have "\<not> isl (fold_one_position (in_time_order (map as_stored sample_ledger)))" by code_simp
  then have "folds (map as_stored sample_ledger)"
    by (cases "fold_one_position (in_time_order (map as_stored sample_ledger))") (auto simp: folds_def)
  ultimately have "coherent (map as_stored sample_ledger)" by (auto simp: coherent_def)
  moreover have "distinct (map pe_governance_id (map as_stored sample_ledger))"
    by (simp add: sample_ledger_def sample_event_def as_stored_def)
  ultimately show ?thesis
    using as_stored_ok(1)[OF all] by (simp add: stores_def ledger_ok_def stored_params comp_def)
qed

theorem append_validated_atomic_witness:
  "\<exists>p es. fst sample_append = Inr p \<and> stores (mset (snd (cx_db (snd sample_append)))) es \<and> length es = 3"
proof -
  have "case fst sample_append of Inl e \<Rightarrow> False | Inr p \<Rightarrow> True" by code_simp
  then obtain p where p: "fst sample_append = Inr p" by (auto split: sum.splits)
  then have run: "append_validated ledger_pg ledger_table ready_service sample_reduction
     (ledger_context (map (stored_event_row \<circ> event_params) sample_ledger)) = (Inr p, snd sample_append)"
    by (simp add: sample_append_def prod_eq_iff)
  have "stores (mset (snd (cx_db (ledger_context (map (stored_event_row \<circ> event_params) sample_ledger)))))
      (map as_stored sample_ledger)"
    using sample_stored by (simp add: ledger_context_def)
  from append_validated_atomic[OF ledger_db.ledger_server_axioms ready_service_can_work ledger_context_idle
      this _ run] p sample_event_ok
  show ?thesis by (auto simp: sample_reduction_def sample_ledger_def)
qed

text \<open>Two writers on one position: the second waits until the first has committed.\<close>

definition idle_system :: ledger_system where
  "idle_system = \<lparr>ly_ledger = sample_ledger, ly_writers = (\<lambda>_. None)\<rparr>"


end
