(* ===== verification/Clock.thy ===== *)
theory Clock
  imports Decimals
begin

text \<open>
  Dates and times as Python prints them. A wall-clock reading is the number of microseconds
  since 1970-01-01T00:00:00 of that clock; an instant is a reading of the UTC clock. The
  conversion of a day number into year, month and day follows \<^verbatim>\<open>datetime\<close>. The zone database is
  data outside the program: a zone is given by the offset at an instant (with the fold flag of
  the reading) and the offset of a wall-clock reading.
\<close>

section \<open>Calendar\<close>

definition leap_year :: "int \<Rightarrow> bool" where
  "leap_year y \<longleftrightarrow> y mod 4 = 0 \<and> (y mod 100 \<noteq> 0 \<or> y mod 400 = 0)"

definition days_before_year :: "int \<Rightarrow> int" where
  "days_before_year y = (let z = y - 1 in z * 365 + z div 4 - z div 100 + z div 400)"

definition days_before_month :: "bool \<Rightarrow> int \<Rightarrow> int" where
  "days_before_month leap m =
     [0, 31, 59, 90, 120, 151, 181, 212, 243, 273, 304, 334] ! nat (m - 1)
     + (if 2 < m \<and> leap then 1 else 0)"

definition ymd_to_ordinal :: "int \<times> int \<times> int \<Rightarrow> int" where
  "ymd_to_ordinal ymd =
     (case ymd of (y, m, d) \<Rightarrow> days_before_year y + days_before_month (leap_year y) m + d)"

text \<open>Month and day of the day \<open>n\<close> (from 0) of a year.\<close>

definition month_and_day :: "bool \<Rightarrow> int \<Rightarrow> int \<times> int" where
  "month_and_day leap n =
     (let m = (n + 50) div 32; p = days_before_month leap m in
      if n < p then (m - 1, n - days_before_month leap (m - 1) + 1) else (m, n - p + 1))"

definition ordinal_to_ymd :: "int \<Rightarrow> int \<times> int \<times> int" where
  "ordinal_to_ymd ordinal =
     (let n = ordinal - 1; n400 = n div 146097; r = n mod 146097;
          n100 = r div 36524; r = r mod 36524; n4 = r div 1461; r = r mod 1461;
          n1 = r div 365; r = r mod 365; year = n400 * 400 + 1 + n100 * 100 + n4 * 4 + n1
      in if n1 = 4 \<or> n100 = 4 then (year - 1, 12, 31)
         else (year, month_and_day (n1 = 3 \<and> (n4 \<noteq> 24 \<or> n100 = 3)) r))"

section \<open>Printing\<close>

definition micros_per_day :: int where "micros_per_day = 86400000000"

definition epoch_ordinal :: int where "epoch_ordinal = 719163"

text \<open>The readings of the years 1 to 9999.\<close>

definition in_calendar :: "int \<Rightarrow> bool" where
  "in_calendar w \<longleftrightarrow>
     (let n = w div micros_per_day + epoch_ordinal in 1 \<le> n \<and> n \<le> 3652059)"

definition calendar_overflow :: exn where
  "calendar_overflow = ArithmeticError ''OverflowError''"

definition plus_seconds :: "int \<Rightarrow> int \<Rightarrow> exn + int" where
  "plus_seconds w s =
     (let v = w + s * 1000000 in if in_calendar v then Inr v else Inl calendar_overflow)"

text \<open>A number in exactly \<open>k\<close> digits.\<close>

fun padded :: "nat \<Rightarrow> int \<Rightarrow> string" where
  "padded 0 n = []"
| "padded (Suc k) n = padded k (n div 10) @ [digit_char (n mod 10)]"

definition time_of_day :: "int \<Rightarrow> int" where
  "time_of_day w = w mod micros_per_day"

definition iso_time :: "int \<Rightarrow> string" where
  "iso_time t =
     padded 2 (t div 3600000000) @ '':'' @ padded 2 (t div 60000000 mod 60) @ '':''
     @ padded 2 (t div 1000000 mod 60)
     @ (if t mod 1000000 = 0 then [] else ''.'' @ padded 6 (t mod 1000000))"

definition iso_wall :: "int \<Rightarrow> string" where
  "iso_wall w =
     (case ordinal_to_ymd (w div micros_per_day + epoch_ordinal) of
        (y, m, d) \<Rightarrow>
          padded 4 y @ ''-'' @ padded 2 m @ ''-'' @ padded 2 d @ ''T'' @ iso_time (time_of_day w))"

text \<open>An offset from UTC in microseconds; \<^verbatim>\<open>datetime\<close> prints seconds only if there are any.\<close>

definition iso_offset :: "int \<Rightarrow> string" where
  "iso_offset off =
     (let a = \<bar>off\<bar> in
      (if off < 0 then ''-'' else ''+'') @ padded 2 (a div 3600000000) @ '':''
      @ padded 2 (a div 60000000 mod 60)
      @ (if a mod 60000000 = 0 then []
         else '':'' @ padded 2 (a div 1000000 mod 60)
              @ (if a mod 1000000 = 0 then [] else ''.'' @ padded 6 (a mod 1000000))))"

definition iso_utc :: "int \<Rightarrow> string" where
  "iso_utc i = iso_wall i @ iso_offset 0"

section \<open>Zones\<close>

record zone =
  zn_at :: "int \<Rightarrow> int \<times> bool"
  zn_of_wall :: "int \<Rightarrow> bool \<Rightarrow> int"

text \<open>
  \<^verbatim>\<open>moment.astimezone(zone)\<close> as reading and fold, and \<^verbatim>\<open>moment.astimezone(UTC)\<close> of a reading; both
  raise outside the calendar.
\<close>

definition to_local :: "zone \<Rightarrow> int \<Rightarrow> exn + int \<times> bool" where
  "to_local z i =
     (case zn_at z i of (off, late) \<Rightarrow>
        if in_calendar (i + off) then Inr (i + off, late) else Inl calendar_overflow)"

definition from_local :: "zone \<Rightarrow> int \<times> bool \<Rightarrow> exn + int" where
  "from_local z w =
     (case w of (reading, late) \<Rightarrow>
        let i = reading - zn_of_wall z reading late in
        if in_calendar i then Inr i else Inl calendar_overflow)"

definition iso_local :: "zone \<Rightarrow> int \<times> bool \<Rightarrow> string" where
  "iso_local z w = (case w of (reading, late) \<Rightarrow> iso_wall reading @ iso_offset (zn_of_wall z reading late))"

definition utc_zone :: zone where
  "utc_zone = \<lparr>zn_at = \<lambda>i. (0, False), zn_of_wall = \<lambda>w late. 0\<rparr>"

section \<open>Printing is injective\<close>

lemma length_padded [simp]: "length (padded k n) = k"
  by (induction k arbitrary: n) simp_all

lemma digit_char_inj: "0 \<le> a \<Longrightarrow> a < 10 \<Longrightarrow> 0 \<le> b \<Longrightarrow> b < 10 \<Longrightarrow> digit_char a = digit_char b \<longleftrightarrow> a = b"
  by (auto simp: digit_char_def dest!: arg_cong[of "char_of _" _ "of_char :: char \<Rightarrow> nat"])

lemma padded_inj:
  "0 \<le> a \<Longrightarrow> a < 10 ^ k \<Longrightarrow> 0 \<le> b \<Longrightarrow> b < 10 ^ k \<Longrightarrow> padded k a = padded k b \<longleftrightarrow> a = b"
proof (induction k arbitrary: a b)
  case (Suc k)
  then have "padded k (a div 10) = padded k (b div 10) \<longleftrightarrow> a div 10 = b div 10"
    by (intro Suc.IH) auto
  moreover have "a = b \<longleftrightarrow> a div 10 = b div 10 \<and> a mod 10 = b mod 10"
    by (metis div_mult_mod_eq)
  ultimately show ?case by (simp add: digit_char_inj)
qed simp

definition month_day_ok :: "bool \<Rightarrow> int \<Rightarrow> bool" where
  "month_day_ok leap n \<longleftrightarrow> (case month_and_day leap n of (m, d) \<Rightarrow>
     1 \<le> m \<and> m \<le> 12 \<and> 1 \<le> d \<and> d \<le> 31 \<and> days_before_month leap m + d = n + 1)"

lemma month_day_checked: "list_all (month_day_ok False) [0..364]"
  by code_simp

lemma month_day_checked': "list_all (month_day_ok True) [0..365]"
  by code_simp

lemma month_and_day_sound:
  assumes "0 \<le> n" "n < 365 + (if leap then 1 else 0)" "month_and_day leap n = (m, d)"
  shows "1 \<le> m" "m \<le> 12" "1 \<le> d" "d \<le> 31" "days_before_month leap m + d = n + 1"
proof -
  have "month_day_ok leap n"
    using assms(1,2) month_day_checked month_day_checked' by (cases leap) (auto simp: list_all_iff)
  with assms(3) show "1 \<le> m" "m \<le> 12" "1 \<le> d" "d \<le> 31" "days_before_month leap m + d = n + 1"
    by (simp_all add: month_day_ok_def)
qed

lemma mod_0_pred: "0 < k \<Longrightarrow> y mod k = 0 \<longleftrightarrow> (y - 1) mod k = k - 1" for k y :: int
  using zmod_minus1[of k] mod_add_left_eq[of "y - 1" k 1] mod_diff_left_eq[of y k 1]
    mod_pos_pos_trivial[of "(y - 1) mod k + 1" k]
  by (auto simp: zmod_minus1 order_le_less)

lemma days_before_year_cycles:
  assumes "0 \<le> b" "b \<le> 3" "0 \<le> c" "c \<le> 24" "0 \<le> e" "e \<le> 3"
    "y = a * 400 + 1 + b * 100 + c * 4 + e"
  shows "days_before_year y = 146097 * a + 36524 * b + 1461 * c + 365 * e"
    "leap_year y \<longleftrightarrow> e = 3 \<and> (c \<noteq> 24 \<or> b = 3)"
proof -
  have "(y - 1) div 4 = 100 * a + 25 * b + c"
    using assms by (intro int_div_pos_eq[of _ _ _ e]) auto
  moreover have "(y - 1) div 100 = 4 * a + b"
    using assms by (intro int_div_pos_eq[of _ _ _ "4 * c + e"]) auto
  moreover have "(y - 1) div 400 = a"
    using assms by (intro int_div_pos_eq[of _ _ _ "100 * b + 4 * c + e"]) auto
  ultimately show "days_before_year y = 146097 * a + 36524 * b + 1461 * c + 365 * e"
    using assms(7) by (simp add: days_before_year_def Let_def)
  have rests: "(y - 1) mod 4 = e" "(y - 1) mod 100 = 4 * c + e" "(y - 1) mod 400 = 100 * b + 4 * c + e"
    using assms int_mod_pos_eq[of "y - 1" 4 "100 * a + 25 * b + c" e]
      int_mod_pos_eq[of "y - 1" 100 "4 * a + b" "4 * c + e"]
      int_mod_pos_eq[of "y - 1" 400 a "100 * b + 4 * c + e"] by auto
  have "y mod 4 = 0 \<longleftrightarrow> (y - 1) mod 4 = 3" "y mod 100 = 0 \<longleftrightarrow> (y - 1) mod 100 = 99"
    "y mod 400 = 0 \<longleftrightarrow> (y - 1) mod 400 = 399"
    by (simp_all add: mod_0_pred)
  then have "leap_year y \<longleftrightarrow> e = 3 \<and> (4 * c + e \<noteq> 99 \<or> 100 * b + 4 * c + e = 399)"
    by (simp add: leap_year_def rests)
  with assms(1-6) show "leap_year y \<longleftrightarrow> e = 3 \<and> (c \<noteq> 24 \<or> b = 3)"
    by auto
qed

text \<open>Reading a day number as a date and the date as a day number again.\<close>

lemma ordinal_round_trip:
  assumes "1 \<le> n" "n \<le> 3652059" "ordinal_to_ymd n = (y, m, d)"
  shows "ymd_to_ordinal (y, m, d) = n \<and> 1 \<le> y \<and> y \<le> 9999 \<and> 1 \<le> m \<and> m \<le> 12 \<and> 1 \<le> d \<and> d \<le> 31"
proof -
  define a where "a = (n - 1) div 146097"
  define x where "x = (n - 1) mod 146097"
  define b where "b = x div 36524"
  define x' where "x' = x mod 36524"
  define c where "c = x' div 1461"
  define x'' where "x'' = x' mod 1461"
  define e where "e = x'' div 365"
  define r where "r = x'' mod 365"
  have sums: "n - 1 = 146097 * a + x" "x = 36524 * b + x'" "x' = 1461 * c + x''" "x'' = 365 * e + r"
    by (simp_all add: a_def x_def b_def x'_def c_def x''_def e_def r_def)
  have "0 \<le> x" "x < 146097" "0 \<le> x'" "x' < 36524" "0 \<le> x''" "x'' < 1461" "0 \<le> r" "r < 365"
    by (simp_all add: x_def x'_def x''_def r_def)
  with sums assms(1,2) have bounds: "0 \<le> a" "a \<le> 24" "0 \<le> b" "b \<le> 4" "0 \<le> c" "c \<le> 24" "0 \<le> e" "e \<le> 4"
    "0 \<le> r" "r < 365" "x < 146097" "x' < 36524" "x'' < 1461"
    by auto
  define year where "year = a * 400 + 1 + b * 100 + c * 4 + e"
  have ymd: "(y, m, d) = (if e = 4 \<or> b = 4 then (year - 1, 12, 31)
      else (year, month_and_day (e = 3 \<and> (c \<noteq> 24 \<or> b = 3)) r))"
    using assms(3)[symmetric] unfolding ordinal_to_ymd_def Let_def year_def a_def x_def b_def x'_def c_def
      x''_def e_def r_def .
  show ?thesis
  proof (cases "e = 4 \<or> b = 4")
    case True
    with ymd have y: "y = year - 1" "m = 12" "d = 31" by auto
    consider (century) "b = 4" "c = 0" "e = 0" "r = 0" | (year) "b \<le> 3" "e = 4" "c \<noteq> 24" "r = 0"
      using True sums bounds by fastforce
    then show ?thesis
    proof cases
      case century
      with y have year: "y = a * 400 + 1 + 3 * 100 + 24 * 4 + 3" by (simp add: year_def)
      from days_before_year_cycles[OF _ _ _ _ _ _ year] y(2,3) century sums
      have "ymd_to_ordinal (y, m, d) = n" by (simp add: ymd_to_ordinal_def days_before_month_def)
      moreover have "1 \<le> y" "y \<le> 9999"
        using year century sums bounds assms(2) by linarith+
      ultimately show ?thesis using y(2,3) by simp
    next
      case year
      with y have quad: "y = a * 400 + 1 + b * 100 + c * 4 + 3" by (simp add: year_def)
      from days_before_year_cycles[OF bounds(3) year(1) bounds(5,6) _ _ quad] y(2,3) year sums
      have "ymd_to_ordinal (y, m, d) = n" by (simp add: ymd_to_ordinal_def days_before_month_def)
      moreover have "1 \<le> y" "y \<le> 9999"
        using quad year sums bounds assms(2) by linarith+
      ultimately show ?thesis using y(2,3) by simp
    qed
  next
    case False
    define leap where "leap \<longleftrightarrow> e = 3 \<and> (c \<noteq> 24 \<or> b = 3)"
    with ymd False have y: "y = year" "month_and_day leap r = (m, d)" by simp_all
    from False bounds have "b \<le> 3" "e \<le> 3" by auto
    from days_before_year_cycles[OF bounds(3) this(1) bounds(5,6,7) this(2) year_def] y
    have "days_before_year y = n - 1 - r" "leap_year y = leap"
      using sums by (simp_all add: leap_def)
    moreover from month_and_day_sound[OF bounds(9) _ y(2)] bounds(10)
    have "1 \<le> m" "m \<le> 12" "1 \<le> d" "d \<le> 31" "days_before_month leap m + d = r + 1" by auto
    moreover have "1 \<le> y" "y \<le> 9999"
      using y(1) bounds \<open>b \<le> 3\<close> \<open>e \<le> 3\<close> sums assms(2) unfolding year_def by linarith+
    ultimately show ?thesis by (simp add: ymd_to_ordinal_def)
  qed
qed

lemma padded_inj_int:
  "0 \<le> a \<Longrightarrow> a < n \<Longrightarrow> n \<le> 10 ^ k \<Longrightarrow> 0 \<le> b \<Longrightarrow> b < n \<Longrightarrow> padded k a = padded k b \<Longrightarrow> a = b"
  using padded_inj[of a k b] by simp

lemma iso_time_inj:
  assumes "0 \<le> t" "t < micros_per_day" "0 \<le> u" "u < micros_per_day" "iso_time t = iso_time u"
  shows "t = u"
proof -
  let ?h = "\<lambda>t :: int. t div 3600000000" and ?m = "\<lambda>t :: int. t div 60000000 mod 60"
    and ?s = "\<lambda>t :: int. t div 1000000 mod 60" and ?f = "\<lambda>t :: int. t mod 1000000"
  from assms(5) have eqs: "padded 2 (?h t) = padded 2 (?h u)" "padded 2 (?m t) = padded 2 (?m u)"
    "padded 2 (?s t) = padded 2 (?s u)"
    "?f t = ?f u \<or> padded 6 (?f t) = padded 6 (?f u)"
    by (auto simp: iso_time_def split: if_splits)
  from assms(1-4) have "0 \<le> ?h t" "?h t < 24" "0 \<le> ?h u" "?h u < 24"
    by (auto simp: micros_per_day_def)
  with eqs(1) have "?h t = ?h u" by (intro padded_inj_int[of _ 24 2]) auto
  moreover from eqs(2) have "?m t = ?m u" by (intro padded_inj_int[of _ 60 2]) auto
  moreover from eqs(3) have "?s t = ?s u" by (intro padded_inj_int[of _ 60 2]) auto
  moreover from eqs(4) have "?f t = ?f u" by (auto intro: padded_inj_int[of _ 1000000 6])
  moreover have "v = 3600000000 * ?h v + 60000000 * ?m v + 1000000 * ?s v + ?f v" for v
  proof -
    have "v div 60000000 div 60 = ?h v" "v div 1000000 div 60 = v div 60000000"
      by (simp_all flip: zdiv_zmult2_eq)
    then show ?thesis
      using mult_div_mod_eq[of 60 "v div 60000000"] mult_div_mod_eq[of 60 "v div 1000000"]
        mult_div_mod_eq[of 1000000 v] by linarith
  qed
  ultimately show ?thesis by metis
qed

text \<open>Two instants of the calendar with the same UTC text are the same instant.\<close>

lemma iso_utc_inj:
  assumes "in_calendar i" "in_calendar j" "iso_utc i = iso_utc j"
  shows "i = j"
proof -
  let ?n = "\<lambda>w. w div micros_per_day + epoch_ordinal"
  obtain y m d y' m' d' where ymd: "ordinal_to_ymd (?n i) = (y, m, d)" "ordinal_to_ymd (?n j) = (y', m', d')"
    by (metis prod_cases3)
  have bounds: "1 \<le> ?n i" "?n i \<le> 3652059" "1 \<le> ?n j" "?n j \<le> 3652059"
    using assms(1,2) by (simp_all add: in_calendar_def Let_def)
  note dates = ordinal_round_trip[OF bounds(1,2) ymd(1)] ordinal_round_trip[OF bounds(3,4) ymd(2)]
  from assms(3) have eqs: "padded 4 y = padded 4 y'" "padded 2 m = padded 2 m'" "padded 2 d = padded 2 d'"
    "iso_time (time_of_day i) = iso_time (time_of_day j)"
    by (simp_all add: iso_utc_def iso_wall_def ymd)
  have small: "0 \<le> y" "y < 10000" "0 \<le> y'" "y' < 10000" "0 \<le> m" "m < 100" "0 \<le> m'" "m' < 100"
    "0 \<le> d" "d < 100" "0 \<le> d'" "d' < 100"
    using dates by linarith+
  from padded_inj_int[OF small(1,2) _ small(3,4) eqs(1)] have "y = y'" by simp
  moreover from padded_inj_int[OF small(5,6) _ small(7,8) eqs(2)] have "m = m'" by simp
  moreover from padded_inj_int[OF small(9,10) _ small(11,12) eqs(3)] have "d = d'" by simp
  ultimately have "?n i = ?n j" by (simp only: dates[THEN conjunct1, symmetric])
  then have "i div micros_per_day = j div micros_per_day" by simp
  moreover from eqs(4) have "i mod micros_per_day = j mod micros_per_day"
    unfolding time_of_day_def[symmetric]
    by (intro iso_time_inj) (simp_all add: time_of_day_def micros_per_day_def)
  ultimately show "i = j" by (metis mult_div_mod_eq)
qed

end
