(* ===== verification/Trading_Configuration.thy ===== *)
theory Trading_Configuration
  imports Clock "HOL-Library.List_Lexorder" "HOL-Library.Char_ord"
begin

text \<open>
  \<^verbatim>\<open>decision_candidate/operator_trading_configuration.py\<close>: the versioned policy record of the
  decision-to-approval product and the refusals of its constructor, in the order of the code. The
  zone database is a parameter. The file proves what a constructed configuration guarantees.
\<close>

section \<open>Checks shared by the product modules\<close>

definition all_checks :: "(exn + unit) list \<Rightarrow> exn + unit" where
  "all_checks = rcheck (\<lambda>c. c)"

lemma all_checks_Inr [result_eqs]: "all_checks cs = Inr u \<longleftrightarrow> (\<forall>c \<in> set cs. c = Inr ())"
  by (simp add: all_checks_def rcheck_eq_Inr)

lemma all_checks_simps [simp]:
  "all_checks [] = Inr ()" "all_checks (c # cs) = rbind c (\<lambda>_. all_checks cs)"
  by (simp_all add: all_checks_def)

definition require :: "bool \<Rightarrow> string \<Rightarrow> exn + unit" where
  "require c message = ensure c (ValueError message)"

lemma require_Inr [result_eqs]: "require c m = Inr u \<longleftrightarrow> c"
  by (simp add: require_def ensure_eq_Inr)

lemma require_Inl [result_eqs]: "require c m = Inl e \<longleftrightarrow> \<not> c \<and> e = ValueError m"
  by (auto simp: require_def ensure_eq_Inl)

definition maximum_identifier_length :: nat where "maximum_identifier_length = 64"

definition maximum_symbol_length :: nat where "maximum_symbol_length = 32"

definition maximum_list_length :: nat where "maximum_list_length = 256"

definition require_identifier :: "string \<Rightarrow> string \<Rightarrow> exn + unit" where
  "require_identifier v field =
     all_checks
       [require (\<not> blank v) (field @ '' must be a non-empty string''),
        require (length v \<le> maximum_identifier_length) (field @ '' must be at most 64 characters'')]"

text \<open>
  \<^verbatim>\<open>v == v.strip().upper()\<close>. Below code point 256, \<^verbatim>\<open>str.upper\<close> changes the letters a to z, the
  micro sign and the small letters from 223 on except the division sign.
\<close>

definition changed_by_upper :: "char \<Rightarrow> bool" where
  "changed_by_upper c =
     (let n = (of_char c :: nat) in 97 \<le> n \<and> n \<le> 122 \<or> n = 181 \<or> 223 \<le> n \<and> n \<noteq> 247)"

definition upper_case :: "string \<Rightarrow> bool" where
  "upper_case s \<longleftrightarrow> list_all (\<lambda>c. \<not> changed_by_upper c) s"

definition canonical :: "string \<Rightarrow> bool" where
  "canonical s \<longleftrightarrow> strip s = s \<and> upper_case s"

text \<open>\<^verbatim>\<open>repr\<close> of a string: the quotes, the escapes and the printable characters.\<close>

definition hex_char :: "nat \<Rightarrow> char" where
  "hex_char n = char_of (if n < 10 then 48 + n else 87 + n)"

definition escaped :: "char \<Rightarrow> char \<Rightarrow> string" where
  "escaped quote c =
     (let n = (of_char c :: nat) in
      if c = quote \<or> n = 92 then [CHR 0x5C, c]
      else if n = 9 then [CHR 0x5C, CHR ''t''] else if n = 10 then [CHR 0x5C, CHR ''n'']
      else if n = 13 then [CHR 0x5C, CHR ''r'']
      else if n < 32 \<or> 127 \<le> n \<and> n \<le> 160 \<or> n = 173 then
        [CHR 0x5C, CHR ''x'', hex_char (n div 16), hex_char (n mod 16)]
      else [c])"

definition py_repr :: "string \<Rightarrow> string" where
  "py_repr s =
     (let quote = (if CHR 0x27 \<in> set s \<and> CHR 0x22 \<notin> set s then CHR 0x22 else CHR 0x27)
      in quote # concat (map (escaped quote) s) @ [quote])"

definition py_repr_list :: "string list \<Rightarrow> string" where
  "py_repr_list xs = ''['' @ join '', '' (map py_repr xs) @ '']''"

definition require_symbols :: "string list \<Rightarrow> string \<Rightarrow> exn + unit" where
  "require_symbols vs field =
     all_checks
       [require (length vs \<le> maximum_list_length) (field @ '' must contain at most 256 entries''),
        rcheck (\<lambda>s. all_checks
          [require (\<not> blank s) (field @ '' must not contain a blank symbol''),
           require (length s \<le> maximum_symbol_length) (field @ '' symbols must be at most 32 characters''),
           require (canonical s) (field @ '' symbols must be upper-case and unpadded: '' @ py_repr s)]) vs,
        require (distinct vs) (field @ '' must not contain duplicates''),
        require (sort vs = vs) (field @ '' must be in canonical ascending order'')]"

definition require_positive :: "decimal \<Rightarrow> string \<Rightarrow> exn + unit" where
  "require_positive v field =
     all_checks
       [require (is_finite v) (field @ '' must be finite''),
        require (\<not> dec_le v (dec_of_int 0)) (field @ '' must be positive'')]"

definition require_non_negative :: "decimal \<Rightarrow> string \<Rightarrow> exn + unit" where
  "require_non_negative v field =
     all_checks
       [require (is_finite v) (field @ '' must be finite''),
        require (\<not> dec_less v (dec_of_int 0)) (field @ '' must not be negative'')]"

text \<open>The callers all leave \<^verbatim>\<open>allow_zero\<close> at \<^verbatim>\<open>False\<close>.\<close>

definition require_percent :: "decimal \<Rightarrow> string \<Rightarrow> exn + unit" where
  "require_percent v field =
     all_checks
       [require_non_negative v field,
        require (\<not> dec_equal v (dec_of_int 0)) (field @ '' must be positive''),
        require (\<not> dec_less (dec_of_int 100) v) (field @ '' must not exceed 100'')]"

definition require_positive_int :: "int \<Rightarrow> string \<Rightarrow> exn + unit" where
  "require_positive_int v field = require (0 < v) (field @ '' must be positive'')"

section \<open>The configuration\<close>

datatype account_mode = PREPARATION | PAPER | LIVE

datatype order_type = MARKET | LIMIT

datatype limit_price_policy = LAST_TRADE | MID_QUOTE | ASK

datatype trading_session = REGULAR | PRE_MARKET | POST_MARKET

datatype kill_switch_state = DISENGAGED | ENGAGED

fun order_type_value :: "order_type \<Rightarrow> string" where
  "order_type_value MARKET = ''MARKET''"
| "order_type_value LIMIT = ''LIMIT''"

fun kill_switch_value :: "kill_switch_state \<Rightarrow> string" where
  "kill_switch_value DISENGAGED = ''DISENGAGED''"
| "kill_switch_value ENGAGED = ''ENGAGED''"

fun account_mode_value :: "account_mode \<Rightarrow> string" where
  "account_mode_value PREPARATION = ''PREPARATION''"
| "account_mode_value PAPER = ''PAPER''"
| "account_mode_value LIVE = ''LIVE''"

text \<open>A \<^verbatim>\<open>datetime.time\<close>: microseconds since midnight, with or without a zone.\<close>

datatype clock_time = ClockTime (clock_zoned: bool) (clock_micros: int)

record trading_configuration =
  tc_governance_id :: string
  tc_version :: int
  tc_base_currency :: string
  tc_permitted_markets :: "string list"
  tc_watchlist :: "string list"
  tc_prohibited_instruments :: "string list"
  tc_maximum_deployable_capital :: decimal
  tc_maximum_capital_per_trade :: decimal
  tc_maximum_percent_per_trade :: decimal
  tc_minimum_cash_reserve :: decimal
  tc_maximum_simultaneous_positions :: int
  tc_maximum_daily_loss :: decimal
  tc_maximum_daily_order_count :: int
  tc_minimum_price :: decimal
  tc_maximum_price :: "decimal option"
  tc_minimum_liquidity_shares :: int
  tc_maximum_spread_percent :: decimal
  tc_maximum_slippage_percent :: decimal
  tc_maximum_evidence_age_seconds :: int
  tc_maximum_market_data_age_seconds :: int
  tc_permitted_session :: trading_session
  tc_earliest_entry_time :: clock_time
  tc_latest_entry_time :: clock_time
  tc_mandatory_liquidation_time :: clock_time
  tc_operator_timezone :: string
  tc_exchange_calendar_policy :: string
  tc_proposal_expiry_seconds :: int
  tc_approval_expiry_seconds :: int
  tc_default_order_type :: order_type
  tc_permitted_order_types :: "order_type list"
  tc_limit_price_policy :: limit_price_policy
  tc_stop_loss_percent :: decimal
  tc_profit_exit_percent :: decimal
  tc_maximum_leverage :: decimal
  tc_short_selling_permitted :: bool
  tc_overnight_positions_permitted :: bool
  tc_account_mode :: account_mode
  tc_kill_switch :: kill_switch_state

text \<open>The zone database: the zone of an IANA name, if there is one.\<close>

type_synonym zone_database = "string \<Rightarrow> zone option"

definition universe_checks :: "trading_configuration \<Rightarrow> (exn + unit) list" where
  "universe_checks c =
     [require_identifier (tc_governance_id c) ''configuration_governance_id'',
      require (1 \<le> tc_version c) ''configuration_version must start at 1'',
      require (length (tc_base_currency c) = 3) ''base_currency must be a 3-letter ISO code'',
      require (upper_case (tc_base_currency c)) ''base_currency must be upper-case'',
      require_symbols (tc_permitted_markets c) ''permitted_markets'',
      require (tc_permitted_markets c \<noteq> []) ''permitted_markets must not be empty'',
      require_symbols (tc_watchlist c) ''watchlist'',
      require (tc_watchlist c \<noteq> []) ''watchlist must not be empty'',
      require_symbols (tc_prohibited_instruments c) ''prohibited_instruments'',
      (let overlap = filter (\<lambda>s. s \<in> set (tc_prohibited_instruments c)) (tc_watchlist c) in
       require (overlap = [])
         (''an instrument may not be both watchlisted and prohibited: '' @ py_repr_list (sort overlap)))]"

definition capital_checks :: "trading_configuration \<Rightarrow> (exn + unit) list" where
  "capital_checks c =
     [require_positive (tc_maximum_deployable_capital c) ''maximum_deployable_capital'',
      require_positive (tc_maximum_capital_per_trade c) ''maximum_capital_per_trade'',
      require_percent (tc_maximum_percent_per_trade c) ''maximum_percent_per_trade'',
      require_non_negative (tc_minimum_cash_reserve c) ''minimum_cash_reserve'',
      require_positive_int (tc_maximum_simultaneous_positions c) ''maximum_simultaneous_positions'',
      require (\<not> dec_less (tc_maximum_deployable_capital c) (tc_maximum_capital_per_trade c))
        ''maximum_capital_per_trade must not exceed maximum_deployable_capital'',
      require (\<not> dec_le (tc_maximum_deployable_capital c) (tc_minimum_cash_reserve c))
        ''minimum_cash_reserve must leave deployable capital available'',
      require_positive (tc_maximum_daily_loss c) ''maximum_daily_loss'',
      require_positive_int (tc_maximum_daily_order_count c) ''maximum_daily_order_count'']"

definition quality_checks :: "trading_configuration \<Rightarrow> (exn + unit) list" where
  "quality_checks c =
     [require_positive (tc_minimum_price c) ''minimum_price'',
      (case tc_maximum_price c of
         None \<Rightarrow> Inr ()
       | Some p \<Rightarrow> all_checks
           [require_positive p ''maximum_price'',
            require (\<not> dec_le p (tc_minimum_price c)) ''maximum_price must exceed minimum_price'']),
      require_positive_int (tc_minimum_liquidity_shares c) ''minimum_liquidity_shares'',
      require_percent (tc_maximum_spread_percent c) ''maximum_spread_percent'',
      require_percent (tc_maximum_slippage_percent c) ''maximum_estimated_slippage_percent'',
      require_positive_int (tc_maximum_evidence_age_seconds c) ''maximum_evidence_age_seconds'',
      require_positive_int (tc_maximum_market_data_age_seconds c) ''maximum_market_data_age_seconds'']"

definition naive_time :: "clock_time \<Rightarrow> string \<Rightarrow> exn + unit" where
  "naive_time t field =
     require (\<not> clock_zoned t) (field @ '' must be a naive local time interpreted in operator_timezone'')"

definition session_checks :: "zone_database \<Rightarrow> trading_configuration \<Rightarrow> (exn + unit) list" where
  "session_checks zones c =
     [require (tc_permitted_session c = REGULAR)
        (''only the REGULAR session is permitted: pre- and post-market ''
         @ ''liquidity cannot satisfy this milestone's spread and liquidity gates''),
      naive_time (tc_earliest_entry_time c) ''earliest_entry_time'',
      naive_time (tc_latest_entry_time c) ''latest_entry_time'',
      naive_time (tc_mandatory_liquidation_time c) ''mandatory_liquidation_time'',
      require (clock_micros (tc_earliest_entry_time c) < clock_micros (tc_latest_entry_time c))
        ''earliest_entry_time must precede latest_entry_time'',
      require (clock_micros (tc_latest_entry_time c) < clock_micros (tc_mandatory_liquidation_time c))
        (''mandatory_liquidation_time must follow latest_entry_time: an intraday ''
         @ ''position that cannot be closed after the last permitted entry is an overnight position''),
      require (\<not> blank (tc_operator_timezone c)) ''operator_timezone must be a non-empty IANA zone name'',
      require (zones (tc_operator_timezone c) \<noteq> None)
        (''operator_timezone must be a known IANA zone: '' @ py_repr (tc_operator_timezone c)),
      require_identifier (tc_exchange_calendar_policy c) ''exchange_calendar_policy'',
      require_positive_int (tc_proposal_expiry_seconds c) ''proposal_expiry_seconds'',
      require_positive_int (tc_approval_expiry_seconds c) ''approval_expiry_seconds'',
      require (tc_approval_expiry_seconds c \<le> tc_proposal_expiry_seconds c)
        (''approval_expiry_seconds must not exceed proposal_expiry_seconds: an ''
         @ ''approval cannot outlive the proposal version it authorizes'')]"

definition policy_checks :: "trading_configuration \<Rightarrow> (exn + unit) list" where
  "policy_checks c =
     [require (tc_permitted_order_types c \<noteq> []) ''permitted_order_types must not be empty'',
      require (distinct (tc_permitted_order_types c)) ''permitted_order_types must not contain duplicates'',
      require (tc_default_order_type c \<in> set (tc_permitted_order_types c))
        ''default_order_type must be one of permitted_order_types'',
      require_percent (tc_stop_loss_percent c) ''stop_loss_percent'',
      require_percent (tc_profit_exit_percent c) ''profit_exit_percent'',
      require (dec_equal (tc_maximum_leverage c) (dec_of_int 1))
        (''maximum_leverage must be exactly 1: this product is unleveraged, and ''
         @ ''leverage is not a configurable dial''),
      require (\<not> tc_short_selling_permitted c) ''short_selling_permitted must be False: this product is long-only'',
      require (\<not> tc_overnight_positions_permitted c)
        ''overnight_positions_permitted must be False: this product is intraday-only'',
      require (tc_account_mode c = PREPARATION)
        (''account_mode must be PREPARATION in MILESTONE-084: this milestone is ''
         @ ''technically incapable of submitting an order, so declaring PAPER or ''
         @ ''LIVE would describe a capability that does not exist'')]"

definition configuration_checks :: "zone_database \<Rightarrow> trading_configuration \<Rightarrow> exn + unit" where
  "configuration_checks zones c =
     all_checks (universe_checks c @ capital_checks c @ quality_checks c @ session_checks zones c @ policy_checks c)"

definition make_configuration :: "zone_database \<Rightarrow> trading_configuration \<Rightarrow> exn + trading_configuration" where
  "make_configuration zones c = rbind (configuration_checks zones c) (\<lambda>_. Inr c)"

definition is_trading_permitted :: "trading_configuration \<Rightarrow> bool" where
  "is_trading_permitted c \<longleftrightarrow> tc_kill_switch c = DISENGAGED"

end
