(* ===== verification/Market_Inputs.thy ===== *)
theory Market_Inputs
  imports Trading_Configuration
begin

text \<open>
  \<^verbatim>\<open>decision_candidate/product_market_inputs.py\<close>: the snapshots a decision is made from, the
  refusals of their constructors, the derived prices of a quote and the age of an observation.
\<close>

datatype market_status = MARKET_OPEN | MARKET_CLOSED | HALTED | EARLY_CLOSE | UNKNOWN_STATUS

fun market_status_value :: "market_status \<Rightarrow> string" where
  "market_status_value MARKET_OPEN = ''OPEN''"
| "market_status_value MARKET_CLOSED = ''CLOSED''"
| "market_status_value HALTED = ''HALTED''"
| "market_status_value EARLY_CLOSE = ''EARLY_CLOSE''"
| "market_status_value UNKNOWN_STATUS = ''UNKNOWN''"

datatype feed_kind = REAL_TIME | DELAYED | FIXTURE

fun feed_kind_value :: "feed_kind \<Rightarrow> string" where
  "feed_kind_value REAL_TIME = ''REAL_TIME''"
| "feed_kind_value DELAYED = ''DELAYED''"
| "feed_kind_value FIXTURE = ''FIXTURE''"

definition require_symbol :: "string \<Rightarrow> string \<Rightarrow> exn + unit" where
  "require_symbol v field =
     all_checks
       [require (\<not> blank v) (field @ '' must be a non-empty string''),
        require (length v \<le> maximum_symbol_length) (field @ '' must be at most 32 characters''),
        require (canonical v) (field @ '' must be upper-case and unpadded: '' @ py_repr v)]"

definition require_aware_instant :: "datetime \<Rightarrow> string \<Rightarrow> exn + unit" where
  "require_aware_instant t field =
     require (is_aware t) (field @ '' must be timezone-aware: a naive instant carries no chronology'')"

definition require_price :: "decimal \<Rightarrow> string \<Rightarrow> exn + unit" where
  "require_price v field =
     all_checks
       [require (is_finite v) (field @ '' must be finite: NaN and infinity are not prices''),
        require (\<not> dec_le v (dec_of_int 0)) (field @ '' must be positive'')]"

definition require_non_negative_int :: "int \<Rightarrow> string \<Rightarrow> exn + unit" where
  "require_non_negative_int v field = require (0 \<le> v) (field @ '' must not be negative'')"

definition require_currency :: "string \<Rightarrow> string \<Rightarrow> exn + unit" where
  "require_currency v field =
     all_checks
       [require (length v = 3) (field @ '' must be a 3-letter ISO code''),
        require (upper_case v) (field @ '' must be upper-case'')]"

section \<open>Ages\<close>

text \<open>
  \<^verbatim>\<open>Decimal(str(delta.total_seconds()))\<close> of a number of microseconds: the shortest decimal text of
  the float of that value, which has a fraction digit even for whole seconds. The text is the exact
  value for the first 31 years, where a value has at most 15 significant digits; beyond, where the
  float may round in the last microseconds, the model stays exact.
\<close>

definition seconds_decimal :: "int \<Rightarrow> decimal" where
  "seconds_decimal micros =
     (if micros mod 1000000 = 0 then Dec (micros < 0) (\<bar>micros\<bar> div 100000) (- 1)
      else case drop_zeros \<bar>micros\<bar> (- 6) 0 of (c, e) \<Rightarrow> Dec (micros < 0) c e)"

definition age_seconds :: "string \<Rightarrow> datetime \<Rightarrow> datetime \<Rightarrow> exn + decimal" where
  "age_seconds label observed_at evaluated_at =
     (case (observed_at, evaluated_at) of
        (Aware o', Aware t) \<Rightarrow>
          rbind (require (0 \<le> t - o')
            (label @ '' was observed after the evaluation instant; refusing to treat a future observation as fresh''))
          (\<lambda>_. Inr (seconds_decimal (t - o')))
      | (Naive _, _) \<Rightarrow> Inl (ValueError (label @ ''.observed_at must be timezone-aware: a naive instant carries no chronology''))
      | (_, Naive _) \<Rightarrow> Inl (ValueError ''evaluated_at must be timezone-aware: a naive instant carries no chronology''))"

section \<open>Snapshots\<close>

record quote_snapshot =
  qs_id :: string
  qs_provider :: string
  qs_symbol :: string
  qs_bid :: decimal
  qs_ask :: decimal
  qs_last_trade :: decimal
  qs_observed_at :: datetime
  qs_feed_kind :: feed_kind

definition quote_checks :: "quote_snapshot \<Rightarrow> exn + unit" where
  "quote_checks q =
     all_checks
       [require_identifier (qs_id q) ''quote_id'', require_identifier (qs_provider q) ''provider_id'',
        require_symbol (qs_symbol q) ''symbol'', require_price (qs_bid q) ''bid'',
        require_price (qs_ask q) ''ask'', require_price (qs_last_trade q) ''last_trade'',
        require (\<not> dec_less (qs_ask q) (qs_bid q)) ''ask must not be below bid: the book is crossed or malformed'',
        require_aware_instant (qs_observed_at q) ''observed_at'']"

definition quote_mid :: "quote_snapshot \<Rightarrow> exn + decimal" where
  "quote_mid q = rbind (dec_add (qs_bid q) (qs_ask q)) (\<lambda>s. dec_div s (dec_of_int 2))"

definition quote_spread :: "quote_snapshot \<Rightarrow> exn + decimal" where
  "quote_spread q = dec_sub (qs_ask q) (qs_bid q)"

definition quote_spread_percent :: "quote_snapshot \<Rightarrow> exn + decimal" where
  "quote_spread_percent q =
     rbind (quote_spread q) (\<lambda>spread. rbind (quote_mid q) (\<lambda>mid.
     rbind (dec_div spread mid) (\<lambda>r. dec_mul r (dec_of_int 100))))"

definition quote_age_seconds :: "quote_snapshot \<Rightarrow> datetime \<Rightarrow> exn + decimal" where
  "quote_age_seconds q t = age_seconds ''quote'' (qs_observed_at q) t"

record account_snapshot =
  as_id :: string
  as_provider :: string
  as_account_reference :: string
  as_base_currency :: string
  as_cash_available :: decimal
  as_equity_total :: decimal
  as_realized_pnl_today :: decimal
  as_orders_submitted_today :: int
  as_observed_at :: datetime

definition account_checks :: "account_snapshot \<Rightarrow> exn + unit" where
  "account_checks a =
     all_checks
       [require_identifier (as_id a) ''account_snapshot_id'', require_identifier (as_provider a) ''provider_id'',
        require_identifier (as_account_reference a) ''account_reference'',
        require_currency (as_base_currency a) ''base_currency'',
        require_non_negative (as_cash_available a) ''cash_available'',
        require_non_negative (as_equity_total a) ''equity_total'',
        require (is_finite (as_realized_pnl_today a)) ''realized_pnl_today must be finite'',
        require_non_negative_int (as_orders_submitted_today a) ''orders_submitted_today'',
        require_aware_instant (as_observed_at a) ''observed_at'']"

record position_snapshot =
  ps_symbol :: string
  ps_quantity :: int
  ps_average_price :: decimal

definition position_checks :: "position_snapshot \<Rightarrow> exn + unit" where
  "position_checks p =
     all_checks
       [require_symbol (ps_symbol p) ''symbol'',
        require (0 \<le> ps_quantity p)
          (''quantity must not be negative: a short position cannot be represented, ''
           @ ''and must not be coerced into a long one''),
        require_price (ps_average_price p) ''average_price'']"

record open_order_snapshot =
  oo_reference :: string
  oo_symbol :: string
  oo_side :: string
  oo_quantity :: int

definition open_order_checks :: "open_order_snapshot \<Rightarrow> exn + unit" where
  "open_order_checks o' =
     all_checks
       [require_identifier (oo_reference o') ''order_reference'', require_symbol (oo_symbol o') ''symbol'',
        require (oo_side o' \<in> {''BUY'', ''SELL''}) ''side must be BUY or SELL'',
        require (0 < oo_quantity o') ''quantity must be positive'']"

record session_snapshot =
  ss_id :: string
  ss_provider :: string
  ss_market :: string
  ss_status :: market_status
  ss_observed_at :: datetime

definition session_snapshot_checks :: "session_snapshot \<Rightarrow> exn + unit" where
  "session_snapshot_checks s =
     all_checks
       [require_identifier (ss_id s) ''session_id'', require_identifier (ss_provider s) ''provider_id'',
        require_symbol (ss_market s) ''market'', require_aware_instant (ss_observed_at s) ''observed_at'']"

definition is_tradeable :: "session_snapshot \<Rightarrow> bool" where
  "is_tradeable s \<longleftrightarrow> ss_status s = MARKET_OPEN"

record instrument_metadata =
  im_symbol :: string
  im_market :: string
  im_currency :: string
  im_is_fractionable :: bool
  im_lot_size :: int

definition instrument_checks :: "instrument_metadata \<Rightarrow> exn + unit" where
  "instrument_checks i =
     all_checks
       [require_symbol (im_symbol i) ''symbol'', require_symbol (im_market i) ''market'',
        require_currency (im_currency i) ''currency'',
        require (1 \<le> im_lot_size i) ''lot_size must be at least 1'']"

record liquidity_snapshot =
  ls_symbol :: string
  ls_average_daily_volume_shares :: int
  ls_observed_at :: datetime

definition liquidity_checks :: "liquidity_snapshot \<Rightarrow> exn + unit" where
  "liquidity_checks l =
     all_checks
       [require_symbol (ls_symbol l) ''symbol'',
        require_non_negative_int (ls_average_daily_volume_shares l) ''average_daily_volume_shares'',
        require_aware_instant (ls_observed_at l) ''observed_at'']"

record cost_estimate =
  ce_id :: string
  ce_provider :: string
  ce_symbol :: string
  ce_commission :: decimal
  ce_slippage_percent :: decimal
  ce_observed_at :: datetime

definition cost_checks :: "cost_estimate \<Rightarrow> exn + unit" where
  "cost_checks c =
     all_checks
       [require_identifier (ce_id c) ''estimate_id'', require_identifier (ce_provider c) ''provider_id'',
        require_symbol (ce_symbol c) ''symbol'', require_non_negative (ce_commission c) ''commission'',
        require_non_negative (ce_slippage_percent c) ''estimated_slippage_percent'',
        require (\<not> dec_less (dec_of_int 100) (ce_slippage_percent c))
          ''estimated_slippage_percent must not exceed 100'',
        require_aware_instant (ce_observed_at c) ''observed_at'']"

end
