(* ===== verification/Digest.thy ===== *)
theory Digest
  imports Prelude "HOL-Library.Word"
begin

text \<open>
  \<^verbatim>\<open>hashlib.sha256(text.encode("utf-8")).hexdigest()\<close>: the encoding of a string, the padding of
  FIPS 180-4, the compression of 64-byte blocks over 32-bit words and the hexadecimal text of the
  result. All the models need of it is that it is a function with 64 lower-case hexadecimal
  characters as result.
\<close>

unbundle bit_operations_syntax

section \<open>Encoding\<close>

text \<open>UTF-8 of the code points below 256.\<close>

definition utf8_char :: "char \<Rightarrow> 32 word list" where
  "utf8_char c =
     (let n = (of_char c :: nat) in
      if n < 128 then [of_nat n] else [of_nat (192 + n div 64), of_nat (128 + n mod 64)])"

definition utf8 :: "string \<Rightarrow> 32 word list" where
  "utf8 s = concat (map utf8_char s)"

section \<open>SHA-256\<close>

definition round_constants :: "32 word list" where
  "round_constants =
     [1116352408, 1899447441, 3049323471, 3921009573, 961987163, 1508970993, 2453635748, 2870763221,
      3624381080, 310598401, 607225278, 1426881987, 1925078388, 2162078206, 2614888103, 3248222580,
      3835390401, 4022224774, 264347078, 604807628, 770255983, 1249150122, 1555081692, 1996064986,
      2554220882, 2821834349, 2952996808, 3210313671, 3336571891, 3584528711, 113926993, 338241895,
      666307205, 773529912, 1294757372, 1396182291, 1695183700, 1986661051, 2177026350, 2456956037,
      2730485921, 2820302411, 3259730800, 3345764771, 3516065817, 3600352804, 4094571909, 275423344,
      430227734, 506948616, 659060556, 883997877, 958139571, 1322822218, 1537002063, 1747873779,
      1955562222, 2024104815, 2227730452, 2361852424, 2428436474, 2756734187, 3204031479, 3329325298]"

definition rotate_right :: "nat \<Rightarrow> 32 word \<Rightarrow> 32 word" where
  "rotate_right n x = drop_bit n x OR push_bit (32 - n) x"

text \<open>The message schedule, newest word first.\<close>

definition next_word :: "32 word list \<Rightarrow> 32 word" where
  "next_word ws =
     (let a = ws ! 14; b = ws ! 1;
          s0 = rotate_right 7 a XOR rotate_right 18 a XOR drop_bit 3 a;
          s1 = rotate_right 17 b XOR rotate_right 19 b XOR drop_bit 10 b
      in ws ! 15 + s0 + ws ! 6 + s1)"

fun extended :: "nat \<Rightarrow> 32 word list \<Rightarrow> 32 word list" where
  "extended 0 ws = ws"
| "extended (Suc n) ws = extended n (next_word ws # ws)"

definition schedule :: "32 word list \<Rightarrow> 32 word list" where
  "schedule block = rev (extended 48 (rev block))"

datatype hash_state =
  HashState "32 word" "32 word" "32 word" "32 word" "32 word" "32 word" "32 word" "32 word"

fun sha_round :: "hash_state \<Rightarrow> 32 word \<times> 32 word \<Rightarrow> hash_state" where
  "sha_round (HashState a b c d e f g h) (k, w) =
     (let s1 = rotate_right 6 e XOR rotate_right 11 e XOR rotate_right 25 e;
          ch = (e AND f) XOR (NOT e AND g);
          t1 = h + s1 + ch + k + w;
          s0 = rotate_right 2 a XOR rotate_right 13 a XOR rotate_right 22 a;
          maj = (a AND b) XOR (a AND c) XOR (b AND c)
      in HashState (t1 + (s0 + maj)) a b c (d + t1) e f g)"

fun add_state :: "hash_state \<Rightarrow> hash_state \<Rightarrow> hash_state" where
  "add_state (HashState a b c d e f g h) (HashState a' b' c' d' e' f' g' h') =
     HashState (a + a') (b + b') (c + c') (d + d') (e + e') (f + f') (g + g') (h + h')"

definition compress :: "hash_state \<Rightarrow> 32 word list \<Rightarrow> hash_state" where
  "compress st block = add_state st (foldl sha_round st (zip round_constants (schedule block)))"

definition initial_hash :: hash_state where
  "initial_hash = HashState 1779033703 3144134277 1013904242 2773480762 1359893119 2600822924 528734635 1541459225"

text \<open>Big-endian words of bytes and bytes of a length; padding to whole blocks.\<close>

fun words_of :: "32 word list \<Rightarrow> 32 word list" where
  "words_of (a # b # c # d # rest) =
     (push_bit 24 a OR push_bit 16 b OR push_bit 8 c OR d) # words_of rest"
| "words_of _ = []"

definition length_bytes :: "nat \<Rightarrow> 32 word list" where
  "length_bytes n = map (\<lambda>k. of_nat (n div 256 ^ k mod 256)) [7, 6, 5, 4, 3, 2, 1, 0]"

definition padded_message :: "32 word list \<Rightarrow> 32 word list" where
  "padded_message bytes =
     (let n = length bytes; fill = (119 - n mod 64) mod 64
      in bytes @ 128 # replicate fill 0 @ length_bytes (8 * n))"

function blocks_of :: "32 word list \<Rightarrow> 32 word list list" where
  "blocks_of ws = (if ws = [] then [] else take 16 ws # blocks_of (drop 16 ws))"
  by auto
termination by (relation "measure length") auto

declare blocks_of.simps [simp del]

definition sha256 :: "32 word list \<Rightarrow> hash_state" where
  "sha256 bytes = foldl compress initial_hash (blocks_of (words_of (padded_message bytes)))"

section \<open>Hexadecimal text\<close>

definition hex_digit :: "nat \<Rightarrow> char" where
  "hex_digit n = char_of (if n < 10 then 48 + n else 87 + n)"

definition hex_word :: "32 word \<Rightarrow> string" where
  "hex_word w = map (\<lambda>k. hex_digit (unat (drop_bit (4 * k) w AND 15))) [7, 6, 5, 4, 3, 2, 1, 0]"

fun hexdigest :: "hash_state \<Rightarrow> string" where
  "hexdigest (HashState a b c d e f g h) = concat (map hex_word [a, b, c, d, e, f, g, h])"

definition sha256_hex :: "string \<Rightarrow> string" where
  "sha256_hex s = hexdigest (sha256 (utf8 s))"

definition is_hex_digest :: "string \<Rightarrow> bool" where
  "is_hex_digest s \<longleftrightarrow>
     length s = 64
     \<and> (\<forall>c \<in> set s. let n = (of_char c :: nat) in 48 \<le> n \<and> n \<le> 57 \<or> 97 \<le> n \<and> n \<le> 102)"

lemma hex_digit_range: "n < 16 \<Longrightarrow> let m = (of_char (hex_digit n) :: nat) in 48 \<le> m \<and> m \<le> 57 \<or> 97 \<le> m \<and> m \<le> 102"
  by (auto simp: hex_digit_def)

lemma nibble_less: "unat (x AND 15 :: 32 word) < 16"
proof -
  have "x AND 15 \<le> 15" by (rule word_and_le1)
  then show ?thesis by (simp add: word_le_nat_alt)
qed

lemma sha256_hex_is_hex_digest [simp]: "is_hex_digest (sha256_hex s)"
proof (cases "sha256 (utf8 s)")
  case (HashState a b c d e f g h)
  have "\<forall>x \<in> set (hex_word w). let n = (of_char x :: nat) in 48 \<le> n \<and> n \<le> 57 \<or> 97 \<le> n \<and> n \<le> 102" for w
    using hex_digit_range[OF nibble_less] by (auto simp: hex_word_def)
  moreover have "length (hex_word w) = 8" for w by (simp add: hex_word_def)
  ultimately show ?thesis
    by (simp only: is_hex_digest_def sha256_hex_def HashState hexdigest.simps) auto
qed

lemma length_sha256_hex [simp]: "length (sha256_hex s) = 64"
  using sha256_hex_is_hex_digest by (simp add: is_hex_digest_def)

end
