(* ===== verification/Trade_Proposal.thy ===== *)
theory Trade_Proposal
  imports Market_Inputs Digest
begin

text \<open>
  \<^verbatim>\<open>decision_candidate/trade_proposal.py\<close>: the risk checks of the proposal engine in the order the
  code records them, the sizing of the order, the fingerprint over the authorized terms, and the
  proposal's constructor. An evaluation raises, declines with one reason, or proposes.
\<close>

section \<open>Vocabulary\<close>

datatype proposal_status = PREPARED | APPROVED | REJECTED | EXPIRED | CANCELLED | INVALIDATED

fun proposal_status_value :: "proposal_status \<Rightarrow> string" where
  "proposal_status_value PREPARED = ''PREPARED''"
| "proposal_status_value APPROVED = ''APPROVED''"
| "proposal_status_value REJECTED = ''REJECTED''"
| "proposal_status_value EXPIRED = ''EXPIRED''"
| "proposal_status_value CANCELLED = ''CANCELLED''"
| "proposal_status_value INVALIDATED = ''INVALIDATED''"

datatype check_outcome = PASSED | FAILED | UNKNOWN

datatype no_trade_reason =
  KILL_SWITCH_ENGAGED | MARKET_NOT_OPEN | MARKET_STATUS_UNKNOWN | OUTSIDE_ENTRY_WINDOW
| LIQUIDATION_DEADLINE_UNREACHABLE | MARKET_DATA_STALE | MARKET_DATA_NOT_REAL_TIME | EVIDENCE_STALE
| INSTRUMENT_NOT_WATCHLISTED | INSTRUMENT_PROHIBITED | MARKET_NOT_PERMITTED | CURRENCY_MISMATCH
| PRICE_OUTSIDE_BOUNDS | SPREAD_TOO_WIDE | LIQUIDITY_INSUFFICIENT | SLIPPAGE_TOO_HIGH
| COST_ESTIMATE_MISSING | EXISTING_POSITION_CONFLICT | OPEN_ORDER_CONFLICT | POSITION_LIMIT_REACHED
| DAILY_LOSS_LIMIT_REACHED | DAILY_ORDER_LIMIT_REACHED | CASH_INSUFFICIENT | CASH_RESERVE_BREACHED
| QUANTITY_ZERO_AFTER_SIZING | NO_ELIGIBLE_CANDIDATE

definition reason_precedence :: "no_trade_reason list" where
  "reason_precedence =
     [KILL_SWITCH_ENGAGED, MARKET_STATUS_UNKNOWN, MARKET_NOT_OPEN, OUTSIDE_ENTRY_WINDOW,
      LIQUIDATION_DEADLINE_UNREACHABLE, MARKET_DATA_NOT_REAL_TIME, MARKET_DATA_STALE, EVIDENCE_STALE,
      COST_ESTIMATE_MISSING, INSTRUMENT_PROHIBITED, INSTRUMENT_NOT_WATCHLISTED, MARKET_NOT_PERMITTED,
      CURRENCY_MISMATCH, PRICE_OUTSIDE_BOUNDS, SPREAD_TOO_WIDE, LIQUIDITY_INSUFFICIENT,
      SLIPPAGE_TOO_HIGH, EXISTING_POSITION_CONFLICT, OPEN_ORDER_CONFLICT, POSITION_LIMIT_REACHED,
      DAILY_LOSS_LIMIT_REACHED, DAILY_ORDER_LIMIT_REACHED, CASH_RESERVE_BREACHED, CASH_INSUFFICIENT,
      QUANTITY_ZERO_AFTER_SIZING, NO_ELIGIBLE_CANDIDATE]"

text \<open>\<^verbatim>\<open>_PRECEDENCE_INDEX\<close> and \<^verbatim>\<open>min(reasons, key=...)\<close> over the collected reasons.\<close>

definition precedence_index :: "no_trade_reason \<Rightarrow> nat" where
  "precedence_index r = length (takeWhile (\<lambda>r'. r' \<noteq> r) reason_precedence)"

definition first_reason :: "no_trade_reason \<Rightarrow> no_trade_reason list \<Rightarrow> no_trade_reason" where
  "first_reason r rs = foldl (\<lambda>best x. if precedence_index x < precedence_index best then x else best) r rs"

record risk_check =
  rc_check_id :: string
  rc_outcome :: check_outcome
  rc_detail :: string

definition make_risk_check :: "string \<Rightarrow> check_outcome \<Rightarrow> string \<Rightarrow> exn + risk_check" where
  "make_risk_check i outcome detail =
     rbind (all_checks
       [require (\<not> blank i) ''check_id must be a non-empty string'',
        require (length i \<le> maximum_identifier_length) ''check_id must be at most 64 characters'',
        require (length detail \<le> 512) ''detail must be at most 512 characters''])
     (\<lambda>_. Inr \<lparr>rc_check_id = i, rc_outcome = outcome, rc_detail = detail\<rparr>)"

text \<open>
  \<^verbatim>\<open>record\<close>: the check, and the reason it adds if it did not pass.
\<close>

type_synonym gate = "risk_check \<times> no_trade_reason option"

definition record_check :: "string \<Rightarrow> check_outcome \<Rightarrow> string \<Rightarrow> no_trade_reason \<Rightarrow> exn + gate" where
  "record_check i outcome detail reason =
     rbind (make_risk_check i outcome detail)
     (\<lambda>c. Inr (c, if outcome \<noteq> PASSED then Some reason else None))"

definition record_passed :: "string \<Rightarrow> string \<Rightarrow> exn + gate" where
  "record_passed i detail = rbind (make_risk_check i PASSED detail) (\<lambda>c. Inr (c, None))"

abbreviation verdict :: "bool \<Rightarrow> check_outcome" where
  "verdict c \<equiv> (if c then PASSED else FAILED)"

section \<open>Proposals\<close>

record authorized_terms =
  at_proposal_id :: string
  at_proposal_version :: int
  at_context_id :: string
  at_configuration_id :: string
  at_configuration_version :: int
  at_symbol :: string
  at_side :: string
  at_quantity :: int
  at_order_type :: order_type
  at_limit_price :: "decimal option"
  at_currency :: string
  at_notional :: decimal
  at_fees :: decimal
  at_slippage_amount :: decimal
  at_total_cash :: decimal
  at_stop_loss_price :: decimal
  at_profit_exit_price :: decimal
  at_mandatory_liquidation_at :: datetime
  at_expires_at :: datetime

record trade_proposal = authorized_terms +
  tp_created_at :: datetime
  tp_status :: proposal_status
  tp_risk_checks :: "risk_check list"
  tp_content_fingerprint :: string

definition terms_of :: "trade_proposal \<Rightarrow> authorized_terms" where
  "terms_of p = authorized_terms.truncate p"

text \<open>\<^verbatim>\<open>moment.astimezone(UTC).isoformat()\<close>; a naive moment is refused before it gets here.\<close>

fun utc_text :: "datetime \<Rightarrow> string" where
  "utc_text (Aware i) = iso_utc i"
| "utc_text (Naive w) = iso_utc w"

definition fingerprint_fields :: "authorized_terms \<Rightarrow> exn + string list" where
  "fingerprint_fields t =
     rbind (case at_limit_price t of None \<Rightarrow> Inr [] | Some p \<Rightarrow> money_str p)
     (\<lambda>limit. rbind (rmap money_str [at_notional t, at_fees t, at_slippage_amount t, at_total_cash t,
                                      at_stop_loss_price t, at_profit_exit_price t])
     (\<lambda>amounts. Inr
       ([at_proposal_id t, int_str (at_proposal_version t), at_context_id t, at_configuration_id t,
         int_str (at_configuration_version t), at_symbol t, at_side t, int_str (at_quantity t),
         order_type_value (at_order_type t), limit, at_currency t]
        @ amounts @ [utc_text (at_mandatory_liquidation_at t), utc_text (at_expires_at t)])))"

definition fingerprint_digest :: "authorized_terms \<Rightarrow> exn + string" where
  "fingerprint_digest t = rbind (fingerprint_fields t) (\<lambda>fields. Inr (sha256_hex (join [CHR 0x0A] fields)))"

definition compute_fingerprint :: "trade_proposal \<Rightarrow> exn + string" where
  "compute_fingerprint p = fingerprint_digest (terms_of p)"

definition require_amount :: "decimal \<Rightarrow> string \<Rightarrow> exn + unit" where
  "require_amount v field =
     require (is_finite v \<and> \<not> dec_less v (dec_of_int 0)) (field @ '' must be a non-negative finite Decimal'')"

definition require_aware_datetime :: "datetime \<Rightarrow> string \<Rightarrow> exn + unit" where
  "require_aware_datetime t field = require (is_aware t) (field @ '' must be a timezone-aware datetime'')"

fun instant_of :: "datetime \<Rightarrow> int" where
  "instant_of (Aware i) = i"
| "instant_of (Naive w) = w"

definition identity_checks :: "trade_proposal \<Rightarrow> (exn + unit) list" where
  "identity_checks p =
     [require_identifier (at_proposal_id p) ''proposal_governance_id'',
      require_identifier (at_context_id p) ''evaluation_context_id'',
      require_identifier (at_configuration_id p) ''configuration_governance_id'',
      require (1 \<le> at_proposal_version p) ''proposal_version must start at 1'',
      require (1 \<le> at_configuration_version p) ''configuration_version must start at 1'']"

definition order_checks :: "trade_proposal \<Rightarrow> (exn + unit) list" where
  "order_checks p =
     [require (at_side p = ''BUY'') ''side must be BUY: this product is long-only and does not represent a sell'',
      require (canonical (at_symbol p)) ''symbol must be an upper-case, unpadded string'',
      require (0 < at_quantity p) ''quantity must be positive: a zero-quantity proposal is a NO_TRADE'',
      require (\<not> (at_order_type p = LIMIT \<and> at_limit_price p = None)) ''a LIMIT proposal must carry a limit_price'',
      require (\<not> (at_order_type p = MARKET \<and> at_limit_price p \<noteq> None))
        ''a MARKET proposal must not carry a limit_price'',
      require (case at_limit_price p of None \<Rightarrow> True | Some l \<Rightarrow> is_finite l \<and> \<not> dec_le l (dec_of_int 0))
        ''limit_price must be a positive finite Decimal'',
      require (length (at_currency p) = 3) ''currency must be a 3-letter ISO code'']"

definition amount_checks :: "trade_proposal \<Rightarrow> (exn + unit) list" where
  "amount_checks p =
     [require_amount (at_notional p) ''estimated_notional'', require_amount (at_fees p) ''estimated_fees'',
      require_amount (at_slippage_amount p) ''estimated_slippage_amount'',
      require_amount (at_total_cash p) ''estimated_total_cash_required'',
      require_amount (at_stop_loss_price p) ''stop_loss_price'',
      require_amount (at_profit_exit_price p) ''profit_exit_price'',
      require (\<not> dec_le (at_stop_loss_price p) (dec_of_int 0) \<and> \<not> dec_le (at_profit_exit_price p) (dec_of_int 0))
        ''stop_loss_price and profit_exit_price must be positive'',
      require (\<not> dec_le (at_profit_exit_price p) (at_stop_loss_price p)) ''profit_exit_price must exceed stop_loss_price'',
      rbind (dec_add (at_notional p) (at_fees p)) (\<lambda>s. rbind (dec_add s (at_slippage_amount p))
        (\<lambda>total. require (dec_equal (at_total_cash p) total)
           ''estimated_total_cash_required must equal notional + fees + slippage''))]"

definition time_checks :: "trade_proposal \<Rightarrow> (exn + unit) list" where
  "time_checks p =
     [require_aware_datetime (tp_created_at p) ''created_at'', require_aware_datetime (at_expires_at p) ''expires_at'',
      require_aware_datetime (at_mandatory_liquidation_at p) ''mandatory_liquidation_at'',
      require (instant_of (tp_created_at p) < instant_of (at_expires_at p)) ''expires_at must follow created_at'',
      require (instant_of (tp_created_at p) < instant_of (at_mandatory_liquidation_at p))
        ''mandatory_liquidation_at must follow created_at'']"

definition seal_checks :: "trade_proposal \<Rightarrow> (exn + unit) list" where
  "seal_checks p =
     [require (tp_risk_checks p \<noteq> []) ''risk_checks must be a non-empty tuple'',
      require (list_all (\<lambda>c. rc_outcome c = PASSED) (tp_risk_checks p))
        (''a TradeProposal may only exist when every risk check passed; a FAIL or ''
         @ ''UNKNOWN outcome must produce a NO_TRADE instead''),
      require (distinct (map rc_check_id (tp_risk_checks p))) ''risk_checks must not repeat a check_id'',
      require (length (tp_content_fingerprint p) = 64) ''content_fingerprint must be a 64-character hex digest'',
      rbind (compute_fingerprint p)
        (\<lambda>f. require (tp_content_fingerprint p = f)
           (''content_fingerprint does not match the proposal's own order terms''))]"

definition proposal_checks :: "trade_proposal \<Rightarrow> exn + unit" where
  "proposal_checks p =
     all_checks (identity_checks p @ order_checks p @ amount_checks p @ time_checks p @ seal_checks p)"

definition make_proposal :: "trade_proposal \<Rightarrow> exn + trade_proposal" where
  "make_proposal p = rbind (proposal_checks p) (\<lambda>_. Inr p)"

definition expired_at :: "trade_proposal \<Rightarrow> datetime \<Rightarrow> exn + bool" where
  "expired_at p t =
     rbind (require_aware_datetime t ''instant'') (\<lambda>_. Inr (instant_of (at_expires_at p) \<le> instant_of t))"

end
