(* ===== verification/Proposal_Engine.thy ===== *)
theory Proposal_Engine
  imports Trade_Proposal
begin

text \<open>
  \<^verbatim>\<open>evaluate_trade_proposal\<close> of \<^verbatim>\<open>decision_candidate/trade_proposal.py\<close>: one gate per recorded
  check, in the order of the code, the sizing of the order and the assembly of the proposal.
\<close>

record proposal_inputs =
  pi_configuration :: trading_configuration
  pi_zone :: zone
  pi_context_id :: string
  pi_proposal_id :: string
  pi_evaluated_at :: datetime
  pi_symbol :: string
  pi_quote :: quote_snapshot
  pi_account :: account_snapshot
  pi_session :: session_snapshot
  pi_instrument :: instrument_metadata
  pi_liquidity :: liquidity_snapshot
  pi_cost_estimate :: "cost_estimate option"
  pi_positions :: "position_snapshot list"
  pi_open_orders :: "open_order_snapshot list"
  pi_evidence_age_seconds :: decimal

abbreviation config :: "proposal_inputs \<Rightarrow> trading_configuration" where
  "config \<equiv> pi_configuration"

section \<open>Global stop, market state and entry window\<close>

definition gate_kill_switch :: "proposal_inputs \<Rightarrow> exn + gate" where
  "gate_kill_switch x =
     record_check ''kill_switch'' (verdict (tc_kill_switch (config x) = DISENGAGED))
       (''kill switch '' @ kill_switch_value (tc_kill_switch (config x))) KILL_SWITCH_ENGAGED"

definition gate_market_status :: "proposal_inputs \<Rightarrow> exn + gate" where
  "gate_market_status x =
     (if ss_status (pi_session x) = UNKNOWN_STATUS then
        record_check ''market_status'' UNKNOWN ''market status unknown'' MARKET_STATUS_UNKNOWN
      else if \<not> is_tradeable (pi_session x) then
        record_check ''market_status'' FAILED (''market '' @ market_status_value (ss_status (pi_session x)))
          MARKET_NOT_OPEN
      else record_passed ''market_status'' ''market OPEN'')"

definition local_now :: "proposal_inputs \<Rightarrow> exn + int \<times> bool" where
  "local_now x = to_local (pi_zone x) (instant_of (pi_evaluated_at x))"

definition in_entry_window :: "trading_configuration \<Rightarrow> int \<Rightarrow> bool" where
  "in_entry_window c t \<longleftrightarrow>
     clock_micros (tc_earliest_entry_time c) \<le> t \<and> t \<le> clock_micros (tc_latest_entry_time c)"

definition gate_entry_window :: "proposal_inputs \<Rightarrow> exn + gate" where
  "gate_entry_window x =
     rbind (local_now x)
     (\<lambda>now. let t = time_of_day (fst now) in
        record_check ''entry_window'' (verdict (in_entry_window (config x) t))
          (''local entry time '' @ iso_time t) OUTSIDE_ENTRY_WINDOW)"

text \<open>
  \<^verbatim>\<open>local_now.replace(hour=..., minute=..., second=..., microsecond=0)\<close> keeps the fold;
  \<^verbatim>\<open>local_now + timedelta(...)\<close> is on the clock of the zone and has no fold. Readings of one zone
  compare by the clock.
\<close>

definition liquidation_reading :: "trading_configuration \<Rightarrow> int \<times> bool \<Rightarrow> int \<times> bool" where
  "liquidation_reading c now =
     (let t = clock_micros (tc_mandatory_liquidation_time c)
      in (fst now - time_of_day (fst now) + (t - t mod 1000000), snd now))"

definition gate_liquidation :: "proposal_inputs \<Rightarrow> exn + gate" where
  "gate_liquidation x =
     rbind (local_now x)
     (\<lambda>now. let deadline = liquidation_reading (config x) now in
        rbind (plus_seconds (fst now) (tc_proposal_expiry_seconds (config x)))
        (\<lambda>dies. record_check ''liquidation_reachable'' (verdict (dies \<le> fst deadline))
           (''mandatory liquidation at '' @ iso_local (pi_zone x) deadline @ '', ''
            @ ''proposal would expire at '' @ iso_local (pi_zone x) (dies, False))
           LIQUIDATION_DEADLINE_UNREACHABLE))"

section \<open>Data quality\<close>

definition gate_feed :: "proposal_inputs \<Rightarrow> exn + gate" where
  "gate_feed x =
     record_check ''market_data_feed'' (verdict (qs_feed_kind (pi_quote x) = REAL_TIME))
       (''quote feed '' @ feed_kind_value (qs_feed_kind (pi_quote x))) MARKET_DATA_NOT_REAL_TIME"

definition gate_quote_age :: "proposal_inputs \<Rightarrow> exn + gate" where
  "gate_quote_age x =
     rbind (quote_age_seconds (pi_quote x) (pi_evaluated_at x))
     (\<lambda>age. record_check ''market_data_age''
        (verdict (dec_le age (dec_of_int (tc_maximum_market_data_age_seconds (config x)))))
        (''quote age '' @ dec_str age @ ''s'') MARKET_DATA_STALE)"

definition gate_evidence_age :: "proposal_inputs \<Rightarrow> exn + gate" where
  "gate_evidence_age x =
     record_check ''evidence_age''
       (verdict (dec_le (pi_evidence_age_seconds x) (dec_of_int (tc_maximum_evidence_age_seconds (config x)))))
       (''evidence age '' @ dec_str (pi_evidence_age_seconds x) @ ''s'') EVIDENCE_STALE"

definition gate_cost_estimate :: "proposal_inputs \<Rightarrow> exn + gate" where
  "gate_cost_estimate x =
     (case pi_cost_estimate x of
        None \<Rightarrow> record_check ''cost_estimate'' UNKNOWN ''no cost estimate supplied'' COST_ESTIMATE_MISSING
      | Some _ \<Rightarrow> record_passed ''cost_estimate'' ''cost estimate present'')"

section \<open>Instrument eligibility\<close>

definition gate_prohibited :: "proposal_inputs \<Rightarrow> exn + gate" where
  "gate_prohibited x =
     record_check ''instrument_not_prohibited''
       (verdict (pi_symbol x \<notin> set (tc_prohibited_instruments (config x))))
       (pi_symbol x @ '' prohibited list membership'') INSTRUMENT_PROHIBITED"

definition gate_watchlisted :: "proposal_inputs \<Rightarrow> exn + gate" where
  "gate_watchlisted x =
     record_check ''instrument_watchlisted'' (verdict (pi_symbol x \<in> set (tc_watchlist (config x))))
       (pi_symbol x @ '' watchlist membership'') INSTRUMENT_NOT_WATCHLISTED"

definition gate_market_permitted :: "proposal_inputs \<Rightarrow> exn + gate" where
  "gate_market_permitted x =
     record_check ''market_permitted''
       (verdict (im_market (pi_instrument x) \<in> set (tc_permitted_markets (config x))))
       (''market '' @ im_market (pi_instrument x)) MARKET_NOT_PERMITTED"

definition currency_matches :: "proposal_inputs \<Rightarrow> bool" where
  "currency_matches x \<longleftrightarrow>
     im_currency (pi_instrument x) = tc_base_currency (config x)
     \<and> tc_base_currency (config x) = as_base_currency (pi_account x)"

definition gate_currency :: "proposal_inputs \<Rightarrow> exn + gate" where
  "gate_currency x =
     record_check ''currency_match'' (verdict (currency_matches x))
       (''instrument '' @ im_currency (pi_instrument x) @ '' / account '' @ as_base_currency (pi_account x))
       CURRENCY_MISMATCH"

definition price_in_bounds :: "trading_configuration \<Rightarrow> decimal \<Rightarrow> bool" where
  "price_in_bounds c p \<longleftrightarrow>
     dec_le (tc_minimum_price c) p
     \<and> (case tc_maximum_price c of None \<Rightarrow> True | Some m \<Rightarrow> dec_le p m)"

definition gate_price :: "proposal_inputs \<Rightarrow> exn + gate" where
  "gate_price x =
     record_check ''price_bounds'' (verdict (price_in_bounds (config x) (qs_last_trade (pi_quote x))))
       (''reference price '' @ dec_str (qs_last_trade (pi_quote x))) PRICE_OUTSIDE_BOUNDS"

definition gate_spread :: "proposal_inputs \<Rightarrow> exn + gate" where
  "gate_spread x =
     rbind (quote_spread_percent (pi_quote x))
     (\<lambda>s. record_check ''spread'' (verdict (dec_le s (tc_maximum_spread_percent (config x))))
        (''spread '' @ dec_str s @ ''%'') SPREAD_TOO_WIDE)"

definition gate_liquidity :: "proposal_inputs \<Rightarrow> exn + gate" where
  "gate_liquidity x =
     record_check ''liquidity''
       (verdict (tc_minimum_liquidity_shares (config x) \<le> ls_average_daily_volume_shares (pi_liquidity x)))
       (''adv '' @ int_str (ls_average_daily_volume_shares (pi_liquidity x))) LIQUIDITY_INSUFFICIENT"

definition gate_slippage :: "proposal_inputs \<Rightarrow> cost_estimate \<Rightarrow> exn + gate" where
  "gate_slippage x ce =
     record_check ''slippage'' (verdict (dec_le (ce_slippage_percent ce) (tc_maximum_slippage_percent (config x))))
       (''slippage '' @ dec_str (ce_slippage_percent ce) @ ''%'') SLIPPAGE_TOO_HIGH"

section \<open>Portfolio conflicts\<close>

definition gate_no_position :: "proposal_inputs \<Rightarrow> exn + gate" where
  "gate_no_position x =
     record_check ''no_existing_position''
       (verdict (\<forall>p \<in> set (pi_positions x). ps_symbol p \<noteq> pi_symbol x))
       (int_str (int (length (pi_positions x))) @ '' open positions'') EXISTING_POSITION_CONFLICT"

definition gate_no_order :: "proposal_inputs \<Rightarrow> exn + gate" where
  "gate_no_order x =
     record_check ''no_open_order''
       (verdict (\<forall>o' \<in> set (pi_open_orders x). oo_symbol o' \<noteq> pi_symbol x))
       (int_str (int (length (pi_open_orders x))) @ '' working orders'') OPEN_ORDER_CONFLICT"

definition gate_position_count :: "proposal_inputs \<Rightarrow> exn + gate" where
  "gate_position_count x =
     record_check ''position_count''
       (verdict (int (length (pi_positions x)) < tc_maximum_simultaneous_positions (config x)))
       (int_str (int (length (pi_positions x))) @ ''/'' @ int_str (tc_maximum_simultaneous_positions (config x))
        @ '' positions'') POSITION_LIMIT_REACHED"

definition gate_daily_loss :: "proposal_inputs \<Rightarrow> exn + gate" where
  "gate_daily_loss x =
     rbind (dec_negate (as_realized_pnl_today (pi_account x)))
     (\<lambda>loss. record_check ''daily_loss'' (verdict (dec_less loss (tc_maximum_daily_loss (config x))))
        (''realized pnl today '' @ dec_str (as_realized_pnl_today (pi_account x))) DAILY_LOSS_LIMIT_REACHED)"

definition gate_daily_orders :: "proposal_inputs \<Rightarrow> exn + gate" where
  "gate_daily_orders x =
     record_check ''daily_order_count''
       (verdict (as_orders_submitted_today (pi_account x) < tc_maximum_daily_order_count (config x)))
       (int_str (as_orders_submitted_today (pi_account x)) @ '' orders today'') DAILY_ORDER_LIMIT_REACHED"

text \<open>Every gate before the sizing.\<close>

definition eligibility_gates :: "proposal_inputs \<Rightarrow> (exn + gate) list" where
  "eligibility_gates x =
     [gate_kill_switch x, gate_market_status x, gate_entry_window x, gate_liquidation x, gate_feed x,
      gate_quote_age x, gate_evidence_age x, gate_cost_estimate x, gate_prohibited x, gate_watchlisted x,
      gate_market_permitted x, gate_currency x, gate_price x, gate_spread x, gate_liquidity x]
     @ (case pi_cost_estimate x of None \<Rightarrow> [] | Some ce \<Rightarrow> [gate_slippage x ce])
     @ [gate_no_position x, gate_no_order x, gate_position_count x, gate_daily_loss x, gate_daily_orders x]"

section \<open>Sizing\<close>

definition cent :: int where "cent = - 2"

definition to_cents :: "decimal \<Rightarrow> exn + decimal" where
  "to_cents = dec_quantize ROUND_HALF_EVEN cent"

definition limit_price :: "quote_snapshot \<Rightarrow> limit_price_policy \<Rightarrow> exn + decimal" where
  "limit_price q policy =
     (case policy of
        LAST_TRADE \<Rightarrow> to_cents (qs_last_trade q)
      | MID_QUOTE \<Rightarrow> rbind (quote_mid q) to_cents
      | ASK \<Rightarrow> to_cents (qs_ask q))"

definition deployable_capital :: "trading_configuration \<Rightarrow> exn + decimal" where
  "deployable_capital c =
     rbind (dec_mul (tc_maximum_deployable_capital c) (tc_maximum_percent_per_trade c))
     (\<lambda>p. rbind (dec_div p (dec_of_int 100))
     (\<lambda>share. Inr (dec_min (tc_maximum_capital_per_trade c) share)))"

definition sized_quantity :: "decimal \<Rightarrow> decimal \<Rightarrow> int \<Rightarrow> exn + int" where
  "sized_quantity budget entry_price lot_size =
     (if dec_less (dec_of_int 0) entry_price \<and> dec_less (dec_of_int 0) budget then
        rbind (dec_div budget entry_price)
        (\<lambda>ratio. rbind (dec_div (dec_to_integral ROUND_DOWN ratio) (dec_of_int lot_size))
        (\<lambda>lots. rbind (dec_int (dec_to_integral ROUND_DOWN lots))
        (\<lambda>n. Inr (n * lot_size))))
      else Inr 0)"

record sizing =
  sz_limit_price :: decimal
  sz_entry_price :: decimal
  sz_quantity :: int
  sz_notional :: decimal
  sz_fees :: decimal
  sz_slippage :: decimal
  sz_total_cash :: decimal

definition zero_cents :: decimal where "zero_cents = Dec False 0 (- 2)"

definition costs :: "cost_estimate option \<Rightarrow> decimal \<Rightarrow> exn + decimal \<times> decimal" where
  "costs ce notional =
     (case ce of
        None \<Rightarrow> Inr (zero_cents, zero_cents)
      | Some c \<Rightarrow>
          rbind (to_cents (ce_commission c))
          (\<lambda>fees. rbind (dec_mul notional (ce_slippage_percent c))
          (\<lambda>m. rbind (dec_div m (dec_of_int 100))
          (\<lambda>d. rbind (to_cents d) (\<lambda>slippage. Inr (fees, slippage))))))"

definition sizing_gates :: "proposal_inputs \<Rightarrow> exn + gate list \<times> sizing" where
  "sizing_gates x =
     rbind (deployable_capital (config x))
     (\<lambda>deployable. rbind (dec_sub (as_cash_available (pi_account x)) (tc_minimum_cash_reserve (config x)))
     (\<lambda>spendable. rbind (record_check ''cash_reserve'' (verdict (dec_less (dec_of_int 0) spendable))
          (''cash '' @ dec_str (as_cash_available (pi_account x)) @ '' reserve ''
           @ dec_str (tc_minimum_cash_reserve (config x))) CASH_RESERVE_BREACHED)
     (\<lambda>g1. let budget = dec_min deployable (dec_max spendable (dec_of_int 0)) in
     rbind (limit_price (pi_quote x) (tc_limit_price_policy (config x)))
     (\<lambda>limit. let entry = (if tc_default_order_type (config x) = LIMIT then limit else qs_ask (pi_quote x)) in
     rbind (sized_quantity budget entry (im_lot_size (pi_instrument x)))
     (\<lambda>quantity. rbind (record_check ''sized_quantity'' (verdict (0 < quantity))
          (''derived quantity '' @ int_str quantity @ '' from budget '' @ dec_str budget)
          QUANTITY_ZERO_AFTER_SIZING)
     (\<lambda>g2. rbind (rbind (dec_mul (dec_of_int quantity) entry) to_cents)
     (\<lambda>notional. rbind (costs (pi_cost_estimate x) notional)
     (\<lambda>(fees, slippage). rbind (rbind (dec_add notional fees) (\<lambda>s. dec_add s slippage))
     (\<lambda>total. rbind (record_check ''cash_sufficient'' (verdict (dec_le total spendable))
          (''total cash required '' @ dec_str total) CASH_INSUFFICIENT)
     (\<lambda>g3. Inr ([g1, g2, g3],
        \<lparr>sz_limit_price = limit, sz_entry_price = entry, sz_quantity = quantity, sz_notional = notional,
         sz_fees = fees, sz_slippage = slippage, sz_total_cash = total\<rparr>)))))))))))"

section \<open>The evaluation\<close>

datatype proposal_outcome =
  Proposal trade_proposal "risk_check list"
| NoTrade no_trade_reason "risk_check list"

definition reasons_of :: "gate list \<Rightarrow> no_trade_reason list" where
  "reasons_of gs = List.map_filter snd gs"

text \<open>\<^verbatim>\<open>entry_price * (Decimal("100") - percent) / Decimal("100")\<close> to the cent, and with a plus.\<close>

definition exit_price :: "decimal \<Rightarrow> exn + decimal \<Rightarrow> exn + decimal" where
  "exit_price entry factor =
     rbind factor (\<lambda>f. rbind (dec_mul entry f) (\<lambda>m. rbind (dec_div m (dec_of_int 100)) to_cents))"

definition input_checks :: "proposal_inputs \<Rightarrow> exn + unit" where
  "input_checks x =
     all_checks
       [require (is_aware (pi_evaluated_at x)) ''evaluated_at must be a timezone-aware datetime'',
        rbind (comparable (pi_evidence_age_seconds x))
          (\<lambda>_. require (\<not> dec_less (pi_evidence_age_seconds x) (dec_of_int 0))
             ''evidence_age_seconds must be a non-negative Decimal''),
        require (canonical (pi_symbol x)) ''symbol must be upper-case and unpadded'',
        require (qs_symbol (pi_quote x) = pi_symbol x \<and> im_symbol (pi_instrument x) = pi_symbol x
                 \<and> ls_symbol (pi_liquidity x) = pi_symbol x)
          ''every snapshot must describe the requested symbol'']"

definition order_terms ::
    "proposal_inputs \<Rightarrow> sizing \<Rightarrow> decimal \<Rightarrow> decimal \<Rightarrow> int \<Rightarrow> int \<Rightarrow> authorized_terms" where
  "order_terms x sz stop_loss profit_exit liquidation_at expires =
     \<lparr>at_proposal_id = pi_proposal_id x, at_proposal_version = 1, at_context_id = pi_context_id x,
      at_configuration_id = tc_governance_id (config x), at_configuration_version = tc_version (config x),
      at_symbol = pi_symbol x, at_side = ''BUY'', at_quantity = sz_quantity sz,
      at_order_type = tc_default_order_type (config x),
      at_limit_price = (if tc_default_order_type (config x) = LIMIT then Some (sz_limit_price sz) else None),
      at_currency = tc_base_currency (config x), at_notional = sz_notional sz, at_fees = sz_fees sz,
      at_slippage_amount = sz_slippage sz, at_total_cash = sz_total_cash sz,
      at_stop_loss_price = stop_loss, at_profit_exit_price = profit_exit,
      at_mandatory_liquidation_at = Aware liquidation_at, at_expires_at = Aware expires\<rparr>"

definition assemble ::
    "proposal_inputs \<Rightarrow> sizing \<Rightarrow> decimal \<Rightarrow> decimal \<Rightarrow> int \<Rightarrow> int \<Rightarrow> risk_check list \<Rightarrow> exn + trade_proposal" where
  "assemble x sz stop_loss profit_exit liquidation_at created_at checks =
     rbind (plus_seconds created_at (tc_proposal_expiry_seconds (config x)))
     (\<lambda>expires. let terms = order_terms x sz stop_loss profit_exit liquidation_at expires in
      rbind (fingerprint_digest terms)
      (\<lambda>digest. make_proposal (authorized_terms.extend terms
         (trade_proposal.fields (Aware created_at) PREPARED checks digest))))"

definition evaluate_trade_proposal :: "proposal_inputs \<Rightarrow> exn + proposal_outcome" where
  "evaluate_trade_proposal x =
     rbind (input_checks x)
     (\<lambda>_. rbind (rmap (\<lambda>g. g) (eligibility_gates x))
     (\<lambda>gates. rbind (sizing_gates x)
     (\<lambda>(more, sz). let checks = map fst (gates @ more) in
       case reasons_of (gates @ more) of
         r # rs \<Rightarrow> Inr (NoTrade (first_reason r rs) checks)
       | [] \<Rightarrow>
           rbind (exit_price (sz_entry_price sz) (dec_sub (dec_of_int 100) (tc_stop_loss_percent (config x))))
           (\<lambda>stop_loss. rbind (exit_price (sz_entry_price sz)
                          (dec_add (dec_of_int 100) (tc_profit_exit_percent (config x))))
           (\<lambda>profit_exit. rbind (rbind (local_now x)
                (\<lambda>now. from_local (pi_zone x) (liquidation_reading (config x) now)))
           (\<lambda>liquidation_at. rbind (assemble x sz stop_loss profit_exit liquidation_at
                (instant_of (pi_evaluated_at x)) checks)
           (\<lambda>p. Inr (Proposal p checks))))))))"

end
