(* ===== verification/Proposal_Facts.thy ===== *)
theory Proposal_Facts
  imports Proposal_Engine
begin

text \<open>
  What the proposal engine guarantees: which conditions hold when it proposes, which reason it
  gives when it declines, what the sized order may cost, and what the fingerprint binds.
\<close>

section \<open>Gates\<close>

lemma record_check_Inr [result_eqs]:
  "record_check i outcome detail reason = Inr g \<longleftrightarrow>
     make_risk_check i outcome detail = Inr (fst g) \<and> snd g = (if outcome \<noteq> PASSED then Some reason else None)"
  by (cases g) (auto simp: record_check_def rbind_eq_Inr)

lemma record_passed_Inr [result_eqs]:
  "record_passed i detail = Inr g \<longleftrightarrow> make_risk_check i PASSED detail = Inr (fst g) \<and> snd g = None"
  by (cases g) (auto simp: record_passed_def rbind_eq_Inr)

lemma make_risk_check_Inr:
  "make_risk_check i outcome detail = Inr c \<Longrightarrow> rc_check_id c = i \<and> rc_outcome c = outcome \<and> rc_detail c = detail"
  by (auto simp: make_risk_check_def rbind_eq_Inr)

text \<open>A gate that gives no reason passed, and what it tests holds.\<close>

definition passes :: "gate \<Rightarrow> bool" where
  "passes g \<longleftrightarrow> snd g = None"

lemma verdict_passes [simp]:
  "((if verdict c \<noteq> PASSED then Some r else None) = None) \<longleftrightarrow> c"
  by simp

lemmas gate_defs =
  gate_kill_switch_def gate_market_status_def gate_entry_window_def gate_liquidation_def gate_feed_def
  gate_quote_age_def gate_evidence_age_def gate_cost_estimate_def gate_prohibited_def gate_watchlisted_def
  gate_market_permitted_def gate_currency_def gate_price_def gate_spread_def gate_liquidity_def
  gate_slippage_def gate_no_position_def gate_no_order_def gate_position_count_def gate_daily_loss_def
  gate_daily_orders_def

lemma map_filter_snd_Nil: "reasons_of gs = [] \<longleftrightarrow> (\<forall>g \<in> set gs. passes g)"
  by (induction gs) (auto simp: reasons_of_def passes_def map_filter_simps split: option.splits)

lemma reasons_of_set: "r \<in> set (reasons_of gs) \<longleftrightarrow> (\<exists>g \<in> set gs. snd g = Some r)"
  by (induction gs) (auto simp: reasons_of_def map_filter_simps split: option.splits)

text \<open>What every gate tests, as conditions on the inputs.\<close>

definition market_ready :: "proposal_inputs \<Rightarrow> bool" where
  "market_ready x \<longleftrightarrow>
     tc_kill_switch (config x) = DISENGAGED \<and> ss_status (pi_session x) = MARKET_OPEN
     \<and> (\<exists>now dies. local_now x = Inr now \<and> in_entry_window (config x) (time_of_day (fst now))
          \<and> plus_seconds (fst now) (tc_proposal_expiry_seconds (config x)) = Inr dies
          \<and> dies \<le> fst (liquidation_reading (config x) now))"

definition data_fresh :: "proposal_inputs \<Rightarrow> bool" where
  "data_fresh x \<longleftrightarrow>
     qs_feed_kind (pi_quote x) = REAL_TIME
     \<and> (\<exists>age. quote_age_seconds (pi_quote x) (pi_evaluated_at x) = Inr age
          \<and> dec_le age (dec_of_int (tc_maximum_market_data_age_seconds (config x))))
     \<and> dec_le (pi_evidence_age_seconds x) (dec_of_int (tc_maximum_evidence_age_seconds (config x)))
     \<and> pi_cost_estimate x \<noteq> None"

definition instrument_eligible :: "proposal_inputs \<Rightarrow> bool" where
  "instrument_eligible x \<longleftrightarrow>
     pi_symbol x \<notin> set (tc_prohibited_instruments (config x)) \<and> pi_symbol x \<in> set (tc_watchlist (config x))
     \<and> im_market (pi_instrument x) \<in> set (tc_permitted_markets (config x)) \<and> currency_matches x
     \<and> price_in_bounds (config x) (qs_last_trade (pi_quote x))
     \<and> (\<exists>s. quote_spread_percent (pi_quote x) = Inr s \<and> dec_le s (tc_maximum_spread_percent (config x)))
     \<and> tc_minimum_liquidity_shares (config x) \<le> ls_average_daily_volume_shares (pi_liquidity x)
     \<and> (\<forall>ce. pi_cost_estimate x = Some ce \<longrightarrow> dec_le (ce_slippage_percent ce) (tc_maximum_slippage_percent (config x)))"

definition portfolio_free :: "proposal_inputs \<Rightarrow> bool" where
  "portfolio_free x \<longleftrightarrow>
     (\<forall>p \<in> set (pi_positions x). ps_symbol p \<noteq> pi_symbol x)
     \<and> (\<forall>o' \<in> set (pi_open_orders x). oo_symbol o' \<noteq> pi_symbol x)
     \<and> int (length (pi_positions x)) < tc_maximum_simultaneous_positions (config x)
     \<and> (\<exists>loss. dec_negate (as_realized_pnl_today (pi_account x)) = Inr loss
          \<and> dec_less loss (tc_maximum_daily_loss (config x)))
     \<and> as_orders_submitted_today (pi_account x) < tc_maximum_daily_order_count (config x)"

lemma rmap_id_Inr: "rmap (\<lambda>g. g) xs = Inr ys \<longleftrightarrow> xs = map Inr ys"
proof (induction xs arbitrary: ys)
  case (Cons x xs)
  then show ?case by (cases ys) (auto simp: rbind_eq_Inr)
qed auto

lemma eligibility_conditions:
  assumes "rmap (\<lambda>g. g) (eligibility_gates x) = Inr gs" "\<forall>g \<in> set gs. passes g"
  shows "market_ready x \<and> data_fresh x \<and> instrument_eligible x \<and> portfolio_free x"
proof -
  have gates: "\<exists>g. passes g \<and> gate = Inr g" if "gate \<in> set (eligibility_gates x)" for gate
    using assms that by (auto simp: rmap_id_Inr)
  have "\<exists>g. passes g \<and> gate_kill_switch x = Inr g" "\<exists>g. passes g \<and> gate_market_status x = Inr g"
    "\<exists>g. passes g \<and> gate_entry_window x = Inr g" "\<exists>g. passes g \<and> gate_liquidation x = Inr g"
    using gates by (auto simp: eligibility_gates_def)
  then have "market_ready x"
    by (auto simp: market_ready_def gate_defs result_eqs passes_def Let_def is_tradeable_def split: if_splits)
  moreover have "\<exists>g. passes g \<and> gate_feed x = Inr g" "\<exists>g. passes g \<and> gate_quote_age x = Inr g"
    "\<exists>g. passes g \<and> gate_evidence_age x = Inr g" "\<exists>g. passes g \<and> gate_cost_estimate x = Inr g"
    using gates by (auto simp: eligibility_gates_def)
  then have "data_fresh x"
    by (auto simp: data_fresh_def gate_defs result_eqs passes_def split: if_splits option.splits)
  moreover have "\<exists>g. passes g \<and> gate_prohibited x = Inr g" "\<exists>g. passes g \<and> gate_watchlisted x = Inr g"
    "\<exists>g. passes g \<and> gate_market_permitted x = Inr g" "\<exists>g. passes g \<and> gate_currency x = Inr g"
    "\<exists>g. passes g \<and> gate_price x = Inr g" "\<exists>g. passes g \<and> gate_spread x = Inr g"
    "\<exists>g. passes g \<and> gate_liquidity x = Inr g"
    "\<And>ce. pi_cost_estimate x = Some ce \<Longrightarrow> \<exists>g. passes g \<and> gate_slippage x ce = Inr g"
    using gates by (auto simp: eligibility_gates_def)
  then have "instrument_eligible x"
    by (auto simp: instrument_eligible_def gate_defs result_eqs passes_def split: if_splits)
  moreover have "\<exists>g. passes g \<and> gate_no_position x = Inr g" "\<exists>g. passes g \<and> gate_no_order x = Inr g"
    "\<exists>g. passes g \<and> gate_position_count x = Inr g" "\<exists>g. passes g \<and> gate_daily_loss x = Inr g"
    "\<exists>g. passes g \<and> gate_daily_orders x = Inr g"
    using gates by (auto simp: eligibility_gates_def)
  then have "portfolio_free x"
    by (auto simp: portfolio_free_def gate_defs result_eqs passes_def split: if_splits)
  ultimately show ?thesis by blast
qed

section \<open>Sizing\<close>

definition sizing_of :: "proposal_inputs \<Rightarrow> decimal \<Rightarrow> decimal \<Rightarrow> sizing \<Rightarrow> bool" where
  "sizing_of x deployable spendable sz \<longleftrightarrow>
     deployable_capital (config x) = Inr deployable
     \<and> dec_sub (as_cash_available (pi_account x)) (tc_minimum_cash_reserve (config x)) = Inr spendable
     \<and> limit_price (pi_quote x) (tc_limit_price_policy (config x)) = Inr (sz_limit_price sz)
     \<and> sz_entry_price sz = (if tc_default_order_type (config x) = LIMIT then sz_limit_price sz else qs_ask (pi_quote x))
     \<and> sized_quantity (dec_min deployable (dec_max spendable (dec_of_int 0))) (sz_entry_price sz)
         (im_lot_size (pi_instrument x)) = Inr (sz_quantity sz)
     \<and> rbind (dec_mul (dec_of_int (sz_quantity sz)) (sz_entry_price sz)) to_cents = Inr (sz_notional sz)
     \<and> costs (pi_cost_estimate x) (sz_notional sz) = Inr (sz_fees sz, sz_slippage sz)
     \<and> rbind (dec_add (sz_notional sz) (sz_fees sz)) (\<lambda>s. dec_add s (sz_slippage sz)) = Inr (sz_total_cash sz)"

definition affordable :: "decimal \<Rightarrow> sizing \<Rightarrow> bool" where
  "affordable spendable sz \<longleftrightarrow>
     dec_less (dec_of_int 0) spendable \<and> 0 < sz_quantity sz \<and> dec_le (sz_total_cash sz) spendable"

definition reason_unless :: "bool \<Rightarrow> no_trade_reason \<Rightarrow> no_trade_reason option" where
  "reason_unless c r = (if c then None else Some r)"

lemma reason_unless_eq [simp]:
  "reason_unless c r = None \<longleftrightarrow> c" "reason_unless c r = Some r' \<longleftrightarrow> r' = r \<and> \<not> c"
  by (auto simp: reason_unless_def)

lemma sizing_gates_Inr:
  assumes "sizing_gates x = Inr (gs, sz)"
  shows "\<exists>deployable spendable g1 g2 g3. sizing_of x deployable spendable sz \<and> gs = [g1, g2, g3]
     \<and> snd g1 = reason_unless (dec_less (dec_of_int 0) spendable) CASH_RESERVE_BREACHED
     \<and> snd g2 = reason_unless (0 < sz_quantity sz) QUANTITY_ZERO_AFTER_SIZING
     \<and> snd g3 = reason_unless (dec_le (sz_total_cash sz) spendable) CASH_INSUFFICIENT"
proof -
  from assms obtain deployable spendable g1 limit quantity g2 notional fees slippage total g3 where
    "deployable_capital (config x) = Inr deployable"
    "dec_sub (as_cash_available (pi_account x)) (tc_minimum_cash_reserve (config x)) = Inr spendable"
    "snd g1 = (if verdict (dec_less (dec_of_int 0) spendable) \<noteq> PASSED then Some CASH_RESERVE_BREACHED else None)"
    "limit_price (pi_quote x) (tc_limit_price_policy (config x)) = Inr limit"
    "sized_quantity (dec_min deployable (dec_max spendable (dec_of_int 0)))
       (if tc_default_order_type (config x) = LIMIT then limit else qs_ask (pi_quote x))
       (im_lot_size (pi_instrument x)) = Inr quantity"
    "snd g2 = (if verdict (0 < quantity) \<noteq> PASSED then Some QUANTITY_ZERO_AFTER_SIZING else None)"
    "rbind (dec_mul (dec_of_int quantity)
       (if tc_default_order_type (config x) = LIMIT then limit else qs_ask (pi_quote x))) to_cents = Inr notional"
    "costs (pi_cost_estimate x) notional = Inr (fees, slippage)"
    "rbind (dec_add notional fees) (\<lambda>s. dec_add s slippage) = Inr total"
    "snd g3 = (if verdict (dec_le total spendable) \<noteq> PASSED then Some CASH_INSUFFICIENT else None)"
    "gs = [g1, g2, g3]"
    "sz = \<lparr>sz_limit_price = limit,
         sz_entry_price = (if tc_default_order_type (config x) = LIMIT then limit else qs_ask (pi_quote x)),
         sz_quantity = quantity, sz_notional = notional,
         sz_fees = fees, sz_slippage = slippage, sz_total_cash = total\<rparr>"
    unfolding sizing_gates_def Let_def rbind_eq_Inr[of "deployable_capital (config x)"]
    by (auto simp: rbind_eq_Inr[of "dec_sub a b" for a b] rbind_eq_Inr[of "record_check a b c d" for a b c d]
        rbind_eq_Inr[of "limit_price a b" for a b] rbind_eq_Inr[of "sized_quantity a b c" for a b c]
        rbind_eq_Inr[of "costs a b" for a b] rbind_eq_Inr[of "rbind a b" for a b] record_check_Inr
        simp del: verdict_passes split: prod.splits)
  then show ?thesis
    by (intro exI[of _ deployable] exI[of _ spendable] exI[of _ g1] exI[of _ g2] exI[of _ g3])
      (auto simp: sizing_of_def reason_unless_def)
qed

lemma sizing_gates_pass:
  assumes "sizing_gates x = Inr (gs, sz)"
  shows "\<exists>deployable spendable. sizing_of x deployable spendable sz
     \<and> ((\<forall>g \<in> set gs. passes g) \<longleftrightarrow> affordable spendable sz)"
  using sizing_gates_Inr[OF assms] by (fastforce simp: affordable_def passes_def)

section \<open>Outcomes\<close>

lemma evaluate_Inr:
  assumes "evaluate_trade_proposal x = Inr outcome"
  shows "\<exists>gs more sz. input_checks x = Inr () \<and> rmap (\<lambda>g. g) (eligibility_gates x) = Inr gs
     \<and> sizing_gates x = Inr (more, sz)
     \<and> (case outcome of
          NoTrade r checks \<Rightarrow> checks = map fst (gs @ more)
            \<and> (\<exists>r0 rs. reasons_of (gs @ more) = r0 # rs \<and> r = first_reason r0 rs)
        | Proposal p checks \<Rightarrow> checks = map fst (gs @ more) \<and> reasons_of (gs @ more) = []
            \<and> (\<exists>stop_loss profit_exit liquidation_at.
                 exit_price (sz_entry_price sz) (dec_sub (dec_of_int 100) (tc_stop_loss_percent (config x))) = Inr stop_loss
                 \<and> exit_price (sz_entry_price sz) (dec_add (dec_of_int 100) (tc_profit_exit_percent (config x))) = Inr profit_exit
                 \<and> rbind (local_now x) (\<lambda>now. from_local (pi_zone x) (liquidation_reading (config x) now))
                     = Inr liquidation_at
                 \<and> assemble x sz stop_loss profit_exit liquidation_at (instant_of (pi_evaluated_at x)) checks = Inr p))"
proof -
  from assms obtain gs more sz where
    parts: "input_checks x = Inr ()" "rmap (\<lambda>g. g) (eligibility_gates x) = Inr gs" "sizing_gates x = Inr (more, sz)"
    unfolding evaluate_trade_proposal_def by (auto simp: rbind_eq_Inr split: prod.splits)
  show ?thesis
  proof (cases "reasons_of (gs @ more)")
    case Nil
    with assms parts show ?thesis
      unfolding evaluate_trade_proposal_def
      by (intro exI[of _ gs] exI[of _ more] exI[of _ sz]) (auto simp: rbind_eq_Inr Let_def)
  next
    case (Cons r rs)
    with assms parts show ?thesis
      unfolding evaluate_trade_proposal_def
      by (intro exI[of _ gs] exI[of _ more] exI[of _ sz]) (auto simp: rbind_eq_Inr Let_def)
  qed
qed

text \<open>The terms of an assembled proposal are the sized order's and the configuration's.\<close>

definition carries :: "proposal_inputs \<Rightarrow> sizing \<Rightarrow> trade_proposal \<Rightarrow> bool" where
  "carries x sz p \<longleftrightarrow>
     at_proposal_id p = pi_proposal_id x \<and> at_context_id p = pi_context_id x
     \<and> at_configuration_id p = tc_governance_id (config x) \<and> at_configuration_version p = tc_version (config x)
     \<and> at_symbol p = pi_symbol x \<and> at_side p = ''BUY'' \<and> at_quantity p = sz_quantity sz
     \<and> at_order_type p = tc_default_order_type (config x)
     \<and> at_limit_price p = (if tc_default_order_type (config x) = LIMIT then Some (sz_limit_price sz) else None)
     \<and> at_currency p = tc_base_currency (config x) \<and> at_notional p = sz_notional sz \<and> at_fees p = sz_fees sz
     \<and> at_slippage_amount p = sz_slippage sz \<and> at_total_cash p = sz_total_cash sz
     \<and> tp_status p = PREPARED \<and> tp_created_at p = Aware (instant_of (pi_evaluated_at x))
     \<and> proposal_checks p = Inr ()"

lemma assemble_Inr:
  assumes "assemble x sz stop_loss profit_exit liquidation_at (instant_of (pi_evaluated_at x)) checks = Inr p"
  shows "carries x sz p \<and> tp_risk_checks p = checks
     \<and> at_stop_loss_price p = stop_loss \<and> at_profit_exit_price p = profit_exit
     \<and> at_mandatory_liquidation_at p = Aware liquidation_at"
  using assms
  by (auto simp: assemble_def order_terms_def rbind_eq_Inr Let_def make_proposal_def carries_def
      authorized_terms.extend_def trade_proposal.fields_def)

section \<open>Objections\<close>

text \<open>
  The reference reading of the reasons: what each says about the inputs. A quantity that cannot be
  computed raises and is no objection.
\<close>

definition objection :: "proposal_inputs \<Rightarrow> no_trade_reason \<Rightarrow> bool" where
  "objection x r \<longleftrightarrow>
     (case r of
        KILL_SWITCH_ENGAGED \<Rightarrow> tc_kill_switch (config x) = ENGAGED
      | MARKET_STATUS_UNKNOWN \<Rightarrow> ss_status (pi_session x) = UNKNOWN_STATUS
      | MARKET_NOT_OPEN \<Rightarrow> ss_status (pi_session x) \<notin> {MARKET_OPEN, UNKNOWN_STATUS}
      | OUTSIDE_ENTRY_WINDOW \<Rightarrow>
          \<exists>now. local_now x = Inr now \<and> \<not> in_entry_window (config x) (time_of_day (fst now))
      | LIQUIDATION_DEADLINE_UNREACHABLE \<Rightarrow>
          \<exists>now dies. local_now x = Inr now
            \<and> plus_seconds (fst now) (tc_proposal_expiry_seconds (config x)) = Inr dies
            \<and> fst (liquidation_reading (config x) now) < dies
      | MARKET_DATA_NOT_REAL_TIME \<Rightarrow> qs_feed_kind (pi_quote x) \<noteq> REAL_TIME
      | MARKET_DATA_STALE \<Rightarrow>
          \<exists>age. quote_age_seconds (pi_quote x) (pi_evaluated_at x) = Inr age
            \<and> \<not> dec_le age (dec_of_int (tc_maximum_market_data_age_seconds (config x)))
      | EVIDENCE_STALE \<Rightarrow>
          \<not> dec_le (pi_evidence_age_seconds x) (dec_of_int (tc_maximum_evidence_age_seconds (config x)))
      | COST_ESTIMATE_MISSING \<Rightarrow> pi_cost_estimate x = None
      | INSTRUMENT_PROHIBITED \<Rightarrow> pi_symbol x \<in> set (tc_prohibited_instruments (config x))
      | INSTRUMENT_NOT_WATCHLISTED \<Rightarrow> pi_symbol x \<notin> set (tc_watchlist (config x))
      | MARKET_NOT_PERMITTED \<Rightarrow> im_market (pi_instrument x) \<notin> set (tc_permitted_markets (config x))
      | CURRENCY_MISMATCH \<Rightarrow> \<not> currency_matches x
      | PRICE_OUTSIDE_BOUNDS \<Rightarrow> \<not> price_in_bounds (config x) (qs_last_trade (pi_quote x))
      | SPREAD_TOO_WIDE \<Rightarrow>
          \<exists>s. quote_spread_percent (pi_quote x) = Inr s \<and> \<not> dec_le s (tc_maximum_spread_percent (config x))
      | LIQUIDITY_INSUFFICIENT \<Rightarrow>
          ls_average_daily_volume_shares (pi_liquidity x) < tc_minimum_liquidity_shares (config x)
      | SLIPPAGE_TOO_HIGH \<Rightarrow>
          \<exists>ce. pi_cost_estimate x = Some ce
            \<and> \<not> dec_le (ce_slippage_percent ce) (tc_maximum_slippage_percent (config x))
      | EXISTING_POSITION_CONFLICT \<Rightarrow> \<exists>p \<in> set (pi_positions x). ps_symbol p = pi_symbol x
      | OPEN_ORDER_CONFLICT \<Rightarrow> \<exists>o' \<in> set (pi_open_orders x). oo_symbol o' = pi_symbol x
      | POSITION_LIMIT_REACHED \<Rightarrow>
          tc_maximum_simultaneous_positions (config x) \<le> int (length (pi_positions x))
      | DAILY_LOSS_LIMIT_REACHED \<Rightarrow>
          \<exists>loss. dec_negate (as_realized_pnl_today (pi_account x)) = Inr loss
            \<and> \<not> dec_less loss (tc_maximum_daily_loss (config x))
      | DAILY_ORDER_LIMIT_REACHED \<Rightarrow>
          tc_maximum_daily_order_count (config x) \<le> as_orders_submitted_today (pi_account x)
      | CASH_RESERVE_BREACHED \<Rightarrow>
          \<exists>deployable spendable sz. sizing_of x deployable spendable sz \<and> \<not> dec_less (dec_of_int 0) spendable
      | QUANTITY_ZERO_AFTER_SIZING \<Rightarrow>
          \<exists>deployable spendable sz. sizing_of x deployable spendable sz \<and> \<not> 0 < sz_quantity sz
      | CASH_INSUFFICIENT \<Rightarrow>
          \<exists>deployable spendable sz. sizing_of x deployable spendable sz \<and> \<not> dec_le (sz_total_cash sz) spendable
      | NO_ELIGIBLE_CANDIDATE \<Rightarrow> False)"

lemma recorded_reason:
  "record_check i (verdict c) detail reason = Inr g \<Longrightarrow> snd g = Some r \<longleftrightarrow> r = reason \<and> \<not> c"
  by (auto simp: result_eqs)

text \<open>The reasons a gate can give are exactly its own, and exactly when the reading objects.\<close>

definition gives :: "gate \<Rightarrow> proposal_inputs \<Rightarrow> no_trade_reason set \<Rightarrow> bool" where
  "gives g x rs \<longleftrightarrow> (\<forall>r. snd g = Some r \<longleftrightarrow> r \<in> rs \<and> objection x r)"

lemma gives_recorded:
  "record_check i (verdict c) detail reason = Inr g \<Longrightarrow> objection x reason = (\<not> c) \<Longrightarrow> gives g x {reason}"
  by (auto simp: gives_def recorded_reason)

lemma gate_kill_switch_gives: "gate_kill_switch x = Inr g \<Longrightarrow> gives g x {KILL_SWITCH_ENGAGED}"
  unfolding gate_kill_switch_def
  by (erule gives_recorded) (cases "tc_kill_switch (config x)"; simp add: objection_def)

lemma gate_market_status_gives:
  "gate_market_status x = Inr g \<Longrightarrow> gives g x {MARKET_STATUS_UNKNOWN, MARKET_NOT_OPEN}"
  by (auto simp: gate_market_status_def gives_def objection_def is_tradeable_def result_eqs split: if_splits)

lemma gate_entry_window_gives: "gate_entry_window x = Inr g \<Longrightarrow> gives g x {OUTSIDE_ENTRY_WINDOW}"
  by (auto simp: gate_entry_window_def Let_def rbind_eq_Inr objection_def elim!: gives_recorded)

lemma gate_liquidation_gives: "gate_liquidation x = Inr g \<Longrightarrow> gives g x {LIQUIDATION_DEADLINE_UNREACHABLE}"
  by (auto simp: gate_liquidation_def Let_def rbind_eq_Inr objection_def elim!: gives_recorded)

lemma gate_feed_gives: "gate_feed x = Inr g \<Longrightarrow> gives g x {MARKET_DATA_NOT_REAL_TIME}"
  by (auto simp: gate_feed_def objection_def elim!: gives_recorded)

lemma gate_quote_age_gives: "gate_quote_age x = Inr g \<Longrightarrow> gives g x {MARKET_DATA_STALE}"
  by (auto simp: gate_quote_age_def rbind_eq_Inr objection_def elim!: gives_recorded)

lemma gate_evidence_age_gives: "gate_evidence_age x = Inr g \<Longrightarrow> gives g x {EVIDENCE_STALE}"
  by (auto simp: gate_evidence_age_def objection_def elim!: gives_recorded)

lemma gate_cost_estimate_gives: "gate_cost_estimate x = Inr g \<Longrightarrow> gives g x {COST_ESTIMATE_MISSING}"
  by (auto simp: gate_cost_estimate_def gives_def objection_def result_eqs split: option.splits)

lemma gate_prohibited_gives: "gate_prohibited x = Inr g \<Longrightarrow> gives g x {INSTRUMENT_PROHIBITED}"
  by (auto simp: gate_prohibited_def objection_def elim!: gives_recorded)

lemma gate_watchlisted_gives: "gate_watchlisted x = Inr g \<Longrightarrow> gives g x {INSTRUMENT_NOT_WATCHLISTED}"
  by (auto simp: gate_watchlisted_def objection_def elim!: gives_recorded)

lemma gate_market_permitted_gives: "gate_market_permitted x = Inr g \<Longrightarrow> gives g x {MARKET_NOT_PERMITTED}"
  by (auto simp: gate_market_permitted_def objection_def elim!: gives_recorded)

lemma gate_currency_gives: "gate_currency x = Inr g \<Longrightarrow> gives g x {CURRENCY_MISMATCH}"
  by (auto simp: gate_currency_def objection_def elim!: gives_recorded)

lemma gate_price_gives: "gate_price x = Inr g \<Longrightarrow> gives g x {PRICE_OUTSIDE_BOUNDS}"
  by (auto simp: gate_price_def objection_def elim!: gives_recorded)

lemma gate_spread_gives: "gate_spread x = Inr g \<Longrightarrow> gives g x {SPREAD_TOO_WIDE}"
  by (auto simp: gate_spread_def rbind_eq_Inr objection_def elim!: gives_recorded)

lemma gate_liquidity_gives: "gate_liquidity x = Inr g \<Longrightarrow> gives g x {LIQUIDITY_INSUFFICIENT}"
  by (auto simp: gate_liquidity_def objection_def elim!: gives_recorded)

lemma gate_slippage_gives:
  "gate_slippage x ce = Inr g \<Longrightarrow> pi_cost_estimate x = Some ce \<Longrightarrow> gives g x {SLIPPAGE_TOO_HIGH}"
  by (auto simp: gate_slippage_def objection_def elim!: gives_recorded)

lemma gate_no_position_gives: "gate_no_position x = Inr g \<Longrightarrow> gives g x {EXISTING_POSITION_CONFLICT}"
  by (auto simp: gate_no_position_def objection_def elim!: gives_recorded)

lemma gate_no_order_gives: "gate_no_order x = Inr g \<Longrightarrow> gives g x {OPEN_ORDER_CONFLICT}"
  by (auto simp: gate_no_order_def objection_def elim!: gives_recorded)

lemma gate_position_count_gives: "gate_position_count x = Inr g \<Longrightarrow> gives g x {POSITION_LIMIT_REACHED}"
  by (auto simp: gate_position_count_def objection_def elim!: gives_recorded)

lemma gate_daily_loss_gives: "gate_daily_loss x = Inr g \<Longrightarrow> gives g x {DAILY_LOSS_LIMIT_REACHED}"
  by (auto simp: gate_daily_loss_def rbind_eq_Inr objection_def elim!: gives_recorded)

lemma gate_daily_orders_gives: "gate_daily_orders x = Inr g \<Longrightarrow> gives g x {DAILY_ORDER_LIMIT_REACHED}"
  by (auto simp: gate_daily_orders_def objection_def elim!: gives_recorded)

lemmas gates_give =
  gate_kill_switch_gives gate_market_status_gives gate_entry_window_gives gate_liquidation_gives gate_feed_gives
  gate_quote_age_gives gate_evidence_age_gives gate_cost_estimate_gives gate_prohibited_gives
  gate_watchlisted_gives gate_market_permitted_gives gate_currency_gives gate_price_gives gate_spread_gives
  gate_liquidity_gives gate_slippage_gives gate_no_position_gives gate_no_order_gives gate_position_count_gives
  gate_daily_loss_gives gate_daily_orders_gives

text \<open>The sizing is a function of the inputs, so its three reasons read one sizing.\<close>

lemma sizing_of_unique:
  assumes "sizing_of x d s sz" "sizing_of x d' s' sz'"
  shows "d' = d \<and> s' = s \<and> sz' = sz"
proof -
  have inputs: "d' = d" "s' = s" "sz_limit_price sz' = sz_limit_price sz"
    using assms by (simp_all add: sizing_of_def)
  then have entry: "sz_entry_price sz' = sz_entry_price sz"
    using assms by (simp add: sizing_of_def)
  with inputs have quantity: "sz_quantity sz' = sz_quantity sz"
    using assms unfolding sizing_of_def by (metis Inr_inject)
  with entry have notional: "sz_notional sz' = sz_notional sz"
    using assms unfolding sizing_of_def by (metis Inr_inject)
  then have costs: "sz_fees sz' = sz_fees sz" "sz_slippage sz' = sz_slippage sz"
    using assms unfolding sizing_of_def by (metis Inr_inject prod.inject)+
  with notional have "sz_total_cash sz' = sz_total_cash sz"
    using assms unfolding sizing_of_def by (metis Inr_inject)
  with inputs entry quantity notional costs show ?thesis
    by (simp add: sizing.equality)
qed

lemma sizing_gives:
  assumes "sizing_gates x = Inr (gs, sz)"
  shows "list_all2 (\<lambda>g rs. gives g x rs) gs
    [{CASH_RESERVE_BREACHED}, {QUANTITY_ZERO_AFTER_SIZING}, {CASH_INSUFFICIENT}]"
proof -
  from sizing_gates_Inr[OF assms] obtain d s g1 g2 g3 where sizing: "sizing_of x d s sz" and "gs = [g1, g2, g3]"
    "snd g1 = reason_unless (dec_less (dec_of_int 0) s) CASH_RESERVE_BREACHED"
    "snd g2 = reason_unless (0 < sz_quantity sz) QUANTITY_ZERO_AFTER_SIZING"
    "snd g3 = reason_unless (dec_le (sz_total_cash sz) s) CASH_INSUFFICIENT"
    by blast
  moreover have "sizing_of x d' s' sz' \<longleftrightarrow> d' = d \<and> s' = s \<and> sz' = sz" for d' s' sz'
    using sizing sizing_of_unique by blast
  ultimately show ?thesis by (auto simp: gives_def objection_def)
qed

definition eligibility_reasons :: "proposal_inputs \<Rightarrow> no_trade_reason set list" where
  "eligibility_reasons x =
     [{KILL_SWITCH_ENGAGED}, {MARKET_STATUS_UNKNOWN, MARKET_NOT_OPEN}, {OUTSIDE_ENTRY_WINDOW},
      {LIQUIDATION_DEADLINE_UNREACHABLE}, {MARKET_DATA_NOT_REAL_TIME}, {MARKET_DATA_STALE}, {EVIDENCE_STALE},
      {COST_ESTIMATE_MISSING}, {INSTRUMENT_PROHIBITED}, {INSTRUMENT_NOT_WATCHLISTED}, {MARKET_NOT_PERMITTED},
      {CURRENCY_MISMATCH}, {PRICE_OUTSIDE_BOUNDS}, {SPREAD_TOO_WIDE}, {LIQUIDITY_INSUFFICIENT}]
     @ (case pi_cost_estimate x of None \<Rightarrow> [] | Some _ \<Rightarrow> [{SLIPPAGE_TOO_HIGH}])
     @ [{EXISTING_POSITION_CONFLICT}, {OPEN_ORDER_CONFLICT}, {POSITION_LIMIT_REACHED},
        {DAILY_LOSS_LIMIT_REACHED}, {DAILY_ORDER_LIMIT_REACHED}]"

lemma eligibility_gives:
  assumes "rmap (\<lambda>g. g) (eligibility_gates x) = Inr gs"
  shows "list_all2 (\<lambda>g rs. gives g x rs) gs (eligibility_reasons x)"
proof -
  have "list_all2 (\<lambda>gate rs. \<forall>g. gate = Inr g \<longrightarrow> gives g x rs) (eligibility_gates x) (eligibility_reasons x)"
    by (cases "pi_cost_estimate x") (simp_all add: eligibility_gates_def eligibility_reasons_def gates_give)
  then show ?thesis
    using assms by (auto simp: rmap_id_Inr list_all2_map1 split_paired_All elim!: list_all2_mono)
qed

lemma gives_reasons:
  assumes "list_all2 (\<lambda>g rs. gives g x rs) gs rss"
  shows "set (reasons_of gs) = {r. objection x r \<and> r \<in> \<Union> (set rss)}"
  using assms
proof (induction rule: list_all2_induct)
  case (Cons g gs rs rss)
  then show ?case
    by (cases "snd g") (auto simp: reasons_of_def map_filter_simps gives_def)
qed (simp add: reasons_of_def)

theorem reasons_are_objections:
  assumes "rmap (\<lambda>g. g) (eligibility_gates x) = Inr gs" "sizing_gates x = Inr (tail, sz)"
  shows "set (reasons_of (gs @ tail)) = {r. objection x r}"
proof -
  have "set (reasons_of (gs @ tail)) = {r. objection x r \<and> r \<in> \<Union> (set (eligibility_reasons x
      @ [{CASH_RESERVE_BREACHED}, {QUANTITY_ZERO_AFTER_SIZING}, {CASH_INSUFFICIENT}]))}"
    by (rule gives_reasons) (intro list_all2_appendI eligibility_gives[OF assms(1)] sizing_gives[OF assms(2)])
  moreover have "r \<in> \<Union> (set (eligibility_reasons x
      @ [{CASH_RESERVE_BREACHED}, {QUANTITY_ZERO_AFTER_SIZING}, {CASH_INSUFFICIENT}]))" if "objection x r" for r
    using that by (cases r; cases "pi_cost_estimate x"; simp add: eligibility_reasons_def objection_def)
  ultimately show ?thesis by blast
qed

text \<open>The reported reason is the first of them in the precedence.\<close>

lemma first_reason_min:
  "first_reason r rs \<in> set (r # rs) \<and> (\<forall>r' \<in> set (r # rs). precedence_index (first_reason r rs) \<le> precedence_index r')"
  unfolding first_reason_def
proof (induction rs arbitrary: r)
  case (Cons a rs)
  from Cons.IH[of "if precedence_index a < precedence_index r then a else r"] show ?case
    by (auto split: if_splits)
qed simp

lemma precedence_index_inj: "precedence_index r = precedence_index r' \<Longrightarrow> r = r'"
  by (cases r; cases r'; simp add: precedence_index_def reason_precedence_def)

section \<open>What the engine guarantees\<close>

lemma evaluate_reasons:
  assumes "evaluate_trade_proposal x = Inr outcome"
  shows "case outcome of
      NoTrade r checks \<Rightarrow> objection x r \<and> (\<forall>r'. objection x r' \<longrightarrow> precedence_index r \<le> precedence_index r')
    | Proposal p checks \<Rightarrow> \<forall>r. \<not> objection x r"
proof -
  from evaluate_Inr[OF assms] obtain gs sizes sz where
    parts: "rmap (\<lambda>g. g) (eligibility_gates x) = Inr gs" "sizing_gates x = Inr (sizes, sz)"
    and outcome: "case outcome of
          NoTrade r checks \<Rightarrow> \<exists>r0 rs. reasons_of (gs @ sizes) = r0 # rs \<and> r = first_reason r0 rs
        | Proposal p checks \<Rightarrow> reasons_of (gs @ sizes) = []"
    by (cases outcome) force+
  have reasons: "set (reasons_of (gs @ sizes)) = {r. objection x r}"
    by (rule reasons_are_objections[OF parts])
  show ?thesis
  proof (cases outcome)
    case (NoTrade r checks)
    with outcome obtain r0 rs where "reasons_of (gs @ sizes) = r0 # rs" "r = first_reason r0 rs" by auto
    with reasons first_reason_min[of r0 rs] NoTrade show ?thesis by auto
  qed (use outcome reasons in auto)
qed

lemma proposal_parts:
  assumes "evaluate_trade_proposal x = Inr (Proposal p checks)"
  shows "market_ready x \<and> data_fresh x \<and> instrument_eligible x \<and> portfolio_free x
     \<and> (\<exists>deployable spendable sz. sizing_of x deployable spendable sz \<and> affordable spendable sz \<and> carries x sz p
          \<and> exit_price (sz_entry_price sz) (dec_sub (dec_of_int 100) (tc_stop_loss_percent (config x)))
              = Inr (at_stop_loss_price p)
          \<and> exit_price (sz_entry_price sz) (dec_add (dec_of_int 100) (tc_profit_exit_percent (config x)))
              = Inr (at_profit_exit_price p))
     \<and> tp_risk_checks p = checks"
proof -
  from evaluate_Inr[OF assms] obtain gs sizes sz stop_loss profit_exit liquidation_at where
    parts: "rmap (\<lambda>g. g) (eligibility_gates x) = Inr gs" "sizing_gates x = Inr (sizes, sz)"
    and none: "reasons_of (gs @ sizes) = []"
    and exits: "exit_price (sz_entry_price sz) (dec_sub (dec_of_int 100) (tc_stop_loss_percent (config x))) = Inr stop_loss"
      "exit_price (sz_entry_price sz) (dec_add (dec_of_int 100) (tc_profit_exit_percent (config x))) = Inr profit_exit"
    and made: "assemble x sz stop_loss profit_exit liquidation_at (instant_of (pi_evaluated_at x)) checks = Inr p"
    by auto
  have pass: "\<forall>g \<in> set gs. passes g" "\<forall>g \<in> set sizes. passes g"
    using none by (auto simp: map_filter_snd_Nil)
  obtain d s where sizing: "sizing_of x d s sz" "affordable s sz"
    using sizing_gates_pass[OF parts(2)] pass(2) by blast
  then show ?thesis
    using assemble_Inr[OF made] eligibility_conditions[OF parts(1) pass(1)] exits by auto
qed

lemmas proposal_sizing = proposal_parts[THEN conjunct2, THEN conjunct2, THEN conjunct2, THEN conjunct2, THEN conjunct1]

end
