(* ===== verification/Order_Sizing.thy ===== *)
theory Order_Sizing
  imports Proposal_Facts
begin

text \<open>
  What a sized order may cost. The sizing divides rounded decimals and rounds down; this theory
  bounds the exponents of the intermediate results, so that the quotient is never a share too many,
  and shows where the rounding to cents leaves the limit after all.
\<close>

section \<open>Exponents of results\<close>

text \<open>A finite number whose last digit is not below \<open>10 powi k\<close>.\<close>

definition grained :: "int \<Rightarrow> decimal \<Rightarrow> bool" where
  "grained k d \<longleftrightarrow> is_finite d \<and> dec_ok d \<and> k \<le> dec_exponent d"

lemma grained_simps [simp]:
  "grained k (Dec s c e) \<longleftrightarrow> 0 \<le> c \<and> k \<le> e" "\<not> grained k (DecInfinity s)" "\<not> grained k DecNaN"
  by (simp_all add: grained_def)

lemma grainedE:
  assumes "grained k d"
  obtains s c e where "d = Dec s c e" "0 \<le> c" "k \<le> e"
  using assms by (cases d) (auto simp: grained_def)

lemma grained_mono: "grained k d \<Longrightarrow> k' \<le> k \<Longrightarrow> grained k' d"
  by (simp add: grained_def)

lemma dec_fix_grained: "dec_fix s c e = Inr d \<Longrightarrow> 0 \<le> c \<Longrightarrow> k \<le> e \<Longrightarrow> k \<le> emax \<Longrightarrow> grained k d"
  using rescaled_nonneg[of c ROUND_HALF_EVEN e "max (ndigits c + e - precision) etiny"]
  by (auto simp: dec_fix_def Let_def emax_def split: if_splits)

lemma dec_fix_digits: 
  assumes "dec_fix s c e = Inr d" "0 \<le> c"
  shows "ndigits (dec_coefficient d) \<le> precision"
proof (cases "c = 0")
  case True
  then show ?thesis using assms by (auto simp: dec_fix_def ndigits.simps[of 0] precision_def)
next
  case False
  define m where "m = max (ndigits c + e - precision) etiny"
  have top: "ndigits (10 * pow10 (precision - 1) div 10) \<le> precision"
    by (intro ndigits_le) (simp_all add: precision_def pow10_def)
  show ?thesis
    using False assms top rounded_top[of c e m]
    by (auto simp: dec_fix_def Let_def m_def[symmetric] split: if_splits) (auto simp: m_def precision_def)
qed

lemma dec_mul_grained:
  assumes "dec_mul x y = Inr d" "grained a x" "grained b y" "a + b \<le> emax"
  shows "grained (a + b) d \<and> ndigits (dec_coefficient d) \<le> precision"
  using assms by (auto elim!: grainedE intro: dec_fix_grained dec_fix_digits)

lemma dec_add_grained:
  assumes "dec_add x y = Inr d" "grained k x" "grained k y" "k \<le> emax"
  shows "grained k d"
  using assms by (auto simp: Let_def elim!: grainedE intro: dec_fix_grained)

lemma dec_minus_grained: "grained k d \<Longrightarrow> grained k (dec_minus d)"
  by (auto elim!: grainedE)

lemma drop_zeros_exponent: "drop_zeros c e ideal = (c', e') \<Longrightarrow> e \<le> e'"
proof (induction c e ideal arbitrary: c' e' rule: drop_zeros.induct)
  case (1 c e ideal)
  show ?case
  proof (cases "e < ideal \<and> c mod 10 = 0")
    case True
    with "1.prems" have "drop_zeros (c div 10) (e + 1) ideal = (c', e')"
      by (simp add: drop_zeros.simps[of c])
    with "1.IH"[OF True] show ?thesis by force
  next
    case False
    with "1.prems" show ?thesis by (auto simp: drop_zeros.simps[of c])
  qed
qed

lemma drop_zeros_trailing:
  "e + int n \<le> ideal \<Longrightarrow> drop_zeros (c * 10 ^ n) e ideal = drop_zeros c (e + int n) ideal"
proof (induction n arbitrary: e)
  case (Suc n)
  have "drop_zeros (c * 10 ^ Suc n) e ideal = drop_zeros (c * 10 ^ n) (e + 1) ideal"
    using Suc.prems by (subst drop_zeros.simps) simp
  with Suc.IH[of "e + 1"] Suc.prems show ?case by (simp add: add.assoc)
qed simp

text \<open>A percentage is an exact quotient: two digits more at most.\<close>

lemma dec_percent_grained:
  assumes "dec_div x (dec_of_int 100) = Inr d" "grained k x" "ndigits (dec_coefficient x) \<le> precision" "k \<le> emax"
  shows "grained (k - 2) d"
proof -
  obtain s c e where x: "x = Dec s c e" "0 \<le> c" "k \<le> e" using assms(2) by (rule grainedE)
  have hundred: "dec_of_int 100 = Dec False 100 0" "ndigits 100 = 3"
    by (simp_all add: dec_of_int_def ndigits.simps)
  show ?thesis
  proof (cases "c = 0")
    case True
    with assms(1) x hundred have "dec_fix s 0 e = Inr d" by simp
    then show ?thesis using x assms(4) by (intro dec_fix_grained[of s 0 e]) auto
  next
    case False
    define n where "n = nat (30 - ndigits c)"
    have n: "32 - ndigits c = int n + 2" using assms(3) x by (simp add: n_def precision_def)
    have p: "pow10 (int n + 2) = 10 ^ n * 100" "pow10 (- (int n + 2)) = 1"
      "c * (10 ^ n * 100) div 100 = c * 10 ^ n" "c * (10 ^ n * 100) mod 100 = 0"
      by (simp_all add: pow10_def nat_add_distrib mult.assoc[symmetric])
    have shift: "3 - ndigits c + precision + 1 = int n + 2" using n by (simp add: precision_def)
    obtain c' e' where dropped: "drop_zeros (c * 10 ^ n) (e - (int n + 2)) e = (c', e')"
      by (cases "drop_zeros (c * 10 ^ n) (e - (int n + 2)) e")
    have "drop_zeros (c * 10 ^ n) (e - (int n + 2)) e = drop_zeros c (e - 2) e"
      by (subst drop_zeros_trailing) (simp_all add: algebra_simps)
    then have e': "e - 2 \<le> e'" using dropped drop_zeros_exponent by metis
    have c': "0 \<le> c'" using drop_zeros_value[OF dropped] x by simp
    from assms(1) False have "dec_fix s c' e' = Inr d"
      using dropped by (simp add: x hundred Let_def shift p del: minus_add_distrib)
    then show ?thesis using c' e' x assms(4) by (intro dec_fix_grained) auto
  qed
qed

lemma dec_quantize_grained:
  assumes "dec_quantize m k x = Inr d" "is_finite x" "dec_ok x" "k \<le> emax"
  shows "grained k d"
  using assms rescaled_nonneg
  by (cases x) (auto simp: Let_def split: if_splits intro: dec_fix_grained)

lemma dec_div_finite:
  assumes "dec_div x y = Inr d" "is_finite x" "dec_ok x" "is_finite y" "dec_ok y"
  shows "is_finite d \<and> dec_ok d"
proof -
  obtain s c e s' c' e' where xy: "x = Dec s c e" "y = Dec s' c' e'" "0 \<le> c" "0 \<le> c'"
    using assms by (cases x; cases y) auto
  have fixed: "is_finite d \<and> dec_ok d" if "dec_fix t q z = Inr d" "0 \<le> q" for t q z
    using that by (intro dec_fix_finite)
  define shift where "shift = ndigits c' - ndigits c + precision + 1"
  define q where "q = c * pow10 shift div (c' * pow10 (- shift))"
  have q: "0 \<le> q" using xy by (cases "c' = 0") (auto simp: q_def intro!: pos_imp_zdiv_nonneg_iff[THEN iffD2])
  consider "c = 0" "dec_fix (s \<noteq> s') 0 (e - e') = Inr d"
    | "dec_fix (s \<noteq> s') (if q mod 5 = 0 then q + 1 else q) (e - e' - shift) = Inr d"
    | q' x' where "drop_zeros q (e - e' - shift) (e - e') = (q', x')" "dec_fix (s \<noteq> s') q' x' = Inr d"
    using assms(1) unfolding xy dec_div.simps Let_def shift_def[symmetric] q_def[symmetric]
    by (auto split: if_splits prod.splits)
  then show ?thesis
    using q drop_zeros_value[OF _ q] by cases (auto dest: fixed split: if_splits)
qed

section \<open>Quantities\<close>

lemma dec_to_integral_whole:
  assumes "is_finite q" "dec_ok q"
  obtains c e where "dec_to_integral ROUND_DOWN q = Dec (dec_negative q) c e" "0 \<le> c" "0 \<le> e"
    "whole_part q = c * pow10 e"
proof -
  obtain s c e where q: "q = Dec s c e" "0 \<le> c" using assms by (cases q) auto
  show thesis
    using q rescaled_nonneg[OF q(2), of ROUND_DOWN e 0]
    by (cases "0 \<le> e") (auto simp: whole_part_def intro!: that)
qed

lemma dec_div_sign: "dec_div (Dec False c e) (Dec False c' e') = Inr q \<Longrightarrow> is_finite q \<Longrightarrow> \<not> dec_negative q"
  by (auto simp: Let_def dec_fix_def split: if_splits prod.splits)

lemma dec_positive: "0 \<le> c \<Longrightarrow> dec_less (dec_of_int 0) (Dec s c e) \<longleftrightarrow> \<not> s \<and> 0 < c"
proof -
  assume "0 \<le> c"
  moreover have "0 < magnitude c e \<longleftrightarrow> 0 < c"
    using powi_pos[of e] zero_less_mult_pos2[of "of_int c" "(10 :: rat) powi e"]
    by (auto simp: magnitude_def simp del: powi_pos)
  ultimately show ?thesis using magnitude_nonneg[of c e] by (auto simp: compare_at_value)
qed

text \<open>
  The sized quantity is a whole number of lots that the budget pays for, whatever the rounding of
  the two quotients, as long as the budget has no more than 26 digits down to the finer of the two
  last digits.
\<close>

lemma sized_quantity_sound:
  assumes sized: "sized_quantity b p lot = Inr n" and lot: "1 \<le> lot"
    and b: "grained k b" and p: "grained k p" "k \<le> 0"
    and small: "dec_value b < 10 powi (26 + k)"
  shows "0 \<le> n \<and> lot dvd n \<and> (n = 0 \<or> of_int n * dec_value p \<le> dec_value b)"
proof (cases "dec_less (dec_of_int 0) p \<and> dec_less (dec_of_int 0) b")
  case False
  with sized show ?thesis by (auto simp: sized_quantity_def)
next
  case True
  obtain s cb eb where b': "b = Dec s cb eb" "0 \<le> cb" "k \<le> eb" using b by (rule grainedE)
  obtain s' cp ep where p': "p = Dec s' cp ep" "0 \<le> cp" "k \<le> ep" using p(1) by (rule grainedE)
  have sign: "s = False" "s' = False" "0 < cb" "0 < cp"
    using True b' p' by (simp_all add: dec_positive)
  from sized True obtain ratio lots m where ratio: "dec_div b p = Inr ratio"
    and lots: "dec_div (dec_to_integral ROUND_DOWN ratio) (dec_of_int lot) = Inr lots"
    and m: "dec_int (dec_to_integral ROUND_DOWN lots) = Inr m" and n: "n = m * lot"
    by (auto simp: sized_quantity_def rbind_eq_Inr)
  have ok: "is_finite ratio" "dec_ok ratio" using dec_div_finite[OF ratio] b' p' by auto
  obtain cr er where r: "dec_to_integral ROUND_DOWN ratio = Dec (dec_negative ratio) cr er" "0 \<le> cr" "0 \<le> er"
    "whole_part ratio = cr * pow10 er" using ok by (rule dec_to_integral_whole)
  have pos: "\<not> dec_negative ratio" 
    using dec_div_sign ratio ok(1) unfolding b'(1) p'(1) sign(1,2) by blast
  have whole: "of_int (cr * pow10 er) * magnitude cp ep \<le> magnitude cb eb"
  proof -
    have "dec_value b < 10 powi (26 + min eb ep)"
      using small b'(3) p'(3) by (elim less_le_trans) (intro powi_mono, simp)
    then show ?thesis
      using whole_quotient_sound[of cb cp eb ep ratio] ratio b' p' sign r by simp
  qed
  have magr: "magnitude cr er = of_int (cr * pow10 er)" using r by (simp add: magnitude_def of_int_pow10)
  have "0 < dec_value p" "10 powi k \<le> dec_value p"
  proof -
    have "10 powi k \<le> (1 :: rat) * 10 powi ep" using powi_mono[OF p'(3)] by simp
    also have "\<dots> \<le> magnitude cp ep" unfolding magnitude_def using sign by (intro mult_right_mono) auto
    finally show "10 powi k \<le> dec_value p" using p' sign by simp
    then show "0 < dec_value p" using powi_pos[of k] by (meson less_le_trans)
  qed
  then have "magnitude cr er * 10 powi k \<le> magnitude cr er * dec_value p"
    using r by (intro mult_left_mono) auto
  also have "\<dots> < 10 powi 26 * 10 powi k"
    using whole small p' b' sign by (simp add: magr powi_split)
  finally have fits: "magnitude cr er < 10 powi (26 + min er 0)" using r by simp
  have lots': "dec_div (Dec False cr er) (Dec False lot 0) = Inr lots"
    using lots r pos lot by (simp add: dec_of_int_def)
  have okl: "is_finite lots" "dec_ok lots" "\<not> dec_negative lots"
    using dec_div_finite[OF lots'] dec_div_sign[OF lots'] r lot by auto
  obtain cl el where l: "dec_to_integral ROUND_DOWN lots = Dec (dec_negative lots) cl el" "0 \<le> cl" "0 \<le> el"
    "whole_part lots = cl * pow10 el" using okl(1,2) by (rule dec_to_integral_whole)
  have "m = whole_part lots" using m l okl by (simp add: Decimals.signed_def)
  then have "0 \<le> m" "of_int m * of_int lot \<le> magnitude cr er"
    using whole_quotient_sound[OF _ _ lots' fits] r lot l by (auto simp: magnitude_def)
  then have m: "0 \<le> m" "of_int n * dec_value p \<le> magnitude cr er * dec_value p"
    using \<open>0 < dec_value p\<close> n by (simp_all add: mult_right_mono)
  moreover have "magnitude cr er * dec_value p \<le> dec_value b"
    using whole b' p' sign by (simp add: magr)
  ultimately show ?thesis using lot n by auto
qed

section \<open>The proposed order\<close>

text \<open>
  An amount as the operator writes it and the database stores it: at most eight decimals, below
  one hundred million.
\<close>

definition plain :: "decimal \<Rightarrow> bool" where
  "plain d \<longleftrightarrow> grained (- 8) d \<and> dec_exponent d \<le> 0 \<and> \<bar>dec_value d\<bar> < 10 ^ 8"

lemma plain_coefficient:
  assumes "plain (Dec s c e)" "- 8 \<le> m" "m \<le> e"
  shows "c * pow10 (e - m) < 10 ^ 16"
proof -
  have "of_int (c * pow10 (e - m)) * (10 :: rat) powi (- 8) \<le> of_int (c * pow10 (e - m)) * 10 powi m"
    using assms by (intro mult_left_mono powi_mono) (auto simp: plain_def)
  also have "\<dots> = \<bar>dec_value (Dec s c e)\<bar>"
    using assms dec_value_scaled[of m e False c] by (simp add: plain_def dec_value_abs Decimals.signed_def)
  also have "\<dots> < 10 ^ 8" using assms by (simp add: plain_def)
  finally have "(of_int (c * pow10 (e - m)) :: rat) < of_int (10 ^ 16)" by (simp add: power_int_minus)
  then show ?thesis by (simp only: of_int_less_iff)
qed

lemma dec_add_plain:
  assumes "plain x" "plain y" "dec_add x y = Inr z"
  shows "grained (- 8) z \<and> dec_value z = dec_value x + dec_value y"
proof -
  obtain s c e s' c' e' where xy: "x = Dec s c e" "y = Dec s' c' e'" "0 \<le> c" "0 \<le> c'"
    "- 8 \<le> e" "- 8 \<le> e'" "e \<le> 0" "e' \<le> 0"
    using assms by (cases x; cases y) (auto simp: plain_def grained_def)
  define m where "m = min e e'"
  define t where "t = Decimals.signed s c * pow10 (e - m) + Decimals.signed s' c' * pow10 (e' - m)"
  have m: "- 8 \<le> m" "m \<le> e" "m \<le> e'" "m \<le> 0" using xy by (auto simp: m_def)
  have "c * pow10 (e - m) < 10 ^ 16" "c' * pow10 (e' - m) < 10 ^ 16"
    using assms(1,2) m unfolding xy by (blast intro: plain_coefficient)+
  moreover have "0 \<le> c * pow10 (e - m)" "0 \<le> c' * pow10 (e' - m)" using xy by simp_all
  ultimately have "\<bar>t\<bar> < pow10 precision"
    unfolding t_def by (auto simp: Decimals.signed_def precision_def pow10_def)
  then have "dec_fix r \<bar>t\<bar> m = Inr (Dec r \<bar>t\<bar> m)" for r
    using m by (intro dec_fix_exact) (auto simp: etiny_def emax_def precision_def)
  then obtain r where z: "z = Dec r \<bar>t\<bar> m" "r \<longrightarrow> t < 0 \<or> t = 0" "t < 0 \<longrightarrow> r"
    using assms(3) unfolding xy by (auto simp: Let_def m_def[symmetric] t_def[symmetric] split: if_splits)
  then have "dec_value z = of_int t * 10 powi m"
    by (cases r) (auto simp: magnitude_def abs_if)
  also have "\<dots> = dec_value x + dec_value y"
    unfolding xy dec_value_scaled[OF m(2)] dec_value_scaled[OF m(3)] t_def by (simp add: distrib_right)
  finally show ?thesis using z m by simp
qed

lemma plain_minus: "plain d \<Longrightarrow> plain (dec_minus d) \<and> dec_value (dec_minus d) = - dec_value d"
  by (cases d) (auto simp: plain_def)

lemma dec_min_cases: "dec_min x y = x \<or> dec_min x y = y"
  by (simp add: dec_min_def)

lemma deployable_grained:
  assumes "deployable_capital c = Inr d" "grained (- 8) (tc_maximum_deployable_capital c)"
    "grained (- 8) (tc_maximum_percent_per_trade c)" "grained (- 8) (tc_maximum_capital_per_trade c)"
  shows "grained (- 18) d \<and> dec_value d \<le> dec_value (tc_maximum_capital_per_trade c)"
proof -
  from assms(1) obtain product share where
    product: "dec_mul (tc_maximum_deployable_capital c) (tc_maximum_percent_per_trade c) = Inr product"
    and share: "dec_div product (dec_of_int 100) = Inr share"
    and d: "d = dec_min (tc_maximum_capital_per_trade c) share"
    by (auto simp: deployable_capital_def rbind_eq_Inr)
  have "grained (- 16) product \<and> ndigits (dec_coefficient product) \<le> precision"
    using dec_mul_grained[OF product assms(2,3)] by (simp add: emax_def)
  then have share: "grained (- 18) share"
    using dec_percent_grained[OF share, of "- 16"] by (simp add: emax_def)
  then have "dec_value d \<le> dec_value (tc_maximum_capital_per_trade c)"
    using assms(4) dec_min_le[of "tc_maximum_capital_per_trade c" share] by (simp add: d grained_def)
  then show ?thesis
    using share grained_mono[OF assms(4), of "- 18"] dec_min_cases[of "tc_maximum_capital_per_trade c" share]
    by (auto simp: d)
qed

lemma limit_price_grained:
  assumes "limit_price q policy = Inr l" "grained (- 8) (qs_bid q)" "grained (- 8) (qs_ask q)"
    "grained (- 8) (qs_last_trade q)"
  shows "grained (- 2) l"
proof -
  have cents: "grained (- 2) l" if "to_cents d = Inr l" "is_finite d" "dec_ok d" for d
    using dec_quantize_grained[of ROUND_HALF_EVEN cent d l] that by (simp add: to_cents_def cent_def emax_def)
  show ?thesis
  proof (cases policy)
    case MID_QUOTE
    with assms(1) obtain s mid where mid: "dec_add (qs_bid q) (qs_ask q) = Inr s"
      "dec_div s (dec_of_int 2) = Inr mid" "to_cents mid = Inr l"
      by (auto simp: limit_price_def quote_mid_def rbind_eq_Inr)
    then have "grained (- 8) s" using assms(2,3) dec_add_grained by (simp add: emax_def)
    then have "is_finite mid \<and> dec_ok mid"
      using dec_div_finite[OF mid(2)] by (simp add: grained_def dec_of_int_def)
    with cents mid(3) show ?thesis by blast
  qed (use assms cents in \<open>auto simp: limit_price_def grained_def\<close>)
qed

lemma sized_order_sound:
  assumes sizing: "sizing_of x deployable spendable sz" "affordable spendable sz"
    and lot: "1 \<le> im_lot_size (pi_instrument x)"
    and capital: "grained (- 8) (tc_maximum_deployable_capital (config x))"
      "grained (- 8) (tc_maximum_percent_per_trade (config x))" "plain (tc_maximum_capital_per_trade (config x))"
    and cash: "plain (as_cash_available (pi_account x))" "plain (tc_minimum_cash_reserve (config x))"
    and quote: "grained (- 8) (qs_bid (pi_quote x))" "grained (- 8) (qs_ask (pi_quote x))"
      "grained (- 8) (qs_last_trade (pi_quote x))"
  shows "im_lot_size (pi_instrument x) dvd sz_quantity sz \<and> is_finite spendable
     \<and> dec_value spendable = dec_value (as_cash_available (pi_account x)) - dec_value (tc_minimum_cash_reserve (config x))
     \<and> of_int (sz_quantity sz) * dec_value (sz_entry_price sz) \<le> dec_value (tc_maximum_capital_per_trade (config x))
     \<and> of_int (sz_quantity sz) * dec_value (sz_entry_price sz) \<le> dec_value spendable"
proof -
  let ?cap = "tc_maximum_capital_per_trade (config x)" and ?budget = "dec_min deployable (dec_max spendable (dec_of_int 0))"
  have "grained (- 8) ?cap" using capital(3) by (simp add: plain_def)
  then have deployable: "grained (- 18) deployable" "dec_value deployable \<le> dec_value ?cap"
    using deployable_grained[of "config x" deployable] sizing(1) capital by (auto simp: sizing_of_def)
  have spendable: "grained (- 8) spendable" "dec_value spendable
      = dec_value (as_cash_available (pi_account x)) - dec_value (tc_minimum_cash_reserve (config x))"
    using sizing(1) cash dec_add_plain[of "as_cash_available (pi_account x)" "dec_minus (tc_minimum_cash_reserve (config x))"]
    by (auto simp: sizing_of_def dec_sub_def plain_minus)
  then have finite: "is_finite spendable" "is_finite deployable" using deployable by (auto simp: grained_def)
  have zero: "grained (- 18) (dec_of_int 0)" by (simp add: dec_of_int_def)
  have "dec_max spendable (dec_of_int 0) \<in> {spendable, dec_of_int 0}" by (simp add: dec_max_def)
  then have max: "grained (- 18) (dec_max spendable (dec_of_int 0))"
    using zero grained_mono[OF spendable(1), of "- 18"] by auto
  then have budget: "grained (- 18) ?budget" using deployable(1) dec_min_cases[of deployable] by metis
  have "0 < dec_value spendable"
    using sizing(2) finite by (simp add: affordable_def compare_at_value)
  then have budget_value: "dec_value ?budget = min (dec_value deployable) (dec_value spendable)"
    using dec_max_ge[OF finite(1), of "dec_of_int 0"] dec_min_le[OF finite(2), of "dec_max spendable (dec_of_int 0)"]
    by simp
  have entry: "grained (- 8) (sz_entry_price sz)"
    using sizing(1) quote limit_price_grained[OF _ quote] grained_mono[of "- 2" _ "- 8"]
    by (auto simp: sizing_of_def)
  have small: "dec_value ?budget < 10 powi (26 + - 18)"
  proof -
    have "dec_value ?budget \<le> dec_value ?cap" using budget_value deployable(2) by (simp add: min_le_iff_disj)
    also have "\<dots> < 10 ^ 8" using capital(3) by (simp add: plain_def abs_less_iff)
    finally show ?thesis by simp
  qed
  have sized: "sized_quantity ?budget (sz_entry_price sz) (im_lot_size (pi_instrument x)) = Inr (sz_quantity sz)"
    using sizing(1) unfolding sizing_of_def by (elim conjE)
  have "im_lot_size (pi_instrument x) dvd sz_quantity sz
      \<and> of_int (sz_quantity sz) * dec_value (sz_entry_price sz) \<le> dec_value ?budget"
    using sized_quantity_sound[OF sized lot budget grained_mono[OF entry] _ small] sizing(2)
    by (simp add: affordable_def)
  with budget_value deployable(2) spendable(2) finite(1) show ?thesis by linarith
qed

text \<open>The price the order is sized at.\<close>

definition entry_price :: "proposal_inputs \<Rightarrow> trade_proposal \<Rightarrow> decimal" where
  "entry_price x p = (case at_limit_price p of Some l \<Rightarrow> l | None \<Rightarrow> qs_ask (pi_quote x))"

end
