(* ===== verification/Proposal_Guarantees.thy ===== *)
theory Proposal_Guarantees
  imports Order_Sizing
begin

text \<open>
  The guarantees of the proposal engine as properties, with an evaluation that shows each can apply:
  an example configuration and market on which the engine proposes.
\<close>

section \<open>An example\<close>

text \<open>
  Every check is recorded under its own name, whatever its outcome, so the names of the checks are
  those below in this order, and the names are distinct.
\<close>

definition recorded :: "string \<Rightarrow> gate \<Rightarrow> bool" where
  "recorded i g \<longleftrightarrow> rc_check_id (fst g) = i \<and> (passes g \<longleftrightarrow> rc_outcome (fst g) = PASSED)"

lemma record_check_recorded: "record_check i outcome detail reason = Inr g \<Longrightarrow> recorded i g"
  by (auto simp: recorded_def passes_def result_eqs dest!: make_risk_check_Inr)

lemma record_passed_recorded: "record_passed i detail = Inr g \<Longrightarrow> recorded i g"
  by (auto simp: recorded_def passes_def result_eqs dest!: make_risk_check_Inr)

definition check_names :: "proposal_inputs \<Rightarrow> string list" where
  "check_names x =
     [''kill_switch'', ''market_status'', ''entry_window'', ''liquidation_reachable'', ''market_data_feed'',
      ''market_data_age'', ''evidence_age'', ''cost_estimate'', ''instrument_not_prohibited'',
      ''instrument_watchlisted'', ''market_permitted'', ''currency_match'', ''price_bounds'', ''spread'', ''liquidity'']
     @ (case pi_cost_estimate x of None \<Rightarrow> [] | Some _ \<Rightarrow> [''slippage''])
     @ [''no_existing_position'', ''no_open_order'', ''position_count'', ''daily_loss'', ''daily_order_count'']"

lemma gates_recorded:
  "gate_kill_switch x = Inr g \<Longrightarrow> recorded ''kill_switch'' g"
  "gate_market_status x = Inr g \<Longrightarrow> recorded ''market_status'' g"
  "gate_entry_window x = Inr g \<Longrightarrow> recorded ''entry_window'' g"
  "gate_liquidation x = Inr g \<Longrightarrow> recorded ''liquidation_reachable'' g"
  "gate_feed x = Inr g \<Longrightarrow> recorded ''market_data_feed'' g"
  "gate_quote_age x = Inr g \<Longrightarrow> recorded ''market_data_age'' g"
  "gate_evidence_age x = Inr g \<Longrightarrow> recorded ''evidence_age'' g"
  "gate_cost_estimate x = Inr g \<Longrightarrow> recorded ''cost_estimate'' g"
  "gate_prohibited x = Inr g \<Longrightarrow> recorded ''instrument_not_prohibited'' g"
  "gate_watchlisted x = Inr g \<Longrightarrow> recorded ''instrument_watchlisted'' g"
  "gate_market_permitted x = Inr g \<Longrightarrow> recorded ''market_permitted'' g"
  "gate_currency x = Inr g \<Longrightarrow> recorded ''currency_match'' g"
  "gate_price x = Inr g \<Longrightarrow> recorded ''price_bounds'' g"
  "gate_spread x = Inr g \<Longrightarrow> recorded ''spread'' g"
  "gate_liquidity x = Inr g \<Longrightarrow> recorded ''liquidity'' g"
  "gate_slippage x ce = Inr g \<Longrightarrow> recorded ''slippage'' g"
  "gate_no_position x = Inr g \<Longrightarrow> recorded ''no_existing_position'' g"
  "gate_no_order x = Inr g \<Longrightarrow> recorded ''no_open_order'' g"
  "gate_position_count x = Inr g \<Longrightarrow> recorded ''position_count'' g"
  "gate_daily_loss x = Inr g \<Longrightarrow> recorded ''daily_loss'' g"
  "gate_daily_orders x = Inr g \<Longrightarrow> recorded ''daily_order_count'' g"
  unfolding gate_defs Let_def rbind_eq_Inr
  by (auto split: if_split_asm option.splits intro: record_check_recorded record_passed_recorded)

lemma eligibility_recorded:
  assumes "rmap (\<lambda>g. g) (eligibility_gates x) = Inr gs"
  shows "list_all2 recorded (check_names x) gs"
proof -
  have "list_all2 (\<lambda>i gate. \<forall>g. gate = Inr g \<longrightarrow> recorded i g) (check_names x) (eligibility_gates x)"
    by (cases "pi_cost_estimate x") (simp_all add: eligibility_gates_def check_names_def gates_recorded)
  then show ?thesis
    using assms by (auto simp: rmap_id_Inr list_all2_map2 split_paired_All elim!: list_all2_mono)
qed

lemma sizing_recorded:
  assumes "sizing_gates x = Inr (gs, sz)"
  shows "list_all2 recorded [''cash_reserve'', ''sized_quantity'', ''cash_sufficient''] gs"
  using assms unfolding sizing_gates_def Let_def rbind_eq_Inr
  by (auto split: prod.splits simp: rbind_eq_Inr intro: record_check_recorded)

lemma recorded_names: "list_all2 recorded is gs \<Longrightarrow> map rc_check_id (map fst gs) = is"
  by (induction rule: list_all2_induct) (simp_all add: recorded_def)

lemma recorded_outcomes:
  assumes "list_all2 recorded is gs" "\<forall>g \<in> set gs. passes g"
  shows "\<forall>c \<in> set (map fst gs). rc_outcome c = PASSED"
proof -
  have "rc_outcome (fst g) = PASSED" if "g \<in> set gs" for g
  proof -
    obtain n where "n < length gs" "g = gs ! n" using \<open>g \<in> set gs\<close> by (auto simp: in_set_conv_nth)
    then have "recorded (is ! n) g" using list_all2_nthD2[OF assms(1)] by blast
    then show ?thesis using assms(2) \<open>g \<in> set gs\<close> by (simp add: recorded_def)
  qed
  then show ?thesis by auto
qed

lemma all_names_distinct:
  "distinct (check_names x @ [''cash_reserve'', ''sized_quantity'', ''cash_sufficient''])"
  by (cases "pi_cost_estimate x") (simp_all add: check_names_def)

text \<open>
  The rest of the evaluation but the digest, as a test: an order whose checks pass is sealed by its
  own fingerprint, whatever that is.
\<close>

definition order_passes :: "proposal_inputs \<Rightarrow> sizing \<Rightarrow> exn + unit" where
  "order_passes x sz =
     rbind (exit_price (sz_entry_price sz) (dec_sub (dec_of_int 100) (tc_stop_loss_percent (config x))))
     (\<lambda>stop_loss. rbind (exit_price (sz_entry_price sz) (dec_add (dec_of_int 100) (tc_profit_exit_percent (config x))))
     (\<lambda>profit_exit. rbind (rbind (local_now x) (\<lambda>now. from_local (pi_zone x) (liquidation_reading (config x) now)))
     (\<lambda>liquidation_at. rbind (plus_seconds (instant_of (pi_evaluated_at x)) (tc_proposal_expiry_seconds (config x)))
     (\<lambda>expires. let terms = order_terms x sz stop_loss profit_exit liquidation_at expires;
          p = authorized_terms.extend terms
                (trade_proposal.fields (Aware (instant_of (pi_evaluated_at x))) PREPARED [] []) in
        rbind (fingerprint_fields terms)
        (\<lambda>_. all_checks (identity_checks p @ order_checks p @ amount_checks p @ time_checks p))))))"

lemma proposes_if:
  assumes "input_checks x = Inr ()" "eligibility_gates x = map Inr gs" "\<forall>g \<in> set gs. passes g"
    "sizing_gates x = Inr (sizes, sz)" "\<forall>g \<in> set sizes. passes g" "order_passes x sz = Inr ()"
  shows "\<exists>p checks. evaluate_trade_proposal x = Inr (Proposal p checks) \<and> at_notional p = sz_notional sz"
proof -
  have gs: "rmap (\<lambda>g. g) (eligibility_gates x) = Inr gs" using assms(2) by (simp add: rmap_id_Inr)
  have recorded: "list_all2 recorded (check_names x @ [''cash_reserve'', ''sized_quantity'', ''cash_sufficient'']) (gs @ sizes)"
    by (intro list_all2_appendI eligibility_recorded[OF gs] sizing_recorded[OF assms(4)])
  define checks where "checks = map fst (gs @ sizes)"
  have checks: "checks \<noteq> []" "distinct (map rc_check_id checks)" "\<forall>c \<in> set checks. rc_outcome c = PASSED"
    using recorded_names[OF recorded] recorded_outcomes[OF recorded] all_names_distinct[of x] assms(3,5)
    by (auto simp: checks_def check_names_def simp del: map_map)
  from assms(6) obtain stop_loss profit_exit liquidation_at expires fields where order:
    "exit_price (sz_entry_price sz) (dec_sub (dec_of_int 100) (tc_stop_loss_percent (config x))) = Inr stop_loss"
    "exit_price (sz_entry_price sz) (dec_add (dec_of_int 100) (tc_profit_exit_percent (config x))) = Inr profit_exit"
    "rbind (local_now x) (\<lambda>now. from_local (pi_zone x) (liquidation_reading (config x) now)) = Inr liquidation_at"
    "plus_seconds (instant_of (pi_evaluated_at x)) (tc_proposal_expiry_seconds (config x)) = Inr expires"
    "fingerprint_fields (order_terms x sz stop_loss profit_exit liquidation_at expires) = Inr fields"
    and passed: "\<forall>c \<in> set (identity_checks p @ order_checks p @ amount_checks p @ time_checks p). c = Inr ()"
      if "p = authorized_terms.extend (order_terms x sz stop_loss profit_exit liquidation_at expires)
        (trade_proposal.fields (Aware (instant_of (pi_evaluated_at x))) PREPARED [] [])" for p
    unfolding order_passes_def Let_def rbind_eq_Inr all_checks_Inr by blast
  define terms where "terms = order_terms x sz stop_loss profit_exit liquidation_at expires"
  define p where "p = authorized_terms.extend terms (trade_proposal.fields (Aware (instant_of (pi_evaluated_at x)))
    PREPARED checks (sha256_hex (join [CHR 0x0A] fields)))"
  have terms: "terms_of p = terms"
    by (simp add: p_def terms_of_def authorized_terms.defs trade_proposal.defs)
  have digest: "fingerprint_digest terms = Inr (sha256_hex (join [CHR 0x0A] fields))"
    using order(5) by (simp add: fingerprint_digest_def terms_def)
  have "\<forall>c \<in> set (identity_checks p @ order_checks p @ amount_checks p @ time_checks p). c = Inr ()"
    using passed[OF refl]
    by (simp add: p_def terms_def identity_checks_def order_checks_def amount_checks_def time_checks_def
        authorized_terms.defs trade_proposal.defs)
  moreover have "\<forall>c \<in> set (seal_checks p). c = Inr ()"
    using checks digest terms
    by (auto simp: seal_checks_def compute_fingerprint_def require_Inr p_def authorized_terms.defs trade_proposal.defs
        length_sha256_hex list_all_iff)
  ultimately have "proposal_checks p = Inr ()"
    by (auto simp: proposal_checks_def all_checks_Inr simp del: all_checks_simps)
  then have "assemble x sz stop_loss profit_exit liquidation_at (instant_of (pi_evaluated_at x)) checks = Inr p"
    using order(4) digest by (simp add: assemble_def Let_def terms_def[symmetric] make_proposal_def p_def)
  moreover have "reasons_of (gs @ sizes) = []" using assms(3,5) by (auto simp: map_filter_snd_Nil)
  ultimately have "evaluate_trade_proposal x = Inr (Proposal p checks)"
    using assms(1,4) gs order by (simp add: evaluate_trade_proposal_def Let_def checks_def)
  moreover have "at_notional p = sz_notional sz"
    by (simp add: p_def terms_def order_terms_def authorized_terms.defs trade_proposal.defs)
  ultimately show ?thesis by blast
qed

definition example_configuration :: "order_type \<Rightarrow> decimal \<Rightarrow> trading_configuration" where
  "example_configuration order cap =
     \<lparr>tc_governance_id = ''CFG-1'', tc_version = 1, tc_base_currency = ''USD'', tc_permitted_markets = [''XNAS''],
      tc_watchlist = [''AAPL''], tc_prohibited_instruments = [''GME''], tc_maximum_deployable_capital = Dec False 10000 0,
      tc_maximum_capital_per_trade = cap, tc_maximum_percent_per_trade = Dec False 25 0,
      tc_minimum_cash_reserve = Dec False 500 0, tc_maximum_simultaneous_positions = 3,
      tc_maximum_daily_loss = Dec False 200 0, tc_maximum_daily_order_count = 10, tc_minimum_price = Dec False 5 0,
      tc_maximum_price = Some (Dec False 500 0), tc_minimum_liquidity_shares = 1000000,
      tc_maximum_spread_percent = Dec False 5 (- 1), tc_maximum_slippage_percent = Dec False 5 (- 1),
      tc_maximum_evidence_age_seconds = 86400, tc_maximum_market_data_age_seconds = 5,
      tc_permitted_session = REGULAR, tc_earliest_entry_time = ClockTime False 36000000000,
      tc_latest_entry_time = ClockTime False 54000000000, tc_mandatory_liquidation_time = ClockTime False 57000000000,
      tc_operator_timezone = ''UTC'', tc_exchange_calendar_policy = ''XNAS-REGULAR'', tc_proposal_expiry_seconds = 300,
      tc_approval_expiry_seconds = 120, tc_default_order_type = order, tc_permitted_order_types = [LIMIT, MARKET],
      tc_limit_price_policy = ASK, tc_stop_loss_percent = Dec False 2 0, tc_profit_exit_percent = Dec False 4 0,
      tc_maximum_leverage = Dec False 1 0, tc_short_selling_permitted = False,
      tc_overnight_positions_permitted = False, tc_account_mode = PREPARATION, tc_kill_switch = DISENGAGED\<rparr>"

text \<open>Monday 2 March 2026, 14:00 UTC.\<close>

definition example_instant :: int where "example_instant = 1772460000000000"

definition example_inputs :: "order_type \<Rightarrow> decimal \<Rightarrow> decimal \<Rightarrow> proposal_inputs" where
  "example_inputs order cap ask =
     \<lparr>pi_configuration = example_configuration order cap, pi_zone = utc_zone, pi_context_id = ''CTX-1'',
      pi_proposal_id = ''PRP-1'', pi_evaluated_at = Aware example_instant, pi_symbol = ''AAPL'',
      pi_quote = \<lparr>qs_id = ''Q-1'', qs_provider = ''P'', qs_symbol = ''AAPL'', qs_bid = ask, qs_ask = ask,
        qs_last_trade = ask, qs_observed_at = Aware (example_instant - 1000000), qs_feed_kind = REAL_TIME\<rparr>,
      pi_account = \<lparr>as_id = ''A-1'', as_provider = ''P'', as_account_reference = ''ACC'', as_base_currency = ''USD'',
        as_cash_available = Dec False 5000 0, as_equity_total = Dec False 5000 0,
        as_realized_pnl_today = Dec True 50 0, as_orders_submitted_today = 2, as_observed_at = Aware example_instant\<rparr>,
      pi_session = \<lparr>ss_id = ''S-1'', ss_provider = ''P'', ss_market = ''XNAS'', ss_status = MARKET_OPEN,
        ss_observed_at = Aware example_instant\<rparr>,
      pi_instrument = \<lparr>im_symbol = ''AAPL'', im_market = ''XNAS'', im_currency = ''USD'',
        im_is_fractionable = False, im_lot_size = 1\<rparr>,
      pi_liquidity = \<lparr>ls_symbol = ''AAPL'', ls_average_daily_volume_shares = 5000000,
        ls_observed_at = Aware example_instant\<rparr>,
      pi_cost_estimate = Some \<lparr>ce_id = ''C-1'', ce_provider = ''P'', ce_symbol = ''AAPL'', ce_commission = Dec False 1 0,
        ce_slippage_percent = Dec False 1 (- 1), ce_observed_at = Aware example_instant\<rparr>,
      pi_positions = [\<lparr>ps_symbol = ''MSFT'', ps_quantity = 3, ps_average_price = Dec False 300 0\<rparr>],
      pi_open_orders = [], pi_evidence_age_seconds = Dec False 3600 0\<rparr>"

lemma example_configuration_valid:
  "configuration_checks (\<lambda>z. if z = ''UTC'' then Some utc_zone else None)
     (example_configuration LIMIT (Dec False 2000 0)) = Inr ()"
  by code_simp

definition gate_passes :: "exn + gate \<Rightarrow> bool" where
  "gate_passes r = (case r of Inl _ \<Rightarrow> False | Inr g \<Rightarrow> snd g = None)"

lemma gates_pass: "list_all gate_passes xs \<Longrightarrow> \<exists>gs. xs = map Inr gs \<and> (\<forall>g \<in> set gs. passes g)"
proof (induction xs)
  case (Cons r xs)
  then obtain g gs where "r = Inr g" "snd g = None" "xs = map Inr gs" "\<forall>g \<in> set gs. passes g"
    by (auto simp: gate_passes_def split: sum.splits)
  then show ?case by (intro exI[of _ "g # gs"]) (simp add: passes_def)
qed simp

text \<open>The checks of the example that depend on neither the order type, the limit nor the price.\<close>

lemma example_market:
  "gate_passes (gate_kill_switch (example_inputs order cap ask))"
  "gate_passes (gate_market_status (example_inputs order cap ask))"
  "gate_passes (gate_feed (example_inputs order cap ask))"
  "gate_passes (gate_evidence_age (example_inputs order cap ask))"
  "gate_passes (gate_cost_estimate (example_inputs order cap ask))"
  "gate_passes (gate_prohibited (example_inputs order cap ask))"
  "gate_passes (gate_watchlisted (example_inputs order cap ask))"
  "gate_passes (gate_market_permitted (example_inputs order cap ask))"
  "gate_passes (gate_currency (example_inputs order cap ask))"
  "gate_passes (gate_liquidity (example_inputs order cap ask))"
  "gate_passes (gate_slippage (example_inputs order cap ask) (the (pi_cost_estimate (example_inputs order cap ask))))"
  "gate_passes (gate_no_position (example_inputs order cap ask))"
  "gate_passes (gate_no_order (example_inputs order cap ask))"
  "gate_passes (gate_position_count (example_inputs order cap ask))"
  "gate_passes (gate_daily_loss (example_inputs order cap ask))"
  "gate_passes (gate_daily_orders (example_inputs order cap ask))"
  by code_simp+

lemma example_age: "gate_passes (gate_quote_age (example_inputs order cap ask))"
  by code_simp

lemma example_window: "gate_passes (gate_entry_window (example_inputs order cap ask))"
  by code_simp

lemma example_liquidation: "gate_passes (gate_liquidation (example_inputs order cap ask))"
  by code_simp

lemma example_gates:
  assumes "gate_passes (gate_price (example_inputs order cap ask))" "gate_passes (gate_spread (example_inputs order cap ask))"
  shows "list_all gate_passes (eligibility_gates (example_inputs order cap ask))"
proof -
  have "pi_cost_estimate (example_inputs order cap ask) \<noteq> None" by (simp add: example_inputs_def)
  then show ?thesis
    using assms example_market[of order cap ask] example_age example_window example_liquidation
    by (auto simp: eligibility_gates_def)
qed

abbreviation buying :: proposal_inputs where
  "buying \<equiv> example_inputs LIMIT (Dec False 2000 0) (Dec False 100 0)"

lemma buying_price: "gate_passes (gate_price buying)"
  by code_simp

lemma buying_spread: "gate_passes (gate_spread buying)"
  by code_simp

lemma buying_sizing:
  "case sizing_gates buying of Inl _ \<Rightarrow> False | Inr (gs, sz) \<Rightarrow> list_all (\<lambda>g. snd g = None) gs
     \<and> sz = \<lparr>sz_limit_price = Dec False 10000 (- 2), sz_entry_price = Dec False 10000 (- 2), sz_quantity = 20,
         sz_notional = Dec False 200000 (- 2), sz_fees = Dec False 100 (- 2), sz_slippage = Dec False 200 (- 2),
         sz_total_cash = Dec False 200300 (- 2)\<rparr>"
  by code_simp

lemma buying_order:
  "order_passes buying
     \<lparr>sz_limit_price = Dec False 10000 (- 2), sz_entry_price = Dec False 10000 (- 2), sz_quantity = 20,
      sz_notional = Dec False 200000 (- 2), sz_fees = Dec False 100 (- 2), sz_slippage = Dec False 200 (- 2),
      sz_total_cash = Dec False 200300 (- 2)\<rparr> = Inr ()"
  by code_simp

lemma example_proposes:
  assumes "gate_passes (gate_price (example_inputs order cap ask))" "gate_passes (gate_spread (example_inputs order cap ask))"
    and "case sizing_gates (example_inputs order cap ask) of Inl _ \<Rightarrow> False
      | Inr (gs, sz') \<Rightarrow> list_all (\<lambda>g. snd g = None) gs \<and> sz' = sz"
    and "order_passes (example_inputs order cap ask) sz = Inr ()"
  shows "\<exists>p checks. evaluate_trade_proposal (example_inputs order cap ask) = Inr (Proposal p checks)
     \<and> at_notional p = sz_notional sz"
proof -
  have inputs: "input_checks (example_inputs order cap ask) = Inr ()"
    by (simp add: input_checks_def example_inputs_def require_def ensure_def canonical_def upper_case_def
        comparable_def changed_by_upper_def strip_def) code_simp
  obtain gs where gs: "eligibility_gates (example_inputs order cap ask) = map Inr gs" "\<forall>g \<in> set gs. passes g"
    using gates_pass[OF example_gates[OF assms(1,2)]] by blast
  obtain sizes where sizes: "sizing_gates (example_inputs order cap ask) = Inr (sizes, sz)" "\<forall>g \<in> set sizes. passes g"
    using assms(3) by (auto simp: list_all_iff passes_def split: sum.splits)
  show ?thesis by (rule proposes_if[OF inputs gs sizes assms(4)])
qed

lemmas buying_proposes = example_proposes[OF buying_price buying_spread buying_sizing buying_order]

text \<open>An ask and a limit per trade of 100.015: one share at the ask, on the limit.\<close>

abbreviation on_the_limit :: proposal_inputs where
  "on_the_limit \<equiv> example_inputs MARKET (Dec False 100015 (- 3)) (Dec False 100015 (- 3))"

lemma on_the_limit_price: "gate_passes (gate_price on_the_limit)"
  by code_simp

lemma on_the_limit_spread: "gate_passes (gate_spread on_the_limit)"
  by code_simp

lemma on_the_limit_sizing:
  "case sizing_gates on_the_limit of Inl _ \<Rightarrow> False | Inr (gs, sz) \<Rightarrow> list_all (\<lambda>g. snd g = None) gs
     \<and> sz = \<lparr>sz_limit_price = Dec False 10002 (- 2), sz_entry_price = Dec False 100015 (- 3), sz_quantity = 1,
         sz_notional = Dec False 10002 (- 2), sz_fees = Dec False 100 (- 2), sz_slippage = Dec False 10 (- 2),
         sz_total_cash = Dec False 10112 (- 2)\<rparr>"
  by code_simp

lemma on_the_limit_order:
  "order_passes on_the_limit
     \<lparr>sz_limit_price = Dec False 10002 (- 2), sz_entry_price = Dec False 100015 (- 3), sz_quantity = 1,
      sz_notional = Dec False 10002 (- 2), sz_fees = Dec False 100 (- 2), sz_slippage = Dec False 10 (- 2),
      sz_total_cash = Dec False 10112 (- 2)\<rparr> = Inr ()"
  by code_simp

section \<open>Properties\<close>

text \<open>
  C7. The engine declines with an objection, and it is the one that comes first in the precedence,
  whatever the order of the checks.
\<close>

theorem engine_declines_by_precedence:
  assumes "evaluate_trade_proposal x = Inr (NoTrade r checks)"
  shows "objection x r \<and> (\<forall>r'. objection x r' \<longrightarrow> r' = r \<or> precedence_index r < precedence_index r')"
  using evaluate_reasons[OF assms] precedence_index_inj by (auto simp: le_less)

text \<open>Outside the entry window and with the stop engaged, the stop is the reason.\<close>

definition declined :: proposal_inputs where
  "declined =
     buying\<lparr>pi_configuration := (pi_configuration buying)\<lparr>tc_kill_switch := ENGAGED\<rparr>,
       pi_session := (pi_session buying)\<lparr>ss_status := MARKET_CLOSED\<rparr>\<rparr>"

lemma declined_gates:
  "eligibility_gates declined
     = gate_kill_switch declined # gate_market_status declined # drop 2 (eligibility_gates buying)"
  "sizing_gates declined = sizing_gates buying" "input_checks declined = input_checks buying"
  by (simp_all add: eligibility_gates_def gate_defs sizing_gates_def input_checks_def declined_def
      local_now_def currency_matches_def in_entry_window_def liquidation_reading_def price_in_bounds_def
      deployable_capital_def cong: if_cong option.case_cong)

lemma engine_declines_by_precedence_witness:
  "\<exists>checks. evaluate_trade_proposal declined = Inr (NoTrade KILL_SWITCH_ENGAGED checks)
     \<and> objection declined MARKET_NOT_OPEN"
proof -
  obtain p0 checks0 where "evaluate_trade_proposal buying = Inr (Proposal p0 checks0)"
    using buying_proposes by blast
  from evaluate_Inr[OF this] obtain gs sizes sz where parts: "input_checks buying = Inr ()"
    "eligibility_gates buying = map Inr gs" "sizing_gates buying = Inr (sizes, sz)"
    by (auto simp: rmap_id_Inr)
  obtain g1 g2 where "gate_kill_switch declined = Inr g1" "gate_market_status declined = Inr g2"
    "snd g1 = Some KILL_SWITCH_ENGAGED"
  proof -
    have "case gate_kill_switch declined of Inl _ \<Rightarrow> False | Inr g \<Rightarrow> snd g = Some KILL_SWITCH_ENGAGED"
      by code_simp
    moreover have "case gate_market_status declined of Inl _ \<Rightarrow> False | Inr g \<Rightarrow> True"
      by code_simp
    ultimately show thesis using that by (auto split: sum.splits)
  qed
  then have gates: "rmap (\<lambda>g. g) (eligibility_gates declined) = Inr (g1 # g2 # drop 2 gs)"
    "reasons_of ((g1 # g2 # drop 2 gs) @ sizes) \<noteq> []"
    unfolding rmap_id_Inr by (simp_all add: declined_gates parts drop_map reasons_of_def map_filter_simps)
  then obtain r checks where declines: "evaluate_trade_proposal declined = Inr (NoTrade r checks)"
    by (cases "reasons_of ((g1 # g2 # drop 2 gs) @ sizes)")
      (simp_all add: evaluate_trade_proposal_def declined_gates parts Let_def)
  have objections: "objection declined KILL_SWITCH_ENGAGED" "objection declined MARKET_NOT_OPEN"
    by (simp_all add: objection_def declined_def)
  have "r = KILL_SWITCH_ENGAGED"
    using engine_declines_by_precedence[OF declines] objections(1)
    by (auto simp: precedence_index_def reason_precedence_def)
  with declines objections show ?thesis by blast
qed

text \<open>
  C1. The engine proposes only when nothing objects: the market is ready, the data fresh, the instrument
  eligible, the portfolio free and the sized order affordable; the proposal carries that order, its
  exits come from the configured percentages of the entry price, and every recorded check passed.
\<close>

theorem engine_proposes_only_when_safe:
  assumes "evaluate_trade_proposal x = Inr (Proposal p checks)"
  shows "(\<nexists>r. objection x r) \<and> market_ready x \<and> data_fresh x \<and> instrument_eligible x \<and> portfolio_free x
     \<and> (\<exists>deployable spendable sz. sizing_of x deployable spendable sz \<and> affordable spendable sz \<and> carries x sz p
          \<and> exit_price (sz_entry_price sz) (dec_sub (dec_of_int 100) (tc_stop_loss_percent (config x)))
              = Inr (at_stop_loss_price p)
          \<and> exit_price (sz_entry_price sz) (dec_add (dec_of_int 100) (tc_profit_exit_percent (config x)))
              = Inr (at_profit_exit_price p))
     \<and> tp_risk_checks p = checks \<and> (\<forall>c \<in> set checks. rc_outcome c = PASSED)"
proof -
  note parts = proposal_parts[OF assms]
  then have "\<forall>c \<in> set checks. rc_outcome c = PASSED"
    by (auto simp: carries_def proposal_checks_def seal_checks_def list_all_iff all_checks_Inr ball_Un require_Inr
        simp del: all_checks_simps)
  with parts show ?thesis using evaluate_reasons[OF assms] by simp
qed

lemma engine_proposes_only_when_safe_witness:
  "\<exists>p checks. evaluate_trade_proposal buying = Inr (Proposal p checks) \<and> market_ready buying
     \<and> (\<forall>c \<in> set checks. rc_outcome c = PASSED)"
  using buying_proposes engine_proposes_only_when_safe[of buying] by blast

text \<open>
  C4. A proposed order is a positive whole number of lots, and its quantity at the entry price is within
  the limit per trade and within the cash above the reserve, for any amounts with at most eight
  decimals below one hundred million: the decimal divisions never round up to a share too many. Its
  estimated total with fees and slippage is within the cash above the reserve too.
\<close>

theorem proposed_order_within_limits:
  assumes "evaluate_trade_proposal x = Inr (Proposal p checks)" "1 \<le> im_lot_size (pi_instrument x)"
    and "grained (- 8) (tc_maximum_deployable_capital (config x))"
      "grained (- 8) (tc_maximum_percent_per_trade (config x))" "plain (tc_maximum_capital_per_trade (config x))"
      "plain (as_cash_available (pi_account x))" "plain (tc_minimum_cash_reserve (config x))"
      "grained (- 8) (qs_bid (pi_quote x))" "grained (- 8) (qs_ask (pi_quote x))"
      "grained (- 8) (qs_last_trade (pi_quote x))"
  shows "0 < at_quantity p \<and> im_lot_size (pi_instrument x) dvd at_quantity p
     \<and> of_int (at_quantity p) * dec_value (entry_price x p) \<le> dec_value (tc_maximum_capital_per_trade (config x))
     \<and> of_int (at_quantity p) * dec_value (entry_price x p)
         \<le> dec_value (as_cash_available (pi_account x)) - dec_value (tc_minimum_cash_reserve (config x))
     \<and> dec_value (at_total_cash p)
         \<le> dec_value (as_cash_available (pi_account x)) - dec_value (tc_minimum_cash_reserve (config x))"
proof -
  obtain deployable spendable sz where sizing: "sizing_of x deployable spendable sz" "affordable spendable sz"
    and carried: "carries x sz p"
    using proposal_sizing[OF assms(1)] by blast
  have entry: "entry_price x p = sz_entry_price sz"
    using carried sizing(1) by (simp add: carries_def entry_price_def sizing_of_def)
  have total: "is_finite (at_total_cash p)"
    using carried by (auto simp: carries_def proposal_checks_def amount_checks_def require_amount_def all_checks_Inr
        ball_Un require_Inr simp del: all_checks_simps)
  show ?thesis
    using sized_order_sound[OF sizing assms(2-10)] carried sizing(2) entry total
    by (auto simp: carries_def affordable_def compare_at_value)
qed

lemma proposed_order_within_limits_witness:
  "\<exists>p checks. evaluate_trade_proposal buying = Inr (Proposal p checks) \<and> 0 < at_quantity p
     \<and> dec_value (at_total_cash p) \<le> 4500"
proof -
  obtain p checks where p: "evaluate_trade_proposal buying = Inr (Proposal p checks)"
    using buying_proposes by blast
  have plain: "plain (Dec False c 0)" if "0 \<le> c" "c < 10 ^ 8" for c
    using that by (simp add: plain_def magnitude_def)
  show ?thesis
    using p proposed_order_within_limits[OF p]
    by (intro exI[of _ p] exI[of _ checks]) (simp add: example_inputs_def example_configuration_def plain magnitude_def)
qed


end
