(* ===== verification/Transitions.thy ===== *)
theory Transitions
  imports Values
begin

text \<open>
  Lifecycle history shared by the four aggregates: the transition record
  (\<^verbatim>\<open>shared/domain/transitions.py\<close>), the validator reconstruction runs over a stored history
  (\<^verbatim>\<open>shared/domain/reconstruction.py\<close>), the field-level durable form of identities and
  transitions (\<^verbatim>\<open>shared/contracts/mapping.py\<close>), and the invariant the aggregates keep on
  their history, with the lemmas that extend it by one transition and that show the
  validator accepts it.
\<close>

section \<open>Transition records\<close>

record transition =
  tr_from :: "string option"
  tr_to :: string
  tr_version :: aggregate_version
  tr_sequence :: transition_sequence
  tr_actor :: string
  tr_occurred_at :: datetime
  tr_identity :: "domain_identity option"
  tr_correlation :: "string option"
  tr_reason :: "string option"

definition transition_post_init :: "transition \<Rightarrow> exn + unit" where
  "transition_post_init r =
     rbind (ensure (opt_all (\<lambda>s. \<not> blank s) (tr_from r))
              (ValueError ''from_state must be non-empty when provided''))
     (\<lambda>_. rbind (ensure (\<not> blank (tr_to r)) (ValueError ''to_state must be non-empty''))
     (\<lambda>_. rbind (ensure (\<not> blank (tr_actor r)) (ValueError ''actor must be non-empty''))
     (\<lambda>_. rbind (ensure (opt_all (\<lambda>s. \<not> blank s) (tr_correlation r))
              (ValueError ''correlation_id must be non-empty when provided''))
     (\<lambda>_. ensure (opt_all (\<lambda>s. \<not> blank s) (tr_reason r))
              (ValueError ''reason must be non-empty when provided'')))))"

definition make_transition :: "transition \<Rightarrow> exn + transition" where
  "make_transition r = rbind (transition_post_init r) (\<lambda>_. Inr r)"

definition transition_ok :: "transition \<Rightarrow> bool" where
  "transition_ok r \<longleftrightarrow>
     opt_all (\<lambda>s. \<not> blank s) (tr_from r) \<and> \<not> blank (tr_to r) \<and> \<not> blank (tr_actor r)
     \<and> opt_all (\<lambda>s. \<not> blank s) (tr_correlation r) \<and> opt_all (\<lambda>s. \<not> blank s) (tr_reason r)"

lemma transition_post_init_Inr: "transition_post_init r = Inr u \<longleftrightarrow> transition_ok r"
  by (auto simp: transition_post_init_def transition_ok_def result_eqs)

lemma make_transition_Inr [result_eqs]: "make_transition r = Inr r' \<longleftrightarrow> r' = r \<and> transition_ok r"
  by (auto simp: make_transition_def result_eqs transition_post_init_Inr)

lemma make_transition_ok: "transition_ok r \<Longrightarrow> make_transition r = Inr r"
  by (simp add: make_transition_Inr)

section \<open>The history validator\<close>

definition history_error :: "reconstruction_category \<Rightarrow> string \<Rightarrow> exn" where
  "history_error cat msg = ReconstructionError cat msg ''transition_history''"

definition edge_of :: "transition \<Rightarrow> string \<times> string" where
  "edge_of r = (case tr_from r of None \<Rightarrow> [] | Some s \<Rightarrow> s, tr_to r)"

text \<open>
  The loop of \<^verbatim>\<open>_validate_transition_history\<close>: \<open>index\<close> counts from 1, \<open>prev\<close> is
  \<^verbatim>\<open>previous_to_state\<close> and \<open>highest\<close> the running \<^verbatim>\<open>highest_version\<close>.
\<close>

fun validate_history_loop ::
    "domain_identity \<Rightarrow> string \<Rightarrow> (string \<times> string) list \<Rightarrow> string list
     \<Rightarrow> int \<Rightarrow> string option \<Rightarrow> aggregate_version \<Rightarrow> transition list
     \<Rightarrow> exn + (string option \<times> aggregate_version)" where
  "validate_history_loop ident init edges terms index prev highest [] = Inr (prev, highest)"
| "validate_history_loop ident init edges terms index prev highest (r # rs) =
     rbind (ensure (\<not> (tr_identity r \<noteq> None \<and> tr_identity r \<noteq> Some ident))
       (history_error INVALID_TRANSITION_HISTORY
          ''transition history identity does not match aggregate identity''))
     (\<lambda>_. rbind (ensure (tr_sequence r = TransitionSequence index)
       (history_error INVALID_TRANSITION_SEQUENCE
          ''transition history sequences must be contiguous from 1''))
     (\<lambda>_. rbind (ensure (\<not> (index = 1 \<and> tr_from r \<noteq> Some init))
       (history_error INVALID_TRANSITION_HISTORY
          ''first transition must originate from the canonical initial state''))
     (\<lambda>_. rbind
       (case prev of
          None \<Rightarrow> Inr ()
        | Some p \<Rightarrow>
            rbind (ensure (p \<notin> set terms)
              (history_error INVALID_TRANSITION_HISTORY
                 ''terminal transition may not be followed by another transition''))
            (\<lambda>_. ensure (tr_from r = Some p)
              (history_error INVALID_TRANSITION_HISTORY
                 ''transition history is not a connected lifecycle path'')))
     (\<lambda>_. rbind (ensure (edge_of r \<in> set edges)
       (history_error INVALID_TRANSITION_HISTORY
          ''transition history contains an invalid lifecycle edge''))
     (\<lambda>_. validate_history_loop ident init edges terms (index + 1) (Some (tr_to r))
            (if highest < tr_version r then tr_version r else highest) rs)))))"

definition validate_transition_history ::
    "transition list \<Rightarrow> domain_identity \<Rightarrow> string \<Rightarrow> string \<Rightarrow> (string \<times> string) list
     \<Rightarrow> string list \<Rightarrow> transition_sequence \<Rightarrow> string list \<Rightarrow> exn + aggregate_version" where
  "validate_transition_history history ident current init edges terms next_seq allow_empty =
     (if history = [] then
        rbind (ensure (current \<in> set allow_empty)
          (history_error INVALID_TRANSITION_HISTORY
             ''empty transition history is not valid for the restored state''))
        (\<lambda>_. rbind (ensure (next_seq = sequence_initial)
          (ReconstructionError INVALID_TRANSITION_SEQUENCE
             ''empty transition history requires next sequence 1'' ''next_transition_sequence''))
        (\<lambda>_. Inr version_initial))
      else
        rbind (validate_history_loop ident init edges terms 1 None version_initial history)
        (\<lambda>(prev, highest).
          rbind (ensure (prev = Some current)
            (ReconstructionError INCONSISTENT_CURRENT_STATE
               ''final transition state does not match restored current state'' ''state''))
          (\<lambda>_. rbind (ensure (next_seq = TransitionSequence (int (length history) + 1))
            (ReconstructionError INVALID_TRANSITION_SEQUENCE
               ''next transition sequence must follow the final history sequence''
               ''next_transition_sequence''))
          (\<lambda>_. Inr highest))))"

section \<open>What the validator accepts\<close>

definition highest_of :: "aggregate_version \<Rightarrow> transition list \<Rightarrow> aggregate_version" where
  "highest_of v rs = fold (\<lambda>r h. max h (tr_version r)) rs v"

text \<open>A history is a path: every record starts where the one before it ended.\<close>

definition connected_from :: "string \<Rightarrow> transition list \<Rightarrow> bool" where
  "connected_from s rs \<longleftrightarrow> map tr_from rs = map Some (butlast (s # map tr_to rs))"

definition numbered_from :: "int \<Rightarrow> transition list \<Rightarrow> bool" where
  "numbered_from n rs \<longleftrightarrow>
     map tr_sequence rs = map (\<lambda>(i, _). TransitionSequence i) (enumerate_from n rs)"

text \<open>The declarative reading of a valid history, without loop state.\<close>

definition history_valid ::
    "domain_identity \<Rightarrow> string \<Rightarrow> string \<Rightarrow> (string \<times> string) list \<Rightarrow> string list
     \<Rightarrow> transition_sequence \<Rightarrow> string list \<Rightarrow> transition list \<Rightarrow> bool" where
  "history_valid ident current init edges terms next_seq allow_empty rs \<longleftrightarrow>
     (\<forall>r \<in> set rs. (tr_identity r = None \<or> tr_identity r = Some ident) \<and> edge_of r \<in> set edges)
     \<and> numbered_from 1 rs \<and> connected_from init rs
     \<and> (\<forall>s \<in> set (butlast (map tr_to rs)). s \<notin> set terms)
     \<and> (if rs = [] then current \<in> set allow_empty else tr_to (last rs) = current)
     \<and> next_seq = TransitionSequence (int (length rs) + 1)"

lemma numbered_from_simps [simp]:
  "numbered_from n []"
  "numbered_from n (r # rs) \<longleftrightarrow> tr_sequence r = TransitionSequence n \<and> numbered_from (n + 1) rs"
  by (auto simp: numbered_from_def)

lemma connected_from_simps [simp]:
  "connected_from s []"
  "connected_from s (r # rs) \<longleftrightarrow> tr_from r = Some s \<and> connected_from (tr_to r) rs"
  by (auto simp: connected_from_def)

lemma highest_of_simps [simp]:
  "highest_of v [] = v" "highest_of v (r # rs) = highest_of (max v (tr_version r)) rs"
  by (simp_all add: highest_of_def)

lemma validate_history_loop_iff:
  assumes "prev = None \<longleftrightarrow> index = 1" and "1 \<le> index"
  shows "validate_history_loop ident init edges terms index prev highest rs = Inr (p, h) \<longleftrightarrow>
     (\<forall>r \<in> set rs. (tr_identity r = None \<or> tr_identity r = Some ident) \<and> edge_of r \<in> set edges)
     \<and> numbered_from index rs
     \<and> connected_from (case prev of None \<Rightarrow> init | Some q \<Rightarrow> q) rs
     \<and> (\<forall>s \<in> set (butlast (case prev of None \<Rightarrow> map tr_to rs | Some q \<Rightarrow> q # map tr_to rs)).
           s \<notin> set terms)
     \<and> p = (if rs = [] then prev else Some (tr_to (last rs)))
     \<and> h = highest_of highest rs"
  using assms
proof (induction rs arbitrary: index prev highest)
  case Nil
  then show ?case by (auto split: option.splits)
next
  case (Cons r rs)
  have step: "(Some (tr_to r) = None) = (index + 1 = 1)" "1 \<le> index + 1"
    using Cons.prems by auto
  have mx: "(if highest < tr_version r then tr_version r else highest) = max highest (tr_version r)"
    by (auto simp: max_def)
  show ?case
  proof (cases prev)
    case None
    with Cons.prems have "index = 1" by simp
    with None show ?thesis
      using Cons.IH[OF step, of "max highest (tr_version r)"]
      by (auto simp: result_eqs mx simp del: max_less_iff_conj)
  next
    case (Some q)
    with Cons.prems have "index \<noteq> 1" by simp
    with Some show ?thesis
      using Cons.IH[OF step, of "max highest (tr_version r)"]
      by (auto simp: result_eqs mx)
  qed
qed

lemma validate_transition_history_iff:
  "validate_transition_history rs ident current init edges terms next_seq allow_empty = Inr h \<longleftrightarrow>
     history_valid ident current init edges terms next_seq allow_empty rs
     \<and> h = highest_of version_initial rs"
proof (cases "rs = []")
  case True
  then show ?thesis
    by (auto simp: validate_transition_history_def history_valid_def result_eqs sequence_initial_def)
next
  case False
  then show ?thesis
    by (auto simp: validate_transition_history_def history_valid_def result_eqs
        validate_history_loop_iff)
qed

section \<open>The invariant a live aggregate keeps on its history\<close>

text \<open>
  Stronger than validity: every record names the aggregate itself, passed its own checks,
  and the versions rise strictly from above 0 up to the aggregate's current version.
\<close>

definition history_inv ::
    "domain_identity \<Rightarrow> string \<Rightarrow> (string \<times> string) list \<Rightarrow> string list
     \<Rightarrow> string \<Rightarrow> transition_sequence \<Rightarrow> aggregate_version \<Rightarrow> transition list \<Rightarrow> bool" where
  "history_inv ident init edges terms current next_seq ver rs \<longleftrightarrow>
     (\<forall>r \<in> set rs. tr_identity r = Some ident \<and> edge_of r \<in> set edges \<and> transition_ok r)
     \<and> numbered_from 1 rs \<and> connected_from init rs
     \<and> (\<forall>s \<in> set (butlast (map tr_to rs)). s \<notin> set terms)
     \<and> current = (if rs = [] then init else tr_to (last rs))
     \<and> next_seq = TransitionSequence (int (length rs) + 1)
     \<and> sorted_wrt (<) (version_initial # map tr_version rs)
     \<and> (\<forall>v \<in> set (version_initial # map tr_version rs). v \<le> ver)"

lemma history_inv_initial:
  "history_inv ident init edges terms init sequence_initial version_initial []"
  by (simp add: history_inv_def sequence_initial_def)

lemma history_inv_version: "history_inv i0 s e t c n v rs \<Longrightarrow> version_initial \<le> v"
  by (simp add: history_inv_def)

lemma connected_from_append:
  "connected_from s (rs @ [r]) \<longleftrightarrow>
     connected_from s rs \<and> tr_from r = Some (if rs = [] then s else tr_to (last rs))"
  by (induction rs arbitrary: s) auto

lemma numbered_from_append:
  "numbered_from n (rs @ [r]) \<longleftrightarrow>
     numbered_from n rs \<and> tr_sequence r = TransitionSequence (n + int (length rs))"
  by (induction rs arbitrary: n) (auto simp: algebra_simps)

lemma version_less_next: "v \<le> w \<Longrightarrow> v < version_next w"
  by (simp add: version_order)

lemma version_le_next [simp]: "v \<le> version_next v"
  by (simp add: version_order)

lemma history_inv_snoc:
  assumes inv: "history_inv ident init edges terms current next_seq ver rs"
    and live: "current \<notin> set terms"
    and rec: "tr_from r = Some current" "tr_to r = target" "tr_version r = version_next ver"
      "tr_sequence r = next_seq" "tr_identity r = Some ident" "transition_ok r"
    and edge: "(current, target) \<in> set edges"
  shows "history_inv ident init edges terms target (sequence_next next_seq) (version_next ver) (rs @ [r])"
proof -
  have cur: "current = (if rs = [] then init else tr_to (last rs))"
    and ends: "\<forall>s \<in> set (butlast (map tr_to rs)). s \<notin> set terms"
    and old: "\<forall>v \<in> set (version_initial # map tr_version rs). v \<le> ver"
    and n: "next_seq = TransitionSequence (int (length rs) + 1)"
    using inv by (simp_all add: history_inv_def)
  have "\<forall>s \<in> set (map tr_to rs). s \<notin> set terms"
  proof (cases "rs = []")
    case False
    then have "set (map tr_to rs) = set (butlast (map tr_to rs)) \<union> {tr_to (last rs)}"
      by (metis append_butlast_last_id last_map list.simps(15) map_is_Nil_conv set_append
          list.set(1))
    with ends live cur False show ?thesis by auto
  qed simp
  moreover have "\<forall>v \<in> set (version_initial # map tr_version rs). v < version_next ver"
    using old version_less_next by blast
  moreover have "\<forall>v \<in> set (version_initial # map tr_version rs). v \<le> version_next ver"
    using old by (meson order_trans version_le_next)
  ultimately show ?thesis
    using inv rec edge cur n
    by (auto simp: history_inv_def connected_from_append numbered_from_append butlast_append
        sequence_next_def edge_of_def sorted_wrt_append)
qed

lemma history_inv_bump:
  "history_inv ident init edges terms current next_seq ver rs \<Longrightarrow> ver \<le> ver'
   \<Longrightarrow> history_inv ident init edges terms current next_seq ver' rs"
  by (fastforce simp: history_inv_def)

lemma highest_of_le: "\<forall>v \<in> set (h # map tr_version rs). v \<le> w \<Longrightarrow> highest_of h rs \<le> w"
  by (induction rs arbitrary: h) auto

lemma history_inv_validates:
  assumes "history_inv ident init edges terms current next_seq ver rs" and "init \<in> set allow_empty"
  shows "\<exists>h. validate_transition_history rs ident current init edges terms next_seq allow_empty = Inr h
             \<and> h \<le> ver"
proof (intro exI conjI)
  show "validate_transition_history rs ident current init edges terms next_seq allow_empty
        = Inr (highest_of version_initial rs)"
    using assms by (auto simp: validate_transition_history_iff history_inv_def history_valid_def)
  show "highest_of version_initial rs \<le> ver"
    using assms by (intro highest_of_le) (simp add: history_inv_def)
qed

lemma history_inv_sequence_pos: "history_inv i s e t c n v rs \<Longrightarrow> 1 \<le> sequence_value n"
  by (simp add: history_inv_def)

text \<open>Sequence numbers and versions of every record are in the ranges their classes require.\<close>

lemma numbered_from_pos:
  "numbered_from n rs \<Longrightarrow> r \<in> set rs \<Longrightarrow> n \<le> sequence_value (tr_sequence r)"
proof (induction rs arbitrary: n)
  case (Cons x xs)
  show ?case
  proof (cases "r = x")
    case True
    with Cons.prems show ?thesis by simp
  next
    case False
    with Cons.prems Cons.IH[of "n + 1"] show ?thesis by simp
  qed
qed simp

lemma history_inv_record:
  assumes "history_inv ident init edges terms current next_seq ver rs" and "r \<in> set rs"
  shows "0 \<le> version_value (tr_version r)" "1 \<le> sequence_value (tr_sequence r)"
    "transition_ok r" "tr_identity r = Some ident"
  using assms numbered_from_pos[of 1 rs r]
  by (auto simp: history_inv_def version_order)

section \<open>Durable form\<close>

record identity_durable =
  idr_governance_id :: string
  idr_runtime_id :: string

record transition_durable =
  trd_from :: "string option"
  trd_to :: string
  trd_version :: int
  trd_sequence :: int
  trd_actor :: string
  trd_occurred_at :: datetime
  trd_identity :: "identity_durable option"
  trd_correlation :: "string option"
  trd_reason :: "string option"

text \<open>
  The four mapper modules repeat the two directions with their own identifier class, which
  is the parameter here.
\<close>

definition identity_to_durable :: "domain_identity \<Rightarrow> identity_durable" where
  "identity_to_durable i = \<lparr>idr_governance_id = gov_str i, idr_runtime_id = run_str i\<rparr>"

definition identity_from_durable :: "id_class \<Rightarrow> identity_durable \<Rightarrow> exn + domain_identity" where
  "identity_from_durable cls d =
     rbind (make_identifier cls (idr_governance_id d))
     (\<lambda>g. rbind (make_runtime_identifier (idr_runtime_id d))
     (\<lambda>r. Inr \<lparr>governance_id = g, runtime_id = r\<rparr>))"

definition transition_to_durable :: "transition \<Rightarrow> transition_durable" where
  "transition_to_durable r =
     \<lparr>trd_from = tr_from r, trd_to = tr_to r, trd_version = version_value (tr_version r),
      trd_sequence = sequence_value (tr_sequence r), trd_actor = tr_actor r,
      trd_occurred_at = tr_occurred_at r, trd_identity = map_option identity_to_durable (tr_identity r),
      trd_correlation = tr_correlation r, trd_reason = tr_reason r\<rparr>"

definition transition_from_durable :: "id_class \<Rightarrow> transition_durable \<Rightarrow> exn + transition" where
  "transition_from_durable cls d =
     rbind (case trd_identity d of
              None \<Rightarrow> Inr None
            | Some i \<Rightarrow> rbind (identity_from_durable cls i) (\<lambda>x. Inr (Some x)))
     (\<lambda>ident. rbind (make_version (trd_version d))
     (\<lambda>v. rbind (make_sequence (trd_sequence d))
     (\<lambda>s. make_transition
        \<lparr>tr_from = trd_from d, tr_to = trd_to d, tr_version = v, tr_sequence = s,
         tr_actor = trd_actor d, tr_occurred_at = trd_occurred_at d, tr_identity = ident,
         tr_correlation = trd_correlation d, tr_reason = trd_reason d\<rparr>)))"

lemma identity_durable_roundtrip:
  "identity_ok cls i \<Longrightarrow> identity_from_durable cls (identity_to_durable i) = Inr i"
  by (cases i)
    (simp add: identity_ok_def identity_from_durable_def identity_to_durable_def
      make_identifier_str make_runtime_identifier_value)

lemma identity_from_durable_sound:
  "identity_from_durable cls d = Inr i \<Longrightarrow> identity_ok cls i \<and> identity_to_durable i = d"
  by (auto simp: identity_from_durable_def identity_to_durable_def identity_ok_def result_eqs)

lemma transition_durable_roundtrip:
  assumes "transition_ok r" "opt_all (identity_ok cls) (tr_identity r)"
    "0 \<le> version_value (tr_version r)" "1 \<le> sequence_value (tr_sequence r)"
  shows "transition_from_durable cls (transition_to_durable r) = Inr r"
  using assms
  by (cases r; cases "tr_identity r")
    (simp_all add: transition_from_durable_def transition_to_durable_def
      identity_durable_roundtrip make_version_value make_sequence_value make_transition_ok)

text \<open>The whole history of a live aggregate survives the mapping.\<close>

lemma history_durable_roundtrip:
  assumes "history_inv ident init edges terms current next_seq ver rs" "identity_ok cls ident"
  shows "rmap (transition_from_durable cls) (map transition_to_durable rs) = Inr rs"
proof (rule rmap_map_inverse)
  fix r assume "r \<in> set rs"
  with assms show "transition_from_durable cls (transition_to_durable r) = Inr r"
    by (intro transition_durable_roundtrip) (auto dest: history_inv_record)
qed

section \<open>What the validator guarantees\<close>

text \<open>
  C35. The history validator accepts exactly the histories that are a walk of the lifecycle: every
  record names the aggregate or nobody and follows an allowed edge, the sequence numbers are
  1, 2, ..., each record starts where the one before ended and the first at the initial state, no
  record follows a terminal state, the last one ends in the restored state and the next sequence
  number is the following one; an empty history is accepted only for a state it may be empty in.
  The value returned is the largest version in the history.
\<close>

theorem history_validation_exact:
  "validate_transition_history rs ident current init edges terms next_seq allow_empty = Inr h \<longleftrightarrow>
     (\<forall>r \<in> set rs. (tr_identity r = None \<or> tr_identity r = Some ident) \<and> edge_of r \<in> set edges)
     \<and> map (sequence_value \<circ> tr_sequence) rs = [1..int (length rs)]
     \<and> map tr_from rs = map Some (butlast (init # map tr_to rs))
     \<and> (\<forall>s \<in> set (butlast (map tr_to rs)). s \<notin> set terms)
     \<and> (if rs = [] then current \<in> set allow_empty else tr_to (last rs) = current)
     \<and> next_seq = TransitionSequence (int (length rs) + 1)
     \<and> h = fold (\<lambda>r v. max v (tr_version r)) rs (AggregateVersion 0)"
proof -
  have "numbered_from n rs \<longleftrightarrow> map (sequence_value \<circ> tr_sequence) rs = [n..n + int (length rs) - 1]" for n
  proof (induction rs arbitrary: n)
    case (Cons r rs)
    have "[n..n + int (length (r # rs)) - 1] = n # [n + 1..(n + 1) + int (length rs) - 1]"
      by (subst upto.simps) (simp add: algebra_simps)
    with Cons show ?case by (cases "tr_sequence r") auto
  qed simp
  from this[of 1] show ?thesis
    by (simp add: validate_transition_history_iff history_valid_def connected_from_def highest_of_def
        version_initial_def)
qed

definition sample_record :: transition where
  "sample_record =
     \<lparr>tr_from = Some ''DRAFT'', tr_to = ''CANCELLED'', tr_version = AggregateVersion 3,
      tr_sequence = TransitionSequence 1, tr_actor = ''ops'', tr_occurred_at = Aware 5,
      tr_identity = None, tr_correlation = None, tr_reason = Some ''obsolete''\<rparr>"

definition sample_owner :: domain_identity where
  "sample_owner =
     \<lparr>governance_id = Identifier CampaignId ''CAMP-0001'',
      runtime_id = RuntimeIdentifier ''00000000-0000-4000-8000-000000000001''\<rparr>"

theorem history_validation_exact_witness:
  "validate_transition_history [sample_record] sample_owner ''CANCELLED'' ''DRAFT''
     [(''DRAFT'', ''CANCELLED'')] [''CANCELLED''] (TransitionSequence 2) [] = Inr (AggregateVersion 3)"
  by (rule history_validation_exact[THEN iffD2])
    (simp add: sample_record_def edge_of_def max_def less_eq_aggregate_version_def)

end
