(* ===== verification/Campaign.thy ===== *)
theory Campaign
  imports Transitions
begin

text \<open>
  The Campaign aggregate: \<^verbatim>\<open>campaign/lifecycle.py\<close>, \<^verbatim>\<open>campaign/aggregate.py\<close>,
  \<^verbatim>\<open>campaign/_reconstruction.py\<close> and \<^verbatim>\<open>campaign/mapper.py\<close>. The object is a record; each
  method is a function that returns the changed record or the exception, every method
  having raised, if it raises, before its first assignment. The file proves that the
  constructor establishes and every operation keeps \<open>campaign_ok\<close>, that the steps the
  operations can take are the edges reconstruction allows, and that every live Campaign
  survives the mapper and reconstruction unchanged.
\<close>

section \<open>Lifecycle states\<close>

datatype campaign_state =
  C_DRAFT | C_READY_FOR_AUTHORIZATION | C_AUTHORIZED | C_ACTIVE | C_SUSPENDED | C_COMPLETED | C_CANCELLED

fun campaign_state_value :: "campaign_state \<Rightarrow> string" where
  "campaign_state_value C_DRAFT = ''DRAFT''"
| "campaign_state_value C_READY_FOR_AUTHORIZATION = ''READY_FOR_AUTHORIZATION''"
| "campaign_state_value C_AUTHORIZED = ''AUTHORIZED''"
| "campaign_state_value C_ACTIVE = ''ACTIVE''"
| "campaign_state_value C_SUSPENDED = ''SUSPENDED''"
| "campaign_state_value C_COMPLETED = ''COMPLETED''"
| "campaign_state_value C_CANCELLED = ''CANCELLED''"

definition campaign_states :: "campaign_state list" where
  "campaign_states =
     [C_DRAFT, C_READY_FOR_AUTHORIZATION, C_AUTHORIZED, C_ACTIVE, C_SUSPENDED, C_COMPLETED, C_CANCELLED]"

text \<open>\<^verbatim>\<open>CampaignLifecycleState(value)\<close>: the member with that value, or \<^verbatim>\<open>ValueError\<close>.\<close>

definition campaign_state_of :: "string \<Rightarrow> campaign_state option" where
  "campaign_state_of v = find (\<lambda>s. campaign_state_value s = v) campaign_states"

lemma campaign_state_of_value [simp]: "campaign_state_of (campaign_state_value s) = Some s"
  by (cases s) (simp_all add: campaign_state_of_def campaign_states_def)

lemma campaign_state_value_inject [simp]: "campaign_state_value s = campaign_state_value t \<longleftrightarrow> s = t"
  by (metis campaign_state_of_value option.inject)

section \<open>The aggregate\<close>

datatype campaign_scope_statement = CampaignScopeStatement (scope_value: string)

definition make_scope_statement :: "string \<Rightarrow> exn + campaign_scope_statement" where
  "make_scope_statement v =
     rbind (require_non_empty v ''campaign scope statement'') (\<lambda>_. Inr (CampaignScopeStatement v))"

record campaign =
  camp_identity :: domain_identity
  camp_scope_statement :: campaign_scope_statement
  camp_state :: campaign_state
  camp_version :: aggregate_version
  camp_next_sequence :: transition_sequence
  camp_history :: "transition list"

definition campaign_new :: "domain_identity \<Rightarrow> campaign_scope_statement \<Rightarrow> exn + campaign" where
  "campaign_new ident scope =
     rbind (ensure (identifier_class (governance_id ident) = CampaignId)
              (TypeError ''identity governance_id must be a CampaignId''))
     (\<lambda>_. Inr \<lparr>camp_identity = ident, camp_scope_statement = scope, camp_state = C_DRAFT,
               camp_version = version_initial, camp_next_sequence = sequence_initial,
               camp_history = []\<rparr>)"

definition campaign_transition ::
    "campaign_state list \<Rightarrow> campaign_state \<Rightarrow> string \<Rightarrow> datetime \<Rightarrow> string option \<Rightarrow> string option
     \<Rightarrow> campaign \<Rightarrow> exn + campaign" where
  "campaign_transition allowed next_state actor occurred_at correlation_id reason c =
     rbind (ensure (camp_state c \<in> set allowed)
       (ValueError (''cannot transition from '' @ campaign_state_value (camp_state c) @ ''; expected ''
          @ join '', '' (map campaign_state_value allowed))))
     (\<lambda>_. rbind (require_non_empty actor ''actor'')
     (\<lambda>_. rbind (require_optional_non_empty correlation_id ''correlation_id'')
     (\<lambda>_. rbind (require_optional_non_empty reason ''reason'')
     (\<lambda>_. rbind (make_transition
              \<lparr>tr_from = Some (campaign_state_value (camp_state c)),
               tr_to = campaign_state_value next_state,
               tr_version = version_next (camp_version c),
               tr_sequence = camp_next_sequence c, tr_actor = actor, tr_occurred_at = occurred_at,
               tr_identity = Some (camp_identity c), tr_correlation = correlation_id,
               tr_reason = reason\<rparr>)
     (\<lambda>record. Inr (c\<lparr>camp_state := next_state,
                     camp_version := version_next (camp_version c),
                     camp_next_sequence := sequence_next (camp_next_sequence c),
                     camp_history := camp_history c @ [record]\<rparr>))))))"

definition campaign_revise_scope_statement :: "campaign_scope_statement \<Rightarrow> campaign \<Rightarrow> exn + campaign" where
  "campaign_revise_scope_statement scope c =
     rbind (ensure (camp_state c = C_DRAFT)
       (ValueError (''scope statement may be revised only while DRAFT; current state is ''
          @ campaign_state_value (camp_state c))))
     (\<lambda>_. Inr (c\<lparr>camp_version := version_next (camp_version c), camp_scope_statement := scope\<rparr>))"

definition campaign_prepare_for_authorization ::
    "string \<Rightarrow> datetime \<Rightarrow> string option \<Rightarrow> string option \<Rightarrow> campaign \<Rightarrow> exn + campaign" where
  "campaign_prepare_for_authorization actor occurred_at correlation_id reason c =
     campaign_transition [C_DRAFT] C_READY_FOR_AUTHORIZATION actor occurred_at correlation_id reason c"

definition campaign_record_authorization ::
    "string \<Rightarrow> string \<Rightarrow> datetime \<Rightarrow> string option \<Rightarrow> campaign \<Rightarrow> exn + campaign" where
  "campaign_record_authorization reason actor occurred_at correlation_id c =
     rbind (require_non_empty reason ''authorization reason'')
     (\<lambda>_. campaign_transition [C_READY_FOR_AUTHORIZATION] C_AUTHORIZED actor occurred_at
            correlation_id (Some reason) c)"

definition campaign_activate ::
    "string \<Rightarrow> string \<Rightarrow> datetime \<Rightarrow> string option \<Rightarrow> campaign \<Rightarrow> exn + campaign" where
  "campaign_activate reason actor occurred_at correlation_id c =
     rbind (require_non_empty reason ''activation reason'')
     (\<lambda>_. campaign_transition [C_AUTHORIZED] C_ACTIVE actor occurred_at correlation_id (Some reason) c)"

definition campaign_suspend ::
    "string \<Rightarrow> string \<Rightarrow> datetime \<Rightarrow> string option \<Rightarrow> campaign \<Rightarrow> exn + campaign" where
  "campaign_suspend reason actor occurred_at correlation_id c =
     rbind (require_non_empty reason ''suspension reason'')
     (\<lambda>_. campaign_transition [C_ACTIVE] C_SUSPENDED actor occurred_at correlation_id (Some reason) c)"

definition campaign_resume ::
    "string \<Rightarrow> string \<Rightarrow> datetime \<Rightarrow> string option \<Rightarrow> campaign \<Rightarrow> exn + campaign" where
  "campaign_resume reason actor occurred_at correlation_id c =
     rbind (require_non_empty reason ''resume reason'')
     (\<lambda>_. campaign_transition [C_SUSPENDED] C_ACTIVE actor occurred_at correlation_id (Some reason) c)"

definition campaign_complete ::
    "string \<Rightarrow> string \<Rightarrow> datetime \<Rightarrow> string option \<Rightarrow> campaign \<Rightarrow> exn + campaign" where
  "campaign_complete reason actor occurred_at correlation_id c =
     rbind (require_non_empty reason ''completion reason'')
     (\<lambda>_. campaign_transition [C_ACTIVE] C_COMPLETED actor occurred_at correlation_id (Some reason) c)"

definition campaign_cancel ::
    "string \<Rightarrow> datetime \<Rightarrow> string option \<Rightarrow> string option \<Rightarrow> campaign \<Rightarrow> exn + campaign" where
  "campaign_cancel actor occurred_at reason correlation_id c =
     rbind
       (if camp_state c \<in> {C_AUTHORIZED, C_ACTIVE, C_SUSPENDED} then
          (case reason of
             None \<Rightarrow> Inl (TypeError ''cancellation reason must be a string'')
           | Some s \<Rightarrow> require_non_empty s ''cancellation reason'')
        else require_optional_non_empty reason ''reason'')
     (\<lambda>_. campaign_transition
            [C_DRAFT, C_READY_FOR_AUTHORIZATION, C_AUTHORIZED, C_ACTIVE, C_SUSPENDED]
            C_CANCELLED actor occurred_at correlation_id reason c)"

section \<open>Reconstruction\<close>

record campaign_reconstruction_state =
  crs_identity :: domain_identity
  crs_scope_statement :: campaign_scope_statement
  crs_state :: campaign_state
  crs_version :: aggregate_version
  crs_next_sequence :: transition_sequence
  crs_history :: "transition list"

definition make_campaign_reconstruction_state ::
    "campaign_reconstruction_state \<Rightarrow> exn + campaign_reconstruction_state" where
  "make_campaign_reconstruction_state st =
     rbind (ensure (identifier_class (governance_id (crs_identity st)) = CampaignId)
              (ReconstructionError INVALID_AGGREGATE_IDENTITY
                 ''identity governance_id must be a CampaignId'' ''identity''))
     (\<lambda>_. Inr st)"

definition campaign_allowed_edges :: "(string \<times> string) list" where
  "campaign_allowed_edges =
     [(''DRAFT'', ''READY_FOR_AUTHORIZATION''),
      (''READY_FOR_AUTHORIZATION'', ''AUTHORIZED''),
      (''AUTHORIZED'', ''ACTIVE''),
      (''ACTIVE'', ''SUSPENDED''),
      (''SUSPENDED'', ''ACTIVE''),
      (''ACTIVE'', ''COMPLETED''),
      (''DRAFT'', ''CANCELLED''),
      (''READY_FOR_AUTHORIZATION'', ''CANCELLED''),
      (''AUTHORIZED'', ''CANCELLED''),
      (''ACTIVE'', ''CANCELLED''),
      (''SUSPENDED'', ''CANCELLED'')]"

definition campaign_terminal_states :: "string list" where
  "campaign_terminal_states = [''COMPLETED'', ''CANCELLED'']"

definition campaign_required_reason_edges :: "(string \<times> string) list" where
  "campaign_required_reason_edges =
     [(''READY_FOR_AUTHORIZATION'', ''AUTHORIZED''),
      (''AUTHORIZED'', ''ACTIVE''),
      (''ACTIVE'', ''SUSPENDED''),
      (''SUSPENDED'', ''ACTIVE''),
      (''ACTIVE'', ''COMPLETED''),
      (''AUTHORIZED'', ''CANCELLED''),
      (''ACTIVE'', ''CANCELLED''),
      (''SUSPENDED'', ''CANCELLED'')]"

definition validate_campaign_terminal_reason :: "campaign_reconstruction_state \<Rightarrow> exn + unit" where
  "validate_campaign_terminal_reason st =
     (if crs_history st = [] then Inr ()
      else
        rbind (rcheck (\<lambda>r. ensure (edge_of r \<in> set campaign_required_reason_edges \<longrightarrow> tr_reason r \<noteq> None)
                  (ReconstructionError INCONSISTENT_TERMINAL_METADATA
                     ''Campaign transition requires a reason'' ''transition_history''))
                (crs_history st))
        (\<lambda>_. let final = last (crs_history st) in
          if crs_state st = C_CANCELLED
             \<and> tr_from final \<in> {Some ''AUTHORIZED'', Some ''ACTIVE'', Some ''SUSPENDED''}
          then ensure (tr_reason final \<noteq> None)
                 (ReconstructionError INCONSISTENT_TERMINAL_METADATA
                    ''post-authorization Campaign cancellation requires a reason'' ''transition_history'')
          else Inr ()))"

definition reconstruct_campaign :: "campaign_reconstruction_state \<Rightarrow> exn + campaign" where
  "reconstruct_campaign st =
     rbind (validate_transition_history (crs_history st) (crs_identity st)
              (campaign_state_value (crs_state st)) (campaign_state_value C_DRAFT)
              campaign_allowed_edges campaign_terminal_states (crs_next_sequence st) [''DRAFT''])
     (\<lambda>highest. rbind (ensure (\<not> crs_version st < highest)
        (ReconstructionError INVALID_AGGREGATE_VERSION
           ''Campaign version is lower than transition history requires'' ''version''))
     (\<lambda>_. rbind (validate_campaign_terminal_reason st)
     (\<lambda>_. Inr \<lparr>camp_identity = crs_identity st, camp_scope_statement = crs_scope_statement st,
               camp_state = crs_state st, camp_version = crs_version st,
               camp_next_sequence = crs_next_sequence st, camp_history = crs_history st\<rparr>)))"

section \<open>Mapper\<close>

record campaign_durable =
  cd_identity :: identity_durable
  cd_scope_statement :: string
  cd_lifecycle_state :: string
  cd_version :: int
  cd_next_sequence :: int
  cd_history :: "transition_durable list"

definition campaign_to_durable :: "campaign \<Rightarrow> campaign_durable" where
  "campaign_to_durable c =
     \<lparr>cd_identity = identity_to_durable (camp_identity c),
      cd_scope_statement = scope_value (camp_scope_statement c),
      cd_lifecycle_state = campaign_state_value (camp_state c),
      cd_version = version_value (camp_version c),
      cd_next_sequence = sequence_value (camp_next_sequence c),
      cd_history = map transition_to_durable (camp_history c)\<rparr>"

text \<open>\<^verbatim>\<open>except (ValueError, TypeError)\<close> around the structural part of each mapper.\<close>

definition malformed_as :: "string \<Rightarrow> exn \<Rightarrow> exn" where
  "malformed_as kind e =
     (case e of
        ValueError _ \<Rightarrow> MapperError INVALID_DURABLE_RECORD
                          (kind @ '' durable record is structurally malformed'') kind None
      | TypeError _ \<Rightarrow> MapperError INVALID_DURABLE_RECORD
                          (kind @ '' durable record is structurally malformed'') kind None
      | _ \<Rightarrow> e)"

definition campaign_from_durable :: "campaign_durable \<Rightarrow> exn + campaign_reconstruction_state" where
  "campaign_from_durable d =
     rbind (case campaign_state_of (cd_lifecycle_state d) of
              None \<Rightarrow> Inl (MapperError INVALID_DURABLE_RECORD ''unknown Campaign lifecycle_state''
                            ''Campaign'' (Some ''lifecycle_state''))
            | Some s \<Rightarrow> Inr s)
     (\<lambda>lifecycle_state. rbind
        (rcatch (malformed_as ''Campaign'')
          (rbind (identity_from_durable CampaignId (cd_identity d))
           (\<lambda>ident. rbind (make_scope_statement (cd_scope_statement d))
           (\<lambda>scope. rbind (rmap (transition_from_durable CampaignId) (cd_history d))
           (\<lambda>history. Inr (ident, scope, history))))))
     (\<lambda>(ident, scope, history). rbind (make_version (cd_version d))
     (\<lambda>version. rbind (make_sequence (cd_next_sequence d))
     (\<lambda>next_seq. make_campaign_reconstruction_state
        \<lparr>crs_identity = ident, crs_scope_statement = scope, crs_state = lifecycle_state,
         crs_version = version, crs_next_sequence = next_seq, crs_history = history\<rparr>))))"

lemmas campaign_operations [lifecycle_defs] =
  campaign_prepare_for_authorization_def campaign_record_authorization_def campaign_activate_def
  campaign_suspend_def campaign_resume_def campaign_complete_def campaign_cancel_def

section \<open>Characteristic equations of the operations\<close>

lemma campaign_state_value_not_blank [simp]: "\<not> blank (campaign_state_value s)"
  by (cases s) (simp_all add: blank_iff_spaces is_py_space_def)

definition campaign_moved ::
    "campaign_state \<Rightarrow> string \<Rightarrow> datetime \<Rightarrow> string option \<Rightarrow> string option \<Rightarrow> campaign \<Rightarrow> campaign" where
  "campaign_moved next_state actor occurred_at correlation_id reason c =
     c\<lparr>camp_state := next_state,
       camp_version := version_next (camp_version c),
       camp_next_sequence := sequence_next (camp_next_sequence c),
       camp_history := camp_history c @
         [\<lparr>tr_from = Some (campaign_state_value (camp_state c)),
           tr_to = campaign_state_value next_state,
           tr_version = version_next (camp_version c), tr_sequence = camp_next_sequence c,
           tr_actor = actor, tr_occurred_at = occurred_at, tr_identity = Some (camp_identity c),
           tr_correlation = correlation_id, tr_reason = reason\<rparr>]\<rparr>"

lemma campaign_moved_simps [simp]:
  "camp_identity (campaign_moved t a o' k r c) = camp_identity c"
  "camp_scope_statement (campaign_moved t a o' k r c) = camp_scope_statement c"
  "camp_state (campaign_moved t a o' k r c) = t"
  "camp_version (campaign_moved t a o' k r c) = version_next (camp_version c)"
  "camp_next_sequence (campaign_moved t a o' k r c) = sequence_next (camp_next_sequence c)"
  by (simp_all add: campaign_moved_def)

lemma campaign_transition_Inr:
  "campaign_transition allowed t actor at corr reason c = Inr c' \<longleftrightarrow>
     camp_state c \<in> set allowed \<and> \<not> blank actor \<and> opt_all (\<lambda>s. \<not> blank s) corr
     \<and> opt_all (\<lambda>s. \<not> blank s) reason \<and> c' = campaign_moved t actor at corr reason c"
  by (auto simp: campaign_transition_def campaign_moved_def result_eqs transition_ok_def)

lemma campaign_transition_refused:
  "camp_state c \<notin> set allowed \<Longrightarrow>
   \<exists>m. campaign_transition allowed t actor at corr reason c = Inl (ValueError m)"
  by (simp add: campaign_transition_def)

section \<open>The invariant\<close>

definition campaign_ok :: "campaign \<Rightarrow> bool" where
  "campaign_ok c \<longleftrightarrow>
     identity_ok CampaignId (camp_identity c)
     \<and> \<not> blank (scope_value (camp_scope_statement c))
     \<and> history_inv (camp_identity c) (campaign_state_value C_DRAFT) campaign_allowed_edges
         campaign_terminal_states (campaign_state_value (camp_state c)) (camp_next_sequence c)
         (camp_version c) (camp_history c)
     \<and> (\<forall>r \<in> set (camp_history c).
           edge_of r \<in> set campaign_required_reason_edges \<longrightarrow> tr_reason r \<noteq> None)"

lemma campaign_new_ok:
  assumes "identity_ok CampaignId ident" "make_scope_statement v = Inr scope"
    "campaign_new ident scope = Inr c"
  shows "campaign_ok c"
  using assms history_inv_initial
  by (auto simp: campaign_new_def campaign_ok_def make_scope_statement_def result_eqs)

lemma campaign_moved_ok:
  assumes ok: "campaign_ok c"
    and args: "\<not> blank actor" "opt_all (\<lambda>s. \<not> blank s) corr" "opt_all (\<lambda>s. \<not> blank s) reason"
    and edge: "(campaign_state_value (camp_state c), campaign_state_value t) \<in> set campaign_allowed_edges"
    and live: "campaign_state_value (camp_state c) \<notin> set campaign_terminal_states"
    and reasoned: "(campaign_state_value (camp_state c), campaign_state_value t)
        \<in> set campaign_required_reason_edges \<Longrightarrow> reason \<noteq> None"
  shows "campaign_ok (campaign_moved t actor at corr reason c)"
proof -
  let ?r = "\<lparr>tr_from = Some (campaign_state_value (camp_state c)),
           tr_to = campaign_state_value t,
           tr_version = version_next (camp_version c), tr_sequence = camp_next_sequence c,
           tr_actor = actor, tr_occurred_at = at, tr_identity = Some (camp_identity c),
           tr_correlation = corr, tr_reason = reason\<rparr>"
  have "history_inv (camp_identity c) (campaign_state_value C_DRAFT) campaign_allowed_edges
          campaign_terminal_states (campaign_state_value t) (sequence_next (camp_next_sequence c))
          (version_next (camp_version c)) (camp_history c @ [?r])"
  proof (rule history_inv_snoc)
    show "history_inv (camp_identity c) (campaign_state_value C_DRAFT) campaign_allowed_edges
          campaign_terminal_states (campaign_state_value (camp_state c)) (camp_next_sequence c)
          (camp_version c) (camp_history c)"
      using ok by (simp add: campaign_ok_def)
  qed (use args live edge in \<open>simp_all add: transition_ok_def\<close>)
  then show ?thesis
    using ok reasoned by (auto simp: campaign_ok_def campaign_moved_def edge_of_def)
qed

section \<open>Steps and live Campaigns\<close>

inductive campaign_step :: "campaign \<Rightarrow> campaign \<Rightarrow> bool" where
  revise: "make_scope_statement v = Inr scope \<Longrightarrow> campaign_revise_scope_statement scope c = Inr c'
     \<Longrightarrow> campaign_step c c'"
| prepare: "campaign_prepare_for_authorization actor at corr reason c = Inr c' \<Longrightarrow> campaign_step c c'"
| authorize: "campaign_record_authorization reason' actor at corr c = Inr c' \<Longrightarrow> campaign_step c c'"
| activate: "campaign_activate reason' actor at corr c = Inr c' \<Longrightarrow> campaign_step c c'"
| suspend: "campaign_suspend reason' actor at corr c = Inr c' \<Longrightarrow> campaign_step c c'"
| resume: "campaign_resume reason' actor at corr c = Inr c' \<Longrightarrow> campaign_step c c'"
| complete: "campaign_complete reason' actor at corr c = Inr c' \<Longrightarrow> campaign_step c c'"
| cancel: "campaign_cancel actor at reason corr c = Inr c' \<Longrightarrow> campaign_step c c'"

inductive campaign_live :: "campaign \<Rightarrow> bool" where
  new: "identity_ok CampaignId ident \<Longrightarrow> make_scope_statement v = Inr scope
     \<Longrightarrow> campaign_new ident scope = Inr c \<Longrightarrow> campaign_live c"
| step: "campaign_live c \<Longrightarrow> campaign_step c c' \<Longrightarrow> campaign_live c'"

text \<open>
  Every step is either a scope revision in DRAFT or a move along an allowed edge; this is
  what the eight operations have in common.
\<close>

lemma campaign_step_cases:
  assumes "campaign_step c c'"
  obtains (revised) v where "camp_state c = C_DRAFT" "\<not> blank v"
      "c' = c\<lparr>camp_version := version_next (camp_version c), camp_scope_statement := CampaignScopeStatement v\<rparr>"
  | (moved) t actor at corr reason where
      "(campaign_state_value (camp_state c), campaign_state_value t) \<in> set campaign_allowed_edges"
      "campaign_state_value (camp_state c) \<notin> set campaign_terminal_states"
      "\<not> blank actor" "opt_all (\<lambda>s. \<not> blank s) corr" "opt_all (\<lambda>s. \<not> blank s) reason"
      "(campaign_state_value (camp_state c), campaign_state_value t) \<in> set campaign_required_reason_edges
         \<Longrightarrow> reason \<noteq> None"
      "c' = campaign_moved t actor at corr reason c"
  using assms
proof cases
  case (revise v scope)
  then show ?thesis
    by (intro revised[of v])
      (auto simp: campaign_revise_scope_statement_def make_scope_statement_def result_eqs)
next
  case (prepare actor at corr reason)
  then show ?thesis
    by (intro moved[of C_READY_FOR_AUTHORIZATION actor corr reason at])
      (auto simp: lifecycle_defs campaign_transition_Inr result_eqs campaign_allowed_edges_def
        campaign_terminal_states_def campaign_required_reason_edges_def)
next
  case (authorize reason actor at corr)
  then show ?thesis
    by (intro moved[of C_AUTHORIZED actor corr "Some reason" at])
      (auto simp: lifecycle_defs campaign_transition_Inr result_eqs campaign_allowed_edges_def
        campaign_terminal_states_def)
next
  case (activate reason actor at corr)
  then show ?thesis
    by (intro moved[of C_ACTIVE actor corr "Some reason" at])
      (auto simp: lifecycle_defs campaign_transition_Inr result_eqs campaign_allowed_edges_def
        campaign_terminal_states_def)
next
  case (suspend reason actor at corr)
  then show ?thesis
    by (intro moved[of C_SUSPENDED actor corr "Some reason" at])
      (auto simp: lifecycle_defs campaign_transition_Inr result_eqs campaign_allowed_edges_def
        campaign_terminal_states_def)
next
  case (resume reason actor at corr)
  then show ?thesis
    by (intro moved[of C_ACTIVE actor corr "Some reason" at])
      (auto simp: lifecycle_defs campaign_transition_Inr result_eqs campaign_allowed_edges_def
        campaign_terminal_states_def)
next
  case (complete reason actor at corr)
  then show ?thesis
    by (intro moved[of C_COMPLETED actor corr "Some reason" at])
      (auto simp: lifecycle_defs campaign_transition_Inr result_eqs campaign_allowed_edges_def
        campaign_terminal_states_def)
next
  case (cancel actor at reason corr)
  then show ?thesis
    by (intro moved[of C_CANCELLED actor corr reason at])
      (auto simp: lifecycle_defs campaign_transition_Inr result_eqs campaign_allowed_edges_def
        campaign_terminal_states_def campaign_required_reason_edges_def split: if_splits option.splits)
qed

lemma campaign_step_ok: "campaign_step c c' \<Longrightarrow> campaign_ok c \<Longrightarrow> campaign_ok c'"
proof (erule campaign_step_cases)
  fix v
  assume "campaign_ok c" "camp_state c = C_DRAFT" "\<not> blank v"
    and c': "c' = c\<lparr>camp_version := version_next (camp_version c),
                   camp_scope_statement := CampaignScopeStatement v\<rparr>"
  then show "campaign_ok c'"
    using history_inv_bump[OF _ version_le_next] by (auto simp: campaign_ok_def)
next
  fix t actor at corr reason
  assume "campaign_ok c"
    "(campaign_state_value (camp_state c), campaign_state_value t) \<in> set campaign_allowed_edges"
    "campaign_state_value (camp_state c) \<notin> set campaign_terminal_states"
    "\<not> blank actor" "opt_all (\<lambda>s. \<not> blank s) corr" "opt_all (\<lambda>s. \<not> blank s) reason"
    "(campaign_state_value (camp_state c), campaign_state_value t) \<in> set campaign_required_reason_edges
       \<Longrightarrow> reason \<noteq> None"
    "c' = campaign_moved t actor at corr reason c"
  then show "campaign_ok c'" by (simp add: campaign_moved_ok)
qed

lemma campaign_live_ok: "campaign_live c \<Longrightarrow> campaign_ok c"
proof (induction rule: campaign_live.induct)
  case (new ident v scope c)
  then show ?case by (rule campaign_new_ok)
next
  case (step c c')
  then show ?case by (blast intro: campaign_step_ok)
qed

section \<open>Reconstruction accepts every live Campaign\<close>

lemma reconstruct_campaign_Inr:
  "reconstruct_campaign st = Inr c \<longleftrightarrow>
     history_valid (crs_identity st) (campaign_state_value (crs_state st)) ''DRAFT''
       campaign_allowed_edges campaign_terminal_states (crs_next_sequence st) [''DRAFT''] (crs_history st)
     \<and> highest_of version_initial (crs_history st) \<le> crs_version st
     \<and> (\<forall>r \<in> set (crs_history st).
           edge_of r \<in> set campaign_required_reason_edges \<longrightarrow> tr_reason r \<noteq> None)
     \<and> c = \<lparr>camp_identity = crs_identity st, camp_scope_statement = crs_scope_statement st,
            camp_state = crs_state st, camp_version = crs_version st,
            camp_next_sequence = crs_next_sequence st, camp_history = crs_history st\<rparr>"
  (is "?L \<longleftrightarrow> ?R")
proof -
  have final: "tr_reason (last rs) \<noteq> None"
    if "rs \<noteq> []" "crs_state st = C_CANCELLED"
      "tr_from (last rs) \<in> {Some ''AUTHORIZED'', Some ''ACTIVE'', Some ''SUSPENDED''}"
      "history_valid (crs_identity st) (campaign_state_value (crs_state st)) ''DRAFT''
         campaign_allowed_edges campaign_terminal_states (crs_next_sequence st) [''DRAFT''] rs"
      "\<forall>r \<in> set rs. edge_of r \<in> set campaign_required_reason_edges \<longrightarrow> tr_reason r \<noteq> None" for rs
  proof -
    have "edge_of (last rs) \<in> set campaign_required_reason_edges"
      using that by (auto simp: history_valid_def edge_of_def campaign_required_reason_edges_def)
    with that show ?thesis by auto
  qed
  show ?thesis
    using final[of "crs_history st"]
    by (auto simp: reconstruct_campaign_def validate_campaign_terminal_reason_def result_eqs
        validate_transition_history_iff Let_def not_less split: if_splits)
qed

definition campaign_reconstruction_of :: "campaign \<Rightarrow> campaign_reconstruction_state" where
  "campaign_reconstruction_of c =
     \<lparr>crs_identity = camp_identity c, crs_scope_statement = camp_scope_statement c,
      crs_state = camp_state c, crs_version = camp_version c,
      crs_next_sequence = camp_next_sequence c, crs_history = camp_history c\<rparr>"

lemma campaign_ok_history_valid:
  assumes "campaign_ok c"
  shows "history_valid (camp_identity c) (campaign_state_value (camp_state c)) ''DRAFT''
       campaign_allowed_edges campaign_terminal_states (camp_next_sequence c) [''DRAFT''] (camp_history c)
     \<and> highest_of version_initial (camp_history c) \<le> camp_version c"
proof -
  have inv: "history_inv (camp_identity c) ''DRAFT'' campaign_allowed_edges
         campaign_terminal_states (campaign_state_value (camp_state c)) (camp_next_sequence c)
         (camp_version c) (camp_history c)"
    using assms by (simp add: campaign_ok_def)
  from history_inv_validates[OF inv, of "[''DRAFT'']"] show ?thesis
    by (auto simp: validate_transition_history_iff)
qed

lemma reconstruct_campaign_ok: "campaign_ok c \<Longrightarrow> reconstruct_campaign (campaign_reconstruction_of c) = Inr c"
  using campaign_ok_history_valid[of c]
  by (simp add: reconstruct_campaign_Inr campaign_reconstruction_of_def campaign_ok_def)

lemma campaign_from_to_durable:
  assumes "campaign_ok c"
  shows "campaign_from_durable (campaign_to_durable c) = Inr (campaign_reconstruction_of c)"
proof -
  have id: "identity_ok CampaignId (camp_identity c)"
    and scope: "\<not> blank (scope_value (camp_scope_statement c))"
    and inv: "history_inv (camp_identity c) (campaign_state_value C_DRAFT) campaign_allowed_edges
         campaign_terminal_states (campaign_state_value (camp_state c)) (camp_next_sequence c)
         (camp_version c) (camp_history c)"
    using assms by (simp_all add: campaign_ok_def)
  have "0 \<le> version_value (camp_version c)"
    using history_inv_version[OF inv] by (simp add: version_order)
  moreover have "1 \<le> sequence_value (camp_next_sequence c)"
    by (rule history_inv_sequence_pos[OF inv])
  moreover have "make_scope_statement (scope_value (camp_scope_statement c)) = Inr (camp_scope_statement c)"
    using scope by (simp add: make_scope_statement_def require_non_empty_def)
  ultimately show ?thesis
    using id history_durable_roundtrip[OF inv id]
    by (simp add: campaign_from_durable_def campaign_to_durable_def campaign_reconstruction_of_def
        identity_durable_roundtrip make_version_value make_sequence_value
        make_campaign_reconstruction_state_def identity_ok_def)
qed

section \<open>Examples\<close>

definition walk_identity :: "id_class \<Rightarrow> domain_identity" where
  "walk_identity cls =
     \<lparr>governance_id = Identifier cls (id_prefix cls @ ''-0001''),
      runtime_id = RuntimeIdentifier ''00000000-0000-4000-8000-000000000001''\<rparr>"

lemmas campaign_walk =
  campaign_live.step[rotated, OF campaign_step.revise]
  campaign_live.step[rotated, OF campaign_step.prepare]
  campaign_live.step[rotated, OF campaign_step.authorize]
  campaign_live.step[rotated, OF campaign_step.activate]
  campaign_live.step[rotated, OF campaign_step.suspend]
  campaign_live.step[rotated, OF campaign_step.resume]
  campaign_live.step[rotated, OF campaign_step.complete]
  campaign_live.step[rotated, OF campaign_step.cancel]

definition walked_campaign :: "exn + campaign" where
  "walked_campaign =
     rbind (make_scope_statement ''scope'')
     (\<lambda>scope. rbind (campaign_new (walk_identity CampaignId) scope)
     (\<lambda>c. rbind (campaign_prepare_for_authorization ''ops'' (Aware 1) None None c)
     (\<lambda>c. rbind (campaign_record_authorization ''ok'' ''ops'' (Aware 2) None c)
     (\<lambda>c. campaign_cancel ''ops'' (Aware 3) (Some ''stop'') None c))))"

lemma walked_campaign_live: "\<exists>c. walked_campaign = Inr c \<and> campaign_live c \<and> length (camp_history c) = 3"
proof -
  have run: "case walked_campaign of Inl _ \<Rightarrow> False | Inr c \<Rightarrow> length (camp_history c) = 3"
    by code_simp
  have id: "identity_ok CampaignId (walk_identity CampaignId)" by code_simp
  show ?thesis
  proof (cases walked_campaign)
    case (Inr c)
    then obtain scope c0 c1 c2 where s: "make_scope_statement ''scope'' = Inr scope"
      "campaign_new (walk_identity CampaignId) scope = Inr c0"
      "campaign_prepare_for_authorization ''ops'' (Aware 1) None None c0 = Inr c1"
      "campaign_record_authorization ''ok'' ''ops'' (Aware 2) None c1 = Inr c2"
      "campaign_cancel ''ops'' (Aware 3) (Some ''stop'') None c2 = Inr c"
      unfolding walked_campaign_def rbind_eq_Inr by blast
    have "campaign_live c"
      by (rule campaign_walk(8)[OF s(5) campaign_walk(3)[OF s(4) campaign_walk(2)[OF s(3) campaign_live.new[OF id s(1,2)]]]])
    then show ?thesis using run unfolding Inr sum.case by blast
  next
    case (Inl e)
    show ?thesis using run unfolding Inl sum.case by blast
  qed
qed

definition first_campaign :: campaign where
  "first_campaign =
     \<lparr>camp_identity = walk_identity CampaignId, camp_scope_statement = CampaignScopeStatement ''scope'',
      camp_state = C_DRAFT, camp_version = version_initial, camp_next_sequence = sequence_initial,
      camp_history = []\<rparr>"

lemma first_campaign_step: "\<exists>a'. campaign_step first_campaign a'"
proof -
  have "\<exists>a'. campaign_prepare_for_authorization ''ops'' (Aware 1) None None first_campaign = Inr a'"
    by (simp add: lifecycle_defs campaign_transition_Inr first_campaign_def blank_iff_spaces is_py_space_def)
  then show ?thesis by (blast intro: campaign_step.prepare)
qed

section \<open>What the Campaign guarantees\<close>

text \<open>
  C22. A Campaign that the constructor and the operations produced survives its stored form
  unchanged: mapping it to its durable record, mapping the record back and reconstructing gives
  the same aggregate, whatever operations it went through.
\<close>

theorem campaign_survives_persistence:
  assumes "campaign_live a"
  shows "rbind (campaign_from_durable (campaign_to_durable a)) reconstruct_campaign = Inr a"
  using campaign_live_ok[OF assms] by (simp add: campaign_from_to_durable reconstruct_campaign_ok)

theorem campaign_survives_persistence_witness:
  "\<exists>a. walked_campaign = Inr a \<and> rbind (campaign_from_durable (campaign_to_durable a)) reconstruct_campaign = Inr a"
  using walked_campaign_live campaign_survives_persistence by blast



text \<open>
  C37. A Campaign can always go on until it is in a terminal state, and never after: some operation
  accepts it exactly when its state is not terminal.
\<close>

theorem campaign_stuck_iff_terminal:
  "(\<exists>a'. campaign_step a a') \<longleftrightarrow> campaign_state_value (camp_state a) \<notin> set campaign_terminal_states"
proof
  assume "\<exists>a'. campaign_step a a'"
  then show "campaign_state_value (camp_state a) \<notin> set campaign_terminal_states"
    by (auto elim!: campaign_step_cases simp: campaign_terminal_states_def)
next
  assume "campaign_state_value (camp_state a) \<notin> set campaign_terminal_states"
  then have "\<exists>a'. campaign_cancel ''ops'' (Aware 0) (Some ''stop'') None a = Inr a'"
    by (cases "camp_state a")
      (auto simp: campaign_terminal_states_def lifecycle_defs campaign_transition_Inr result_eqs blank_iff_spaces is_py_space_def)
  then show "\<exists>a'. campaign_step a a'" by (auto intro: campaign_step.cancel)
qed

text \<open>
  C26. Reconstruction of a Campaign accepts exactly the stored states that the rules of the lifecycle
  allow, and restores them unchanged: the history is a valid walk to the stored state, the version
  is at least what history and contents require, and the contents fit the state.
\<close>

theorem campaign_reconstruction_exact:
  "reconstruct_campaign st = Inr c \<longleftrightarrow>
     history_valid (crs_identity st) (campaign_state_value (crs_state st)) ''DRAFT''
       campaign_allowed_edges campaign_terminal_states (crs_next_sequence st) [''DRAFT''] (crs_history st)
     \<and> highest_of version_initial (crs_history st) \<le> crs_version st
     \<and> (\<forall>r \<in> set (crs_history st).
           edge_of r \<in> set campaign_required_reason_edges \<longrightarrow> tr_reason r \<noteq> None)
     \<and> c = \<lparr>camp_identity = crs_identity st, camp_scope_statement = crs_scope_statement st,
            camp_state = crs_state st, camp_version = crs_version st,
            camp_next_sequence = crs_next_sequence st, camp_history = crs_history st\<rparr>"
  by (rule reconstruct_campaign_Inr)

theorem campaign_reconstruction_exact_witness:
  "reconstruct_campaign (campaign_reconstruction_of first_campaign) = Inr first_campaign"
  unfolding campaign_reconstruction_exact
  by (simp add: campaign_reconstruction_of_def first_campaign_def history_valid_def sequence_initial_def
      version_initial_def version_order)

end
