(* ===== verification/Run.thy ===== *)
theory Run
  imports Campaign
begin

text \<open>
  The Run aggregate: \<^verbatim>\<open>run/aggregate.py\<close>, \<^verbatim>\<open>run/_reconstruction.py\<close>, \<^verbatim>\<open>run/mapper.py\<close>, the
  \<^verbatim>\<open>RunLifecycleState\<close> of \<^verbatim>\<open>campaign/lifecycle.py\<close> and the manifests of
  \<^verbatim>\<open>datasets/manifest.py\<close>. Organised as \<^verbatim>\<open>Campaign\<close>: operations, reconstruction, mapper,
  characteristic equations, invariant, steps, and the survival of live Runs under the mapper
  and reconstruction.
\<close>

section \<open>Lifecycle states\<close>

datatype run_state =
  R_CREATED | R_AUTHORIZED | R_ACQUIRING | R_NORMALIZING | R_VALIDATING | R_EXECUTION_COMPLETED
| R_FAILED | R_CANCELLED

fun run_state_value :: "run_state \<Rightarrow> string" where
  "run_state_value R_CREATED = ''CREATED''"
| "run_state_value R_AUTHORIZED = ''AUTHORIZED''"
| "run_state_value R_ACQUIRING = ''ACQUIRING''"
| "run_state_value R_NORMALIZING = ''NORMALIZING''"
| "run_state_value R_VALIDATING = ''VALIDATING''"
| "run_state_value R_EXECUTION_COMPLETED = ''EXECUTION_COMPLETED''"
| "run_state_value R_FAILED = ''FAILED''"
| "run_state_value R_CANCELLED = ''CANCELLED''"

definition run_states :: "run_state list" where
  "run_states =
     [R_CREATED, R_AUTHORIZED, R_ACQUIRING, R_NORMALIZING, R_VALIDATING, R_EXECUTION_COMPLETED,
      R_FAILED, R_CANCELLED]"

definition run_state_of :: "string \<Rightarrow> run_state option" where
  "run_state_of v = find (\<lambda>s. run_state_value s = v) run_states"

lemma run_state_of_value [simp]: "run_state_of (run_state_value s) = Some s"
  by (cases s) (simp_all add: run_state_of_def run_states_def)

lemma run_state_value_inject [simp]: "run_state_value s = run_state_value t \<longleftrightarrow> s = t"
  by (metis run_state_of_value option.inject)

section \<open>Dataset manifests\<close>

record dataset_manifest =
  dm_run_id :: governance_identifier
  dm_recorded_at :: datetime
  dm_source :: string
  dm_acquisition_method :: "string option"
  dm_normalization_method :: "string option"
  dm_manifest_id :: "governance_identifier option"
  dm_notes :: "string list"

definition make_dataset_manifest :: "dataset_manifest \<Rightarrow> exn + dataset_manifest" where
  "make_dataset_manifest m =
     rbind (ensure (identifier_class (dm_run_id m) = RunId) (TypeError ''run_id must be a RunId''))
     (\<lambda>_. rbind (ensure (opt_all (\<lambda>i. identifier_class i = DatasetId) (dm_manifest_id m))
              (TypeError ''manifest_id must be a DatasetId when provided''))
     (\<lambda>_. rbind (require_non_empty (dm_source m) ''source'')
     (\<lambda>_. rbind (require_optional_non_empty (dm_acquisition_method m) ''acquisition_method'')
     (\<lambda>_. rbind (require_optional_non_empty (dm_normalization_method m) ''normalization_method'')
     (\<lambda>_. rbind (rcheck (\<lambda>note. require_non_empty note ''notes'') (dm_notes m))
     (\<lambda>_. Inr m))))))"

definition manifest_ok :: "dataset_manifest \<Rightarrow> bool" where
  "manifest_ok m \<longleftrightarrow>
     identifier_class (dm_run_id m) = RunId
     \<and> opt_all (\<lambda>i. identifier_class i = DatasetId) (dm_manifest_id m)
     \<and> \<not> blank (dm_source m) \<and> opt_all (\<lambda>s. \<not> blank s) (dm_acquisition_method m)
     \<and> opt_all (\<lambda>s. \<not> blank s) (dm_normalization_method m) \<and> (\<forall>n \<in> set (dm_notes m). \<not> blank n)"

lemma make_dataset_manifest_Inr [result_eqs]:
  "make_dataset_manifest m = Inr m' \<longleftrightarrow> m' = m \<and> manifest_ok m"
  by (auto simp: make_dataset_manifest_def manifest_ok_def result_eqs)

text \<open>A manifest whose identifiers passed their own constructors as well.\<close>

definition manifest_wf :: "dataset_manifest \<Rightarrow> bool" where
  "manifest_wf m \<longleftrightarrow>
     manifest_ok m \<and> identifier_ok (dm_run_id m) \<and> opt_all identifier_ok (dm_manifest_id m)"

section \<open>The aggregate\<close>

record run =
  run_identity :: domain_identity
  run_campaign_id :: governance_identifier
  run_state :: run_state
  run_version :: aggregate_version
  run_next_sequence :: transition_sequence
  run_history :: "transition list"
  run_manifests :: "dataset_manifest list"

definition run_new :: "domain_identity \<Rightarrow> governance_identifier \<Rightarrow> exn + run" where
  "run_new ident campaign_id =
     rbind (ensure (identifier_class (governance_id ident) = RunId)
              (TypeError ''identity governance_id must be a RunId''))
     (\<lambda>_. rbind (ensure (identifier_class campaign_id = CampaignId)
              (TypeError ''campaign_id must be a CampaignId''))
     (\<lambda>_. Inr \<lparr>run_identity = ident, run_campaign_id = campaign_id, run_state = R_CREATED,
               run_version = version_initial, run_next_sequence = sequence_initial,
               run_history = [], run_manifests = []\<rparr>))"

definition run_current_manifest :: "run \<Rightarrow> dataset_manifest option" where
  "run_current_manifest r = (if run_manifests r \<noteq> [] then Some (last (run_manifests r)) else None)"

definition run_transition ::
    "run_state list \<Rightarrow> run_state \<Rightarrow> string \<Rightarrow> datetime \<Rightarrow> string option \<Rightarrow> string option
     \<Rightarrow> run \<Rightarrow> exn + run" where
  "run_transition allowed next_state actor occurred_at correlation_id reason r =
     rbind (ensure (run_state r \<in> set allowed)
       (ValueError (''cannot transition from '' @ run_state_value (run_state r) @ ''; expected ''
          @ join '', '' (map run_state_value allowed))))
     (\<lambda>_. rbind (require_non_empty actor ''actor'')
     (\<lambda>_. rbind (require_optional_non_empty correlation_id ''correlation_id'')
     (\<lambda>_. rbind (require_optional_non_empty reason ''reason'')
     (\<lambda>_. rbind (make_transition
              \<lparr>tr_from = Some (run_state_value (run_state r)),
               tr_to = run_state_value next_state,
               tr_version = version_next (run_version r),
               tr_sequence = run_next_sequence r, tr_actor = actor, tr_occurred_at = occurred_at,
               tr_identity = Some (run_identity r), tr_correlation = correlation_id,
               tr_reason = reason\<rparr>)
     (\<lambda>record. Inr (r\<lparr>run_state := next_state,
                     run_version := version_next (run_version r),
                     run_next_sequence := sequence_next (run_next_sequence r),
                     run_history := run_history r @ [record]\<rparr>))))))"

definition run_authorize ::
    "string \<Rightarrow> datetime \<Rightarrow> string option \<Rightarrow> string option \<Rightarrow> run \<Rightarrow> exn + run" where
  "run_authorize actor occurred_at correlation_id reason r =
     run_transition [R_CREATED] R_AUTHORIZED actor occurred_at correlation_id reason r"

definition run_start_acquisition ::
    "string \<Rightarrow> datetime \<Rightarrow> string option \<Rightarrow> string option \<Rightarrow> run \<Rightarrow> exn + run" where
  "run_start_acquisition actor occurred_at correlation_id reason r =
     run_transition [R_AUTHORIZED] R_ACQUIRING actor occurred_at correlation_id reason r"

definition run_start_normalization ::
    "string \<Rightarrow> datetime \<Rightarrow> string option \<Rightarrow> string option \<Rightarrow> run \<Rightarrow> exn + run" where
  "run_start_normalization actor occurred_at correlation_id reason r =
     run_transition [R_ACQUIRING] R_NORMALIZING actor occurred_at correlation_id reason r"

definition run_start_validation ::
    "string \<Rightarrow> datetime \<Rightarrow> string option \<Rightarrow> string option \<Rightarrow> run \<Rightarrow> exn + run" where
  "run_start_validation actor occurred_at correlation_id reason r =
     run_transition [R_NORMALIZING] R_VALIDATING actor occurred_at correlation_id reason r"

definition run_complete_execution ::
    "string \<Rightarrow> datetime \<Rightarrow> string option \<Rightarrow> string option \<Rightarrow> run \<Rightarrow> exn + run" where
  "run_complete_execution actor occurred_at correlation_id reason r =
     run_transition [R_VALIDATING] R_EXECUTION_COMPLETED actor occurred_at correlation_id reason r"

definition run_cancel ::
    "string \<Rightarrow> string \<Rightarrow> datetime \<Rightarrow> string option \<Rightarrow> run \<Rightarrow> exn + run" where
  "run_cancel reason actor occurred_at correlation_id r =
     rbind (require_non_empty reason ''cancellation reason'')
     (\<lambda>_. run_transition [R_AUTHORIZED] R_CANCELLED actor occurred_at correlation_id (Some reason) r)"

definition run_fail ::
    "string \<Rightarrow> string \<Rightarrow> datetime \<Rightarrow> string option \<Rightarrow> run \<Rightarrow> exn + run" where
  "run_fail reason actor occurred_at correlation_id r =
     rbind (require_non_empty reason ''failure reason'')
     (\<lambda>_. run_transition [R_ACQUIRING, R_NORMALIZING, R_VALIDATING] R_FAILED actor occurred_at
            correlation_id (Some reason) r)"

definition manifest_append_states :: "run_state list" where
  "manifest_append_states = [R_CREATED, R_AUTHORIZED, R_ACQUIRING, R_NORMALIZING, R_VALIDATING]"

definition run_append_manifest :: "dataset_manifest \<Rightarrow> run \<Rightarrow> exn + run" where
  "run_append_manifest m r =
     rbind (ensure (run_state r \<in> set manifest_append_states)
       (ValueError (''Dataset Manifests may not be appended while '' @ run_state_value (run_state r))))
     (\<lambda>_. rbind (ensure (dm_run_id m = governance_id (run_identity r))
       (ValueError ''Dataset Manifest run_id must match Run identity''))
     (\<lambda>_. rbind (ensure (\<not> (dm_manifest_id m \<noteq> None
              \<and> (\<exists>existing \<in> set (run_manifests r).
                    dm_manifest_id existing \<noteq> None \<and> dm_manifest_id existing = dm_manifest_id m)))
       (ValueError ''Dataset Manifest manifest_id already exists in Run''))
     (\<lambda>_. Inr (r\<lparr>run_version := version_next (run_version r),
                run_manifests := run_manifests r @ [m]\<rparr>))))"

section \<open>Reconstruction\<close>

record run_reconstruction_state =
  rrs_identity :: domain_identity
  rrs_campaign_id :: governance_identifier
  rrs_state :: run_state
  rrs_manifests :: "dataset_manifest list"
  rrs_version :: aggregate_version
  rrs_next_sequence :: transition_sequence
  rrs_history :: "transition list"

definition make_run_reconstruction_state ::
    "run_reconstruction_state \<Rightarrow> exn + run_reconstruction_state" where
  "make_run_reconstruction_state st =
     rbind (ensure (identifier_class (governance_id (rrs_identity st)) = RunId)
              (ReconstructionError INVALID_AGGREGATE_IDENTITY
                 ''identity governance_id must be a RunId'' ''identity''))
     (\<lambda>_. rbind (ensure (identifier_class (rrs_campaign_id st) = CampaignId)
              (ReconstructionError INVALID_AGGREGATE_IDENTITY
                 ''campaign_id must be CampaignId'' ''campaign_id''))
     (\<lambda>_. Inr st))"

definition run_allowed_edges :: "(string \<times> string) list" where
  "run_allowed_edges =
     [(''CREATED'', ''AUTHORIZED''),
      (''AUTHORIZED'', ''ACQUIRING''),
      (''ACQUIRING'', ''NORMALIZING''),
      (''NORMALIZING'', ''VALIDATING''),
      (''VALIDATING'', ''EXECUTION_COMPLETED''),
      (''AUTHORIZED'', ''CANCELLED''),
      (''ACQUIRING'', ''FAILED''),
      (''NORMALIZING'', ''FAILED''),
      (''VALIDATING'', ''FAILED'')]"

definition run_terminal_states :: "string list" where
  "run_terminal_states = [''EXECUTION_COMPLETED'', ''FAILED'', ''CANCELLED'']"

text \<open>The loop of \<^verbatim>\<open>_validate_manifests\<close>, with the set of identifiers already seen.\<close>

fun validate_manifests ::
    "governance_identifier \<Rightarrow> governance_identifier set \<Rightarrow> dataset_manifest list \<Rightarrow> exn + unit" where
  "validate_manifests run_id seen [] = Inr ()"
| "validate_manifests run_id seen (m # ms) =
     rbind (ensure (dm_run_id m = run_id)
       (ReconstructionError INVALID_COLLECTION_ELEMENT
          ''Dataset Manifest run_id must match Run identity'' ''manifests''))
     (\<lambda>_. case dm_manifest_id m of
        None \<Rightarrow> validate_manifests run_id seen ms
      | Some i \<Rightarrow>
          rbind (ensure (i \<notin> seen)
            (ReconstructionError DUPLICATE_OWNED_VALUE
               ''Dataset Manifest manifest_id already exists in Run'' ''manifests''))
          (\<lambda>_. validate_manifests run_id (insert i seen) ms))"

definition validate_run_terminal_reason :: "run_reconstruction_state \<Rightarrow> exn + unit" where
  "validate_run_terminal_reason st =
     (if rrs_state st \<notin> {R_FAILED, R_CANCELLED} then Inr ()
      else ensure (\<not> (rrs_history st = [] \<or> tr_reason (last (rrs_history st)) = None))
             (ReconstructionError INCONSISTENT_TERMINAL_METADATA
                ''Run failure or cancellation requires a final transition reason'' ''transition_history''))"

definition reconstruct_run :: "run_reconstruction_state \<Rightarrow> exn + run" where
  "reconstruct_run st =
     rbind (validate_transition_history (rrs_history st) (rrs_identity st)
              (run_state_value (rrs_state st)) (run_state_value R_CREATED)
              run_allowed_edges run_terminal_states (rrs_next_sequence st) [''CREATED''])
     (\<lambda>highest. rbind (validate_manifests (governance_id (rrs_identity st)) {} (rrs_manifests st))
     (\<lambda>_. let version_floor = max (version_value highest) (int (length (rrs_manifests st))) in
        rbind (ensure (\<not> version_value (rrs_version st) < version_floor)
          (ReconstructionError INVALID_AGGREGATE_VERSION
             ''Run version is lower than restored state requires'' ''version''))
     (\<lambda>_. rbind (validate_run_terminal_reason st)
     (\<lambda>_. Inr \<lparr>run_identity = rrs_identity st, run_campaign_id = rrs_campaign_id st,
               run_state = rrs_state st, run_version = rrs_version st,
               run_next_sequence = rrs_next_sequence st, run_history = rrs_history st,
               run_manifests = rrs_manifests st\<rparr>))))"

section \<open>Mapper\<close>

record dataset_manifest_durable =
  dmd_run_id :: string
  dmd_recorded_at :: datetime
  dmd_source :: string
  dmd_acquisition_method :: "string option"
  dmd_normalization_method :: "string option"
  dmd_manifest_id :: "string option"
  dmd_notes :: "string list"

record run_durable =
  rd_identity :: identity_durable
  rd_campaign_id :: string
  rd_lifecycle_state :: string
  rd_manifests :: "dataset_manifest_durable list"
  rd_version :: int
  rd_next_sequence :: int
  rd_history :: "transition_durable list"

definition manifest_to_durable :: "dataset_manifest \<Rightarrow> dataset_manifest_durable" where
  "manifest_to_durable m =
     \<lparr>dmd_run_id = identifier_str (dm_run_id m), dmd_recorded_at = dm_recorded_at m,
      dmd_source = dm_source m, dmd_acquisition_method = dm_acquisition_method m,
      dmd_normalization_method = dm_normalization_method m,
      dmd_manifest_id = map_option identifier_str (dm_manifest_id m), dmd_notes = dm_notes m\<rparr>"

definition manifest_from_durable :: "dataset_manifest_durable \<Rightarrow> exn + dataset_manifest" where
  "manifest_from_durable d =
     rbind (make_identifier RunId (dmd_run_id d))
     (\<lambda>run_id. rbind
        (case dmd_manifest_id d of
           None \<Rightarrow> Inr None
         | Some s \<Rightarrow> rbind (make_identifier DatasetId s) (\<lambda>i. Inr (Some i)))
     (\<lambda>manifest_id. make_dataset_manifest
        \<lparr>dm_run_id = run_id, dm_recorded_at = dmd_recorded_at d, dm_source = dmd_source d,
         dm_acquisition_method = dmd_acquisition_method d,
         dm_normalization_method = dmd_normalization_method d,
         dm_manifest_id = manifest_id, dm_notes = dmd_notes d\<rparr>))"

definition run_to_durable :: "run \<Rightarrow> run_durable" where
  "run_to_durable r =
     \<lparr>rd_identity = identity_to_durable (run_identity r),
      rd_campaign_id = identifier_str (run_campaign_id r),
      rd_lifecycle_state = run_state_value (run_state r),
      rd_manifests = map manifest_to_durable (run_manifests r),
      rd_version = version_value (run_version r),
      rd_next_sequence = sequence_value (run_next_sequence r),
      rd_history = map transition_to_durable (run_history r)\<rparr>"

definition run_from_durable :: "run_durable \<Rightarrow> exn + run_reconstruction_state" where
  "run_from_durable d =
     rbind (case run_state_of (rd_lifecycle_state d) of
              None \<Rightarrow> Inl (MapperError INVALID_DURABLE_RECORD ''unknown Run lifecycle_state''
                            ''Run'' (Some ''lifecycle_state''))
            | Some s \<Rightarrow> Inr s)
     (\<lambda>lifecycle_state. rbind
        (rcatch (malformed_as ''Run'')
          (rbind (identity_from_durable RunId (rd_identity d))
           (\<lambda>ident. rbind (make_identifier CampaignId (rd_campaign_id d))
           (\<lambda>campaign_id. rbind (rmap manifest_from_durable (rd_manifests d))
           (\<lambda>manifests. rbind (rmap (transition_from_durable RunId) (rd_history d))
           (\<lambda>history. Inr (ident, campaign_id, manifests, history)))))))
     (\<lambda>(ident, campaign_id, manifests, history). rbind (make_version (rd_version d))
     (\<lambda>version. rbind (make_sequence (rd_next_sequence d))
     (\<lambda>next_seq. make_run_reconstruction_state
        \<lparr>rrs_identity = ident, rrs_campaign_id = campaign_id, rrs_state = lifecycle_state,
         rrs_manifests = manifests, rrs_version = version, rrs_next_sequence = next_seq,
         rrs_history = history\<rparr>))))"

lemmas run_operations [lifecycle_defs] =
  run_authorize_def run_start_acquisition_def run_start_normalization_def run_start_validation_def
  run_complete_execution_def run_cancel_def run_fail_def

section \<open>Characteristic equations of the operations\<close>

lemma run_state_value_not_blank [simp]: "\<not> blank (run_state_value s)"
  by (cases s) (simp_all add: blank_iff_spaces is_py_space_def)

definition run_moved ::
    "run_state \<Rightarrow> string \<Rightarrow> datetime \<Rightarrow> string option \<Rightarrow> string option \<Rightarrow> run \<Rightarrow> run" where
  "run_moved next_state actor occurred_at correlation_id reason r =
     r\<lparr>run_state := next_state,
       run_version := version_next (run_version r),
       run_next_sequence := sequence_next (run_next_sequence r),
       run_history := run_history r @
         [\<lparr>tr_from = Some (run_state_value (run_state r)),
           tr_to = run_state_value next_state,
           tr_version = version_next (run_version r), tr_sequence = run_next_sequence r,
           tr_actor = actor, tr_occurred_at = occurred_at, tr_identity = Some (run_identity r),
           tr_correlation = correlation_id, tr_reason = reason\<rparr>]\<rparr>"

definition run_with_manifest :: "dataset_manifest \<Rightarrow> run \<Rightarrow> run" where
  "run_with_manifest m r =
     r\<lparr>run_version := version_next (run_version r), run_manifests := run_manifests r @ [m]\<rparr>"

lemma run_moved_simps [simp]:
  "run_identity (run_moved t a o' k w r) = run_identity r"
  "run_campaign_id (run_moved t a o' k w r) = run_campaign_id r"
  "run_state (run_moved t a o' k w r) = t"
  "run_version (run_moved t a o' k w r) = version_next (run_version r)"
  "run_next_sequence (run_moved t a o' k w r) = sequence_next (run_next_sequence r)"
  "run_manifests (run_moved t a o' k w r) = run_manifests r"
  by (simp_all add: run_moved_def)

lemma run_with_manifest_simps [simp]:
  "run_identity (run_with_manifest m r) = run_identity r"
  "run_campaign_id (run_with_manifest m r) = run_campaign_id r"
  "run_state (run_with_manifest m r) = run_state r"
  "run_version (run_with_manifest m r) = version_next (run_version r)"
  "run_next_sequence (run_with_manifest m r) = run_next_sequence r"
  "run_history (run_with_manifest m r) = run_history r"
  "run_manifests (run_with_manifest m r) = run_manifests r @ [m]"
  by (simp_all add: run_with_manifest_def)

lemma run_transition_Inr:
  "run_transition allowed t actor at corr reason r = Inr r' \<longleftrightarrow>
     run_state r \<in> set allowed \<and> \<not> blank actor \<and> opt_all (\<lambda>s. \<not> blank s) corr
     \<and> opt_all (\<lambda>s. \<not> blank s) reason \<and> r' = run_moved t actor at corr reason r"
  by (auto simp: run_transition_def run_moved_def result_eqs transition_ok_def)

text \<open>The identifiers of the manifests that have one, in order.\<close>

definition manifest_ids :: "dataset_manifest list \<Rightarrow> governance_identifier list" where
  "manifest_ids ms = concat (map (\<lambda>m. case dm_manifest_id m of None \<Rightarrow> [] | Some i \<Rightarrow> [i]) ms)"

lemma manifest_ids_simps [simp]:
  "manifest_ids [] = []"
  "manifest_ids (m # ms) = (case dm_manifest_id m of None \<Rightarrow> [] | Some i \<Rightarrow> [i]) @ manifest_ids ms"
  "manifest_ids (ms @ ns) = manifest_ids ms @ manifest_ids ns"
  by (simp_all add: manifest_ids_def)

lemma in_manifest_ids: "i \<in> set (manifest_ids ms) \<longleftrightarrow> (\<exists>m \<in> set ms. dm_manifest_id m = Some i)"
  by (induction ms) (auto split: option.splits)

lemma validate_manifests_Inr:
  "validate_manifests rid seen ms = Inr u \<longleftrightarrow>
     (\<forall>m \<in> set ms. dm_run_id m = rid) \<and> distinct (manifest_ids ms) \<and> set (manifest_ids ms) \<inter> seen = {}"
  by (induction ms arbitrary: seen) (auto simp: result_eqs split: option.splits)

lemma run_append_manifest_Inr:
  "run_append_manifest m r = Inr r' \<longleftrightarrow>
     run_state r \<in> set manifest_append_states \<and> dm_run_id m = governance_id (run_identity r)
     \<and> set (manifest_ids [m]) \<inter> set (manifest_ids (run_manifests r)) = {}
     \<and> r' = run_with_manifest m r"
proof (cases "dm_manifest_id m")
  case None
  then show ?thesis
    by (auto simp: run_append_manifest_def run_with_manifest_def result_eqs)
next
  case (Some i)
  then show ?thesis
    by (auto simp: run_append_manifest_def run_with_manifest_def result_eqs in_manifest_ids)
qed

section \<open>The invariant\<close>

definition run_ok :: "run \<Rightarrow> bool" where
  "run_ok r \<longleftrightarrow>
     identity_ok RunId (run_identity r)
     \<and> identifier_class (run_campaign_id r) = CampaignId \<and> identifier_ok (run_campaign_id r)
     \<and> history_inv (run_identity r) (run_state_value R_CREATED) run_allowed_edges
         run_terminal_states (run_state_value (run_state r)) (run_next_sequence r)
         (run_version r) (run_history r)
     \<and> (\<forall>m \<in> set (run_manifests r). manifest_wf m \<and> dm_run_id m = governance_id (run_identity r))
     \<and> distinct (manifest_ids (run_manifests r))
     \<and> version_value (run_version r) = int (length (run_history r) + length (run_manifests r))
     \<and> (run_state r \<in> {R_FAILED, R_CANCELLED}
          \<longrightarrow> run_history r \<noteq> [] \<and> tr_reason (last (run_history r)) \<noteq> None)"

lemma run_new_ok:
  assumes "identity_ok RunId ident" "identifier_ok campaign_id" "run_new ident campaign_id = Inr r"
  shows "run_ok r"
  using assms history_inv_initial
  by (auto simp: run_new_def run_ok_def result_eqs)

lemma run_moved_ok:
  assumes ok: "run_ok r"
    and args: "\<not> blank actor" "opt_all (\<lambda>s. \<not> blank s) corr" "opt_all (\<lambda>s. \<not> blank s) reason"
    and edge: "(run_state_value (run_state r), run_state_value t) \<in> set run_allowed_edges"
    and live: "run_state_value (run_state r) \<notin> set run_terminal_states"
    and reasoned: "t \<in> {R_FAILED, R_CANCELLED} \<Longrightarrow> reason \<noteq> None"
  shows "run_ok (run_moved t actor at corr reason r)"
proof -
  let ?r = "\<lparr>tr_from = Some (run_state_value (run_state r)),
           tr_to = run_state_value t,
           tr_version = version_next (run_version r), tr_sequence = run_next_sequence r,
           tr_actor = actor, tr_occurred_at = at, tr_identity = Some (run_identity r),
           tr_correlation = corr, tr_reason = reason\<rparr>"
  have "history_inv (run_identity r) (run_state_value R_CREATED) run_allowed_edges
          run_terminal_states (run_state_value t) (sequence_next (run_next_sequence r))
          (version_next (run_version r)) (run_history r @ [?r])"
  proof (rule history_inv_snoc)
    show "history_inv (run_identity r) (run_state_value R_CREATED) run_allowed_edges
          run_terminal_states (run_state_value (run_state r)) (run_next_sequence r)
          (run_version r) (run_history r)"
      using ok by (simp add: run_ok_def)
  qed (use args live edge in \<open>simp_all add: transition_ok_def\<close>)
  then show ?thesis
    using ok reasoned by (auto simp: run_ok_def run_moved_def)
qed

lemma run_with_manifest_ok:
  assumes "run_ok r" "manifest_wf m" "run_state r \<in> set manifest_append_states"
    "dm_run_id m = governance_id (run_identity r)"
    "set (manifest_ids [m]) \<inter> set (manifest_ids (run_manifests r)) = {}"
  shows "run_ok (run_with_manifest m r)"
  using assms history_inv_bump[OF _ version_le_next]
  by (auto simp: run_ok_def manifest_append_states_def split: option.splits)

section \<open>Steps and live Runs\<close>

inductive run_step :: "run \<Rightarrow> run \<Rightarrow> bool" where
  authorize: "run_authorize actor at corr reason r = Inr r' \<Longrightarrow> run_step r r'"
| acquire: "run_start_acquisition actor at corr reason r = Inr r' \<Longrightarrow> run_step r r'"
| normalize: "run_start_normalization actor at corr reason r = Inr r' \<Longrightarrow> run_step r r'"
| validate: "run_start_validation actor at corr reason r = Inr r' \<Longrightarrow> run_step r r'"
| complete: "run_complete_execution actor at corr reason r = Inr r' \<Longrightarrow> run_step r r'"
| cancel: "run_cancel reason' actor at corr r = Inr r' \<Longrightarrow> run_step r r'"
| fail: "run_fail reason' actor at corr r = Inr r' \<Longrightarrow> run_step r r'"
| append: "manifest_wf m \<Longrightarrow> run_append_manifest m r = Inr r' \<Longrightarrow> run_step r r'"

inductive run_live :: "run \<Rightarrow> bool" where
  new: "identity_ok RunId ident \<Longrightarrow> identifier_ok campaign_id
     \<Longrightarrow> run_new ident campaign_id = Inr r \<Longrightarrow> run_live r"
| step: "run_live r \<Longrightarrow> run_step r r' \<Longrightarrow> run_live r'"

lemmas run_edge_defs = run_allowed_edges_def run_terminal_states_def

lemma run_step_cases:
  assumes "run_step r r'"
  obtains (appended) m where "manifest_wf m" "run_state r \<in> set manifest_append_states"
      "dm_run_id m = governance_id (run_identity r)"
      "set (manifest_ids [m]) \<inter> set (manifest_ids (run_manifests r)) = {}"
      "r' = run_with_manifest m r"
  | (moved) t actor at corr reason where
      "(run_state_value (run_state r), run_state_value t) \<in> set run_allowed_edges"
      "run_state_value (run_state r) \<notin> set run_terminal_states"
      "\<not> blank actor" "opt_all (\<lambda>s. \<not> blank s) corr" "opt_all (\<lambda>s. \<not> blank s) reason"
      "t \<in> {R_FAILED, R_CANCELLED} \<Longrightarrow> reason \<noteq> None"
      "r' = run_moved t actor at corr reason r"
  using assms
proof cases
  case (authorize actor at corr reason)
  then show ?thesis
    by (intro moved[of R_AUTHORIZED actor corr reason at])
      (auto simp: lifecycle_defs run_transition_Inr run_edge_defs)
next
  case (acquire actor at corr reason)
  then show ?thesis
    by (intro moved[of R_ACQUIRING actor corr reason at])
      (auto simp: lifecycle_defs run_transition_Inr run_edge_defs)
next
  case (normalize actor at corr reason)
  then show ?thesis
    by (intro moved[of R_NORMALIZING actor corr reason at])
      (auto simp: lifecycle_defs run_transition_Inr run_edge_defs)
next
  case (validate actor at corr reason)
  then show ?thesis
    by (intro moved[of R_VALIDATING actor corr reason at])
      (auto simp: lifecycle_defs run_transition_Inr run_edge_defs)
next
  case (complete actor at corr reason)
  then show ?thesis
    by (intro moved[of R_EXECUTION_COMPLETED actor corr reason at])
      (auto simp: lifecycle_defs run_transition_Inr run_edge_defs)
next
  case (cancel reason actor at corr)
  then show ?thesis
    by (intro moved[of R_CANCELLED actor corr "Some reason" at])
      (auto simp: lifecycle_defs run_transition_Inr result_eqs run_edge_defs)
next
  case (fail reason actor at corr)
  then show ?thesis
    by (intro moved[of R_FAILED actor corr "Some reason" at])
      (auto simp: lifecycle_defs run_transition_Inr result_eqs run_edge_defs)
next
  case (append m)
  then show ?thesis
    by (intro appended[of m]) (auto simp: run_append_manifest_Inr)
qed

lemma run_step_ok: "run_step r r' \<Longrightarrow> run_ok r \<Longrightarrow> run_ok r'"
proof (erule run_step_cases)
  fix m
  assume "run_ok r" "manifest_wf m" "run_state r \<in> set manifest_append_states"
    "dm_run_id m = governance_id (run_identity r)"
    "set (manifest_ids [m]) \<inter> set (manifest_ids (run_manifests r)) = {}"
    "r' = run_with_manifest m r"
  then show "run_ok r'" by (blast intro: run_with_manifest_ok)
next
  fix t actor at corr reason
  assume a: "run_ok r" "(run_state_value (run_state r), run_state_value t) \<in> set run_allowed_edges"
    "run_state_value (run_state r) \<notin> set run_terminal_states"
    "\<not> blank actor" "opt_all (\<lambda>s. \<not> blank s) corr" "opt_all (\<lambda>s. \<not> blank s) reason"
    "t \<in> {R_FAILED, R_CANCELLED} \<Longrightarrow> reason \<noteq> None"
    and r': "r' = run_moved t actor at corr reason r"
  show "run_ok r'" unfolding r' by (rule run_moved_ok) (fact a)+
qed

lemma run_live_ok: "run_live r \<Longrightarrow> run_ok r"
proof (induction rule: run_live.induct)
  case (new ident campaign_id r)
  then show ?case by (rule run_new_ok)
next
  case (step r r')
  then show ?case by (blast intro: run_step_ok)
qed

section \<open>Reconstruction accepts every live Run\<close>

lemma reconstruct_run_Inr:
  "reconstruct_run st = Inr r \<longleftrightarrow>
     history_valid (rrs_identity st) (run_state_value (rrs_state st)) ''CREATED''
       run_allowed_edges run_terminal_states (rrs_next_sequence st) [''CREATED''] (rrs_history st)
     \<and> (\<forall>m \<in> set (rrs_manifests st). dm_run_id m = governance_id (rrs_identity st))
     \<and> distinct (manifest_ids (rrs_manifests st))
     \<and> highest_of version_initial (rrs_history st) \<le> rrs_version st
     \<and> int (length (rrs_manifests st)) \<le> version_value (rrs_version st)
     \<and> (rrs_state st \<in> {R_FAILED, R_CANCELLED}
          \<longrightarrow> rrs_history st \<noteq> [] \<and> tr_reason (last (rrs_history st)) \<noteq> None)
     \<and> r = \<lparr>run_identity = rrs_identity st, run_campaign_id = rrs_campaign_id st,
            run_state = rrs_state st, run_version = rrs_version st,
            run_next_sequence = rrs_next_sequence st, run_history = rrs_history st,
            run_manifests = rrs_manifests st\<rparr>"
  by (auto simp: reconstruct_run_def validate_run_terminal_reason_def result_eqs
      validate_transition_history_iff validate_manifests_Inr Let_def not_less version_order)

definition run_reconstruction_of :: "run \<Rightarrow> run_reconstruction_state" where
  "run_reconstruction_of r =
     \<lparr>rrs_identity = run_identity r, rrs_campaign_id = run_campaign_id r,
      rrs_state = run_state r, rrs_manifests = run_manifests r, rrs_version = run_version r,
      rrs_next_sequence = run_next_sequence r, rrs_history = run_history r\<rparr>"

lemma run_ok_history_valid:
  assumes "run_ok r"
  shows "history_valid (run_identity r) (run_state_value (run_state r)) ''CREATED''
       run_allowed_edges run_terminal_states (run_next_sequence r) [''CREATED''] (run_history r)
     \<and> highest_of version_initial (run_history r) \<le> run_version r"
proof -
  have inv: "history_inv (run_identity r) ''CREATED'' run_allowed_edges
         run_terminal_states (run_state_value (run_state r)) (run_next_sequence r)
         (run_version r) (run_history r)"
    using assms by (simp add: run_ok_def)
  from history_inv_validates[OF inv, of "[''CREATED'']"] show ?thesis
    by (auto simp: validate_transition_history_iff)
qed

lemma reconstruct_run_ok: "run_ok r \<Longrightarrow> reconstruct_run (run_reconstruction_of r) = Inr r"
  using run_ok_history_valid[of r]
  by (auto simp: reconstruct_run_Inr run_reconstruction_of_def run_ok_def)

lemma manifest_durable_roundtrip:
  assumes "manifest_wf m"
  shows "manifest_from_durable (manifest_to_durable m) = Inr m"
proof -
  have "make_dataset_manifest m = Inr m"
    using assms by (simp add: make_dataset_manifest_Inr manifest_wf_def)
  with assms show ?thesis
    by (cases m; cases "dm_manifest_id m")
      (simp_all add: manifest_from_durable_def manifest_to_durable_def manifest_wf_def manifest_ok_def
        make_identifier_str)
qed

lemma run_from_to_durable:
  assumes "run_ok r"
  shows "run_from_durable (run_to_durable r) = Inr (run_reconstruction_of r)"
proof -
  have id: "identity_ok RunId (run_identity r)"
    and camp: "make_identifier CampaignId (identifier_str (run_campaign_id r)) = Inr (run_campaign_id r)"
    and inv: "history_inv (run_identity r) (run_state_value R_CREATED) run_allowed_edges
         run_terminal_states (run_state_value (run_state r)) (run_next_sequence r)
         (run_version r) (run_history r)"
    and ms: "\<forall>m \<in> set (run_manifests r). manifest_wf m"
    and cls: "identifier_class (run_campaign_id r) = CampaignId"
    using assms by (auto simp: run_ok_def make_identifier_str)
  have "rmap manifest_from_durable (map manifest_to_durable (run_manifests r)) = Inr (run_manifests r)"
    using ms by (intro rmap_map_inverse) (simp add: manifest_durable_roundtrip)
  moreover have "0 \<le> version_value (run_version r)"
    using history_inv_version[OF inv] by (simp add: version_order)
  moreover have "1 \<le> sequence_value (run_next_sequence r)"
    by (rule history_inv_sequence_pos[OF inv])
  ultimately show ?thesis
    using id camp cls history_durable_roundtrip[OF inv id]
    by (simp add: run_from_durable_def run_to_durable_def run_reconstruction_of_def
        identity_durable_roundtrip make_version_value make_sequence_value
        make_run_reconstruction_state_def identity_ok_def)
qed

section \<open>Examples\<close>

lemmas run_walk =
  run_live.step[rotated, OF run_step.authorize]
  run_live.step[rotated, OF run_step.acquire]
  run_live.step[rotated, OF run_step.normalize]
  run_live.step[rotated, OF run_step.validate]
  run_live.step[rotated, OF run_step.complete]
  run_live.step[rotated, OF run_step.cancel]
  run_live.step[rotated, OF run_step.fail]
  run_live.step[rotated, OF run_step.append]

definition walked_run :: "exn + run" where
  "walked_run =
     rbind (run_new (walk_identity RunId) (Identifier CampaignId ''CAMP-0001''))
     (\<lambda>r. rbind (run_authorize ''ops'' (Aware 1) None None r)
     (\<lambda>r. rbind (run_append_manifest
        \<lparr>dm_run_id = Identifier RunId ''RUN-0001'', dm_recorded_at = Aware 2, dm_source = ''source'',
         dm_acquisition_method = None, dm_normalization_method = None,
         dm_manifest_id = Some (Identifier DatasetId ''DATASET-0001''), dm_notes = []\<rparr> r)
     (\<lambda>r. rbind (run_start_acquisition ''ops'' (Aware 3) None None r)
     (\<lambda>r. run_fail ''broken'' ''ops'' (Aware 4) None r))))"

lemma walked_run_live: "\<exists>r. walked_run = Inr r \<and> run_live r \<and> length (run_history r) = 3 \<and> length (run_manifests r) = 1"
proof -
  let ?m = "\<lparr>dm_run_id = Identifier RunId ''RUN-0001'', dm_recorded_at = Aware 2, dm_source = ''source'',
         dm_acquisition_method = None, dm_normalization_method = None,
         dm_manifest_id = Some (Identifier DatasetId ''DATASET-0001''), dm_notes = []\<rparr>"
  have run: "case walked_run of Inl _ \<Rightarrow> False | Inr r \<Rightarrow> length (run_history r) = 3 \<and> length (run_manifests r) = 1"
    by code_simp
  have id: "identity_ok RunId (walk_identity RunId)" "identifier_ok (Identifier CampaignId ''CAMP-0001'')" by code_simp+
  have m: "manifest_wf ?m" by code_simp
  show ?thesis
  proof (cases walked_run)
    case (Inr r)
    then obtain r0 r1 r2 r3 where s: "run_new (walk_identity RunId) (Identifier CampaignId ''CAMP-0001'') = Inr r0"
      "run_authorize ''ops'' (Aware 1) None None r0 = Inr r1" "run_append_manifest ?m r1 = Inr r2"
      "run_start_acquisition ''ops'' (Aware 3) None None r2 = Inr r3"
      "run_fail ''broken'' ''ops'' (Aware 4) None r3 = Inr r"
      unfolding walked_run_def rbind_eq_Inr by blast
    have "run_live r"
      by (rule run_walk(7)[OF s(5) run_walk(2)[OF s(4) run_walk(8)[OF m s(3) run_walk(1)[OF s(2) run_live.new[OF id s(1)]]]]])
    then show ?thesis using run unfolding Inr sum.case by blast
  next
    case (Inl e)
    show ?thesis using run unfolding Inl sum.case by blast
  qed
qed

definition first_run :: run where
  "first_run =
     \<lparr>run_identity = walk_identity RunId, run_campaign_id = Identifier CampaignId ''CAMP-0001'',
      run_state = R_CREATED, run_version = version_initial, run_next_sequence = sequence_initial,
      run_history = [], run_manifests = []\<rparr>"

lemma first_run_step: "\<exists>a'. run_step first_run a'"
proof -
  have "\<exists>a'. run_authorize ''ops'' (Aware 1) None None first_run = Inr a'"
    by (simp add: lifecycle_defs run_transition_Inr first_run_def blank_iff_spaces is_py_space_def)
  then show ?thesis by (blast intro: run_step.authorize)
qed

section \<open>What the Run guarantees\<close>

text \<open>
  C23. A Run that the constructor and the operations produced survives its stored form
  unchanged: mapping it to its durable record, mapping the record back and reconstructing gives
  the same aggregate, whatever operations it went through.
\<close>

theorem run_survives_persistence:
  assumes "run_live a"
  shows "rbind (run_from_durable (run_to_durable a)) reconstruct_run = Inr a"
  using run_live_ok[OF assms] by (simp add: run_from_to_durable reconstruct_run_ok)

theorem run_survives_persistence_witness:
  "\<exists>a. walked_run = Inr a \<and> rbind (run_from_durable (run_to_durable a)) reconstruct_run = Inr a"
  using walked_run_live run_survives_persistence by blast

text \<open>
  Every operation of a Run is audited: it keeps the identity, advances the version by one,
  and either appends exactly one record, which names the aggregate, its actor, the new version, the
  next sequence number and the lifecycle edge that was taken, an allowed one that does not leave a
  terminal state; or it leaves state and history alone, which only appending one Dataset Manifest of this Run does, in a state that allows it.
\<close>

theorem run_steps_are_audited:
  assumes "run_step a a'"
  shows "run_identity a' = run_identity a \<and> run_version a' = version_next (run_version a)
     \<and> ((\<exists>r. run_history a' = run_history a @ [r]
            \<and> edge_of r = (run_state_value (run_state a), run_state_value (run_state a'))
            \<and> edge_of r \<in> set run_allowed_edges \<and> fst (edge_of r) \<notin> set run_terminal_states
            \<and> tr_version r = run_version a' \<and> tr_sequence r = run_next_sequence a
            \<and> run_next_sequence a' = sequence_next (run_next_sequence a)
            \<and> tr_identity r = Some (run_identity a) \<and> \<not> blank (tr_actor r) \<and> run_manifests a' = run_manifests a)
        \<or> (run_history a' = run_history a \<and> run_next_sequence a' = run_next_sequence a
            \<and> run_state a' = run_state a \<and> run_state a \<in> set manifest_append_states
            \<and> (\<exists>m. run_manifests a' = run_manifests a @ [m] \<and> dm_run_id m = governance_id (run_identity a))))"
  using assms by (rule run_step_cases) (auto simp: run_moved_def edge_of_def)

theorem run_steps_are_audited_witness:
  "\<exists>a'. run_step first_run a' \<and> run_version a' = AggregateVersion 1"
  using first_run_step run_steps_are_audited
  by (fastforce simp: first_run_def version_next_def)

text \<open>
  A Run can always go on until it is in a terminal state, and never after: some operation
  accepts it exactly when its state is not terminal.
\<close>

theorem run_stuck_iff_terminal:
  "(\<exists>a'. run_step a a') \<longleftrightarrow> run_state_value (run_state a) \<notin> set run_terminal_states"
proof
  assume "\<exists>a'. run_step a a'"
  then show "run_state_value (run_state a) \<notin> set run_terminal_states"
    by (auto elim!: run_step_cases simp: run_terminal_states_def manifest_append_states_def)
next
  assume live: "run_state_value (run_state a) \<notin> set run_terminal_states"
  then consider "run_state a = R_CREATED" | "run_state a = R_AUTHORIZED"
    | "run_state a \<in> {R_ACQUIRING, R_NORMALIZING, R_VALIDATING}"
    by (cases "run_state a") (auto simp: run_terminal_states_def)
  then show "\<exists>a'. run_step a a'"
  proof cases
    case 1
    then have "run_authorize ''ops'' (Aware 0) None None a = Inr (run_moved R_AUTHORIZED ''ops'' (Aware 0) None None a)"
      by (simp add: lifecycle_defs run_transition_Inr blank_iff_spaces is_py_space_def)
    then show ?thesis by (blast intro: run_step.intros)
  next
    case 2
    then have "run_cancel ''stop'' ''ops'' (Aware 0) None a = Inr (run_moved R_CANCELLED ''ops'' (Aware 0) None (Some ''stop'') a)"
      by (simp add: lifecycle_defs run_transition_Inr result_eqs blank_iff_spaces is_py_space_def)
    then show ?thesis by (blast intro: run_step.intros)
  next
    case 3
    then have "run_fail ''stop'' ''ops'' (Aware 0) None a = Inr (run_moved R_FAILED ''ops'' (Aware 0) None (Some ''stop'') a)"
      by (auto simp add: lifecycle_defs run_transition_Inr result_eqs blank_iff_spaces is_py_space_def)
    then show ?thesis by (blast intro: run_step.intros)
  qed
qed

text \<open>
  C27. Reconstruction of a Run accepts exactly the stored states that the rules of the lifecycle
  allow, and restores them unchanged: the history is a valid walk to the stored state, the version
  is at least what history and contents require, and the contents fit the state.
\<close>

theorem run_reconstruction_exact:
  "reconstruct_run st = Inr r \<longleftrightarrow>
     history_valid (rrs_identity st) (run_state_value (rrs_state st)) ''CREATED''
       run_allowed_edges run_terminal_states (rrs_next_sequence st) [''CREATED''] (rrs_history st)
     \<and> (\<forall>m \<in> set (rrs_manifests st). dm_run_id m = governance_id (rrs_identity st))
     \<and> distinct (manifest_ids (rrs_manifests st))
     \<and> highest_of version_initial (rrs_history st) \<le> rrs_version st
     \<and> int (length (rrs_manifests st)) \<le> version_value (rrs_version st)
     \<and> (rrs_state st \<in> {R_FAILED, R_CANCELLED}
          \<longrightarrow> rrs_history st \<noteq> [] \<and> tr_reason (last (rrs_history st)) \<noteq> None)
     \<and> r = \<lparr>run_identity = rrs_identity st, run_campaign_id = rrs_campaign_id st,
            run_state = rrs_state st, run_version = rrs_version st,
            run_next_sequence = rrs_next_sequence st, run_history = rrs_history st,
            run_manifests = rrs_manifests st\<rparr>"
  by (rule reconstruct_run_Inr)

theorem run_reconstruction_exact_witness:
  "reconstruct_run (run_reconstruction_of first_run) = Inr first_run"
  unfolding run_reconstruction_exact
  by (simp add: run_reconstruction_of_def first_run_def history_valid_def sequence_initial_def
      version_initial_def version_order)

end
