(* ===== verification/Evidence.thy ===== *)
theory Evidence
  imports Run
begin

text \<open>
  The Evidence Package aggregate: \<^verbatim>\<open>evidence/lifecycle.py\<close>, \<^verbatim>\<open>evidence/results.py\<close>,
  \<^verbatim>\<open>evidence/package.py\<close>, \<^verbatim>\<open>evidence/_reconstruction.py\<close> and \<^verbatim>\<open>evidence/mapper.py\<close>. Same
  organisation as \<^verbatim>\<open>Campaign\<close>: operations, reconstruction, mapper, characteristic equations,
  invariant, steps, and the survival of live packages under the mapper and reconstruction.
\<close>

section \<open>Lifecycle states\<close>

datatype evidence_state = E_INITIALIZED | E_COLLECTING | E_SEALED | E_INVALIDATED

fun evidence_state_value :: "evidence_state \<Rightarrow> string" where
  "evidence_state_value E_INITIALIZED = ''INITIALIZED''"
| "evidence_state_value E_COLLECTING = ''COLLECTING''"
| "evidence_state_value E_SEALED = ''SEALED''"
| "evidence_state_value E_INVALIDATED = ''INVALIDATED''"

definition evidence_states :: "evidence_state list" where
  "evidence_states = [E_INITIALIZED, E_COLLECTING, E_SEALED, E_INVALIDATED]"

definition evidence_state_of :: "string \<Rightarrow> evidence_state option" where
  "evidence_state_of v = find (\<lambda>s. evidence_state_value s = v) evidence_states"

lemma evidence_state_of_value [simp]: "evidence_state_of (evidence_state_value s) = Some s"
  by (cases s) (simp_all add: evidence_state_of_def evidence_states_def)

lemma evidence_state_value_inject [simp]: "evidence_state_value s = evidence_state_value t \<longleftrightarrow> s = t"
  by (metis evidence_state_of_value option.inject)

section \<open>Contents of a package\<close>

record criterion_result =
  cr_package_id :: governance_identifier
  cr_criterion_id :: string
  cr_recorded_at :: datetime
  cr_result_label :: string
  cr_summary :: "string option"
  cr_references :: "string list"

definition make_criterion_result :: "criterion_result \<Rightarrow> exn + criterion_result" where
  "make_criterion_result c =
     rbind (ensure (identifier_class (cr_package_id c) = EvidencePackageId)
              (TypeError ''evidence_package_id must be an EvidencePackageId''))
     (\<lambda>_. rbind (require_non_empty (cr_criterion_id c) ''criterion_id'')
     (\<lambda>_. rbind (require_non_empty (cr_result_label c) ''result_label'')
     (\<lambda>_. rbind (require_optional_non_empty (cr_summary c) ''summary'')
     (\<lambda>_. rbind (rcheck (\<lambda>ref. require_non_empty ref ''evidence_references'') (cr_references c))
     (\<lambda>_. Inr c)))))"

definition criterion_ok :: "criterion_result \<Rightarrow> bool" where
  "criterion_ok c \<longleftrightarrow>
     identifier_class (cr_package_id c) = EvidencePackageId \<and> \<not> blank (cr_criterion_id c)
     \<and> \<not> blank (cr_result_label c) \<and> opt_all (\<lambda>s. \<not> blank s) (cr_summary c)
     \<and> (\<forall>s \<in> set (cr_references c). \<not> blank s)"

lemma make_criterion_result_Inr [result_eqs]:
  "make_criterion_result c = Inr c' \<longleftrightarrow> c' = c \<and> criterion_ok c"
  by (auto simp: make_criterion_result_def criterion_ok_def result_eqs)

datatype artifact_reference = ArtifactReference (reference_value: string)

definition make_artifact_reference :: "string \<Rightarrow> exn + artifact_reference" where
  "make_artifact_reference v =
     rbind (ensure (\<not> blank v) (ValueError ''artifact reference value must be non-empty''))
     (\<lambda>_. Inr (ArtifactReference v))"

fun reference_ok :: "artifact_reference \<Rightarrow> bool" where
  "reference_ok (ArtifactReference v) = (\<not> blank v)"

lemma make_artifact_reference_Inr [result_eqs]:
  "make_artifact_reference v = Inr a \<longleftrightarrow> a = ArtifactReference v \<and> reference_ok a"
  by (auto simp: make_artifact_reference_def result_eqs)

section \<open>The aggregate\<close>

record evidence_package =
  ev_identity :: domain_identity
  ev_run_id :: governance_identifier
  ev_state :: evidence_state
  ev_version :: aggregate_version
  ev_next_sequence :: transition_sequence
  ev_history :: "transition list"
  ev_results :: "criterion_result list"
  ev_references :: "artifact_reference list"

definition evidence_new :: "domain_identity \<Rightarrow> governance_identifier \<Rightarrow> exn + evidence_package" where
  "evidence_new ident run_id =
     rbind (ensure (identifier_class (governance_id ident) = EvidencePackageId)
              (TypeError ''identity governance_id must be an EvidencePackageId''))
     (\<lambda>_. rbind (ensure (identifier_class run_id = RunId) (TypeError ''run_id must be a RunId''))
     (\<lambda>_. Inr \<lparr>ev_identity = ident, ev_run_id = run_id, ev_state = E_INITIALIZED,
               ev_version = version_initial, ev_next_sequence = sequence_initial,
               ev_history = [], ev_results = [], ev_references = []\<rparr>))"

definition evidence_transition ::
    "evidence_state \<Rightarrow> evidence_state \<Rightarrow> string \<Rightarrow> datetime \<Rightarrow> string option \<Rightarrow> string option
     \<Rightarrow> evidence_package \<Rightarrow> exn + evidence_package" where
  "evidence_transition expected next_state actor occurred_at correlation_id reason p =
     rbind (ensure (ev_state p = expected)
       (ValueError (''cannot transition from '' @ evidence_state_value (ev_state p) @ '' to ''
          @ evidence_state_value next_state)))
     (\<lambda>_. rbind (make_transition
              \<lparr>tr_from = Some (evidence_state_value (ev_state p)),
               tr_to = evidence_state_value next_state,
               tr_version = version_next (ev_version p),
               tr_sequence = ev_next_sequence p, tr_actor = actor, tr_occurred_at = occurred_at,
               tr_identity = Some (ev_identity p), tr_correlation = correlation_id,
               tr_reason = reason\<rparr>)
     (\<lambda>record. Inr (p\<lparr>ev_state := next_state,
                     ev_version := version_next (ev_version p),
                     ev_next_sequence := sequence_next (ev_next_sequence p),
                     ev_history := ev_history p @ [record]\<rparr>)))"

definition evidence_start_collection ::
    "string \<Rightarrow> datetime \<Rightarrow> string option \<Rightarrow> string option \<Rightarrow> evidence_package
     \<Rightarrow> exn + evidence_package" where
  "evidence_start_collection actor occurred_at correlation_id reason p =
     evidence_transition E_INITIALIZED E_COLLECTING actor occurred_at correlation_id reason p"

definition evidence_add_criterion_result ::
    "criterion_result \<Rightarrow> evidence_package \<Rightarrow> exn + evidence_package" where
  "evidence_add_criterion_result result p =
     rbind (ensure (ev_state p = E_COLLECTING)
       (ValueError ''Criterion Results may be added only while COLLECTING''))
     (\<lambda>_. rbind (ensure (cr_package_id result = governance_id (ev_identity p))
       (ValueError ''Criterion Result evidence_package_id must match Evidence Package identity''))
     (\<lambda>_. rbind (ensure (\<not> (\<exists>existing \<in> set (ev_results p).
                             cr_criterion_id existing = cr_criterion_id result))
       (ValueError ''Criterion Result criterion_id already exists in Evidence Package''))
     (\<lambda>_. Inr (p\<lparr>ev_version := version_next (ev_version p),
                ev_results := ev_results p @ [result]\<rparr>))))"

definition evidence_add_artifact_reference ::
    "artifact_reference \<Rightarrow> evidence_package \<Rightarrow> exn + evidence_package" where
  "evidence_add_artifact_reference reference p =
     rbind (ensure (ev_state p = E_COLLECTING)
       (ValueError ''artifact references may be added only while COLLECTING''))
     (\<lambda>_. rbind (ensure (\<not> (\<exists>existing \<in> set (ev_references p).
                             reference_value existing = reference_value reference))
       (ValueError ''artifact reference already exists in Evidence Package''))
     (\<lambda>_. Inr (p\<lparr>ev_version := version_next (ev_version p),
                ev_references := ev_references p @ [reference]\<rparr>)))"

definition evidence_seal ::
    "string \<Rightarrow> datetime \<Rightarrow> string option \<Rightarrow> string option \<Rightarrow> evidence_package
     \<Rightarrow> exn + evidence_package" where
  "evidence_seal actor occurred_at correlation_id reason p =
     rbind (ensure (ev_results p \<noteq> [])
       (ValueError ''Evidence Package requires at least one Criterion Result before seal''))
     (\<lambda>_. rbind (ensure (ev_references p \<noteq> [])
       (ValueError ''Evidence Package requires at least one artifact reference before seal''))
     (\<lambda>_. evidence_transition E_COLLECTING E_SEALED actor occurred_at correlation_id reason p))"

definition evidence_invalidate ::
    "string \<Rightarrow> string \<Rightarrow> datetime \<Rightarrow> string option \<Rightarrow> evidence_package
     \<Rightarrow> exn + evidence_package" where
  "evidence_invalidate reason actor occurred_at correlation_id p =
     rbind (require_non_empty reason ''reason'')
     (\<lambda>_. evidence_transition E_SEALED E_INVALIDATED actor occurred_at correlation_id (Some reason) p)"

lemmas evidence_operations [lifecycle_defs] =
  evidence_start_collection_def evidence_seal_def evidence_invalidate_def

section \<open>Reconstruction\<close>

record evidence_reconstruction_state =
  ers_identity :: domain_identity
  ers_run_id :: governance_identifier
  ers_state :: evidence_state
  ers_results :: "criterion_result list"
  ers_references :: "artifact_reference list"
  ers_version :: aggregate_version
  ers_next_sequence :: transition_sequence
  ers_history :: "transition list"

definition make_evidence_reconstruction_state ::
    "evidence_reconstruction_state \<Rightarrow> exn + evidence_reconstruction_state" where
  "make_evidence_reconstruction_state st =
     rbind (ensure (identifier_class (governance_id (ers_identity st)) = EvidencePackageId)
              (ReconstructionError INVALID_AGGREGATE_IDENTITY
                 ''identity governance_id must be an EvidencePackageId'' ''identity''))
     (\<lambda>_. rbind (ensure (identifier_class (ers_run_id st) = RunId)
              (ReconstructionError INVALID_AGGREGATE_IDENTITY ''run_id must be RunId'' ''run_id''))
     (\<lambda>_. Inr st))"

definition evidence_allowed_edges :: "(string \<times> string) list" where
  "evidence_allowed_edges =
     [(''INITIALIZED'', ''COLLECTING''), (''COLLECTING'', ''SEALED''), (''SEALED'', ''INVALIDATED'')]"

definition evidence_terminal_states :: "string list" where
  "evidence_terminal_states = [''INVALIDATED'']"

text \<open>The two loops of \<^verbatim>\<open>_validate_contents\<close>, each with the set of values already seen.\<close>

fun validate_results ::
    "governance_identifier \<Rightarrow> string set \<Rightarrow> criterion_result list \<Rightarrow> exn + unit" where
  "validate_results package_id seen [] = Inr ()"
| "validate_results package_id seen (c # cs) =
     rbind (ensure (cr_package_id c = package_id)
       (ReconstructionError INVALID_COLLECTION_ELEMENT
          ''Criterion Result evidence_package_id must match Evidence Package identity''
          ''criterion_results''))
     (\<lambda>_. rbind (ensure (cr_criterion_id c \<notin> seen)
       (ReconstructionError DUPLICATE_OWNED_VALUE
          ''Criterion Result criterion_id already exists in Evidence Package'' ''criterion_results''))
     (\<lambda>_. validate_results package_id (insert (cr_criterion_id c) seen) cs))"

fun validate_references :: "string set \<Rightarrow> artifact_reference list \<Rightarrow> exn + unit" where
  "validate_references seen [] = Inr ()"
| "validate_references seen (a # as) =
     rbind (ensure (reference_value a \<notin> seen)
       (ReconstructionError DUPLICATE_OWNED_VALUE
          ''artifact reference already exists in Evidence Package'' ''artifact_references''))
     (\<lambda>_. validate_references (insert (reference_value a) seen) as)"

definition validate_evidence_contents :: "evidence_reconstruction_state \<Rightarrow> exn + unit" where
  "validate_evidence_contents st =
     rbind (validate_results (governance_id (ers_identity st)) {} (ers_results st))
     (\<lambda>_. validate_references {} (ers_references st))"

definition validate_content_compatibility :: "evidence_reconstruction_state \<Rightarrow> exn + unit" where
  "validate_content_compatibility st =
     (let has_results = ers_results st \<noteq> []; has_references = ers_references st \<noteq> [] in
      rbind (ensure (\<not> (ers_state st = E_INITIALIZED \<and> (has_results \<or> has_references)))
        (ReconstructionError INCONSISTENT_CURRENT_STATE
           ''INITIALIZED Evidence Package cannot contain results or artifact references'' ''state''))
      (\<lambda>_. rbind (ensure (\<not> (ers_state st \<in> {E_SEALED, E_INVALIDATED}
                          \<and> \<not> (has_results \<and> has_references)))
        (ReconstructionError INCONSISTENT_CURRENT_STATE
           ''terminal Evidence Package state requires results and artifact references'' ''state''))
      (\<lambda>_. if ers_state st = E_INVALIDATED
           then ensure (\<not> (ers_history st = [] \<or> tr_reason (last (ers_history st)) = None))
             (ReconstructionError INCONSISTENT_TERMINAL_METADATA
                ''invalidated Evidence Package requires final transition reason'' ''transition_history'')
           else Inr ())))"

definition reconstruct_evidence :: "evidence_reconstruction_state \<Rightarrow> exn + evidence_package" where
  "reconstruct_evidence st =
     rbind (validate_transition_history (ers_history st) (ers_identity st)
              (evidence_state_value (ers_state st)) (evidence_state_value E_INITIALIZED)
              evidence_allowed_edges evidence_terminal_states (ers_next_sequence st) [''INITIALIZED''])
     (\<lambda>highest. rbind (validate_evidence_contents st)
     (\<lambda>_. let version_floor =
             max (version_value highest) (int (length (ers_results st) + length (ers_references st))) in
        rbind (ensure (\<not> version_value (ers_version st) < version_floor)
          (ReconstructionError INVALID_AGGREGATE_VERSION
             ''Evidence Package version is lower than restored state requires'' ''version''))
     (\<lambda>_. rbind (validate_content_compatibility st)
     (\<lambda>_. Inr \<lparr>ev_identity = ers_identity st, ev_run_id = ers_run_id st,
               ev_state = ers_state st, ev_version = ers_version st,
               ev_next_sequence = ers_next_sequence st, ev_history = ers_history st,
               ev_results = ers_results st, ev_references = ers_references st\<rparr>))))"

section \<open>Mapper\<close>

record criterion_result_durable =
  crd_package_id :: string
  crd_criterion_id :: string
  crd_recorded_at :: datetime
  crd_result_label :: string
  crd_summary :: "string option"
  crd_references :: "string list"

record evidence_durable =
  ed_identity :: identity_durable
  ed_run_id :: string
  ed_lifecycle_state :: string
  ed_results :: "criterion_result_durable list"
  ed_references :: "string list"
  ed_version :: int
  ed_next_sequence :: int
  ed_history :: "transition_durable list"

definition criterion_to_durable :: "criterion_result \<Rightarrow> criterion_result_durable" where
  "criterion_to_durable c =
     \<lparr>crd_package_id = identifier_str (cr_package_id c), crd_criterion_id = cr_criterion_id c,
      crd_recorded_at = cr_recorded_at c, crd_result_label = cr_result_label c,
      crd_summary = cr_summary c, crd_references = cr_references c\<rparr>"

definition criterion_from_durable :: "criterion_result_durable \<Rightarrow> exn + criterion_result" where
  "criterion_from_durable d =
     rbind (make_identifier EvidencePackageId (crd_package_id d))
     (\<lambda>package_id. make_criterion_result
        \<lparr>cr_package_id = package_id, cr_criterion_id = crd_criterion_id d,
         cr_recorded_at = crd_recorded_at d, cr_result_label = crd_result_label d,
         cr_summary = crd_summary d, cr_references = crd_references d\<rparr>)"

definition evidence_to_durable :: "evidence_package \<Rightarrow> evidence_durable" where
  "evidence_to_durable p =
     \<lparr>ed_identity = identity_to_durable (ev_identity p),
      ed_run_id = identifier_str (ev_run_id p),
      ed_lifecycle_state = evidence_state_value (ev_state p),
      ed_results = map criterion_to_durable (ev_results p),
      ed_references = map reference_value (ev_references p),
      ed_version = version_value (ev_version p),
      ed_next_sequence = sequence_value (ev_next_sequence p),
      ed_history = map transition_to_durable (ev_history p)\<rparr>"

definition evidence_from_durable :: "evidence_durable \<Rightarrow> exn + evidence_reconstruction_state" where
  "evidence_from_durable d =
     rbind (case evidence_state_of (ed_lifecycle_state d) of
              None \<Rightarrow> Inl (MapperError INVALID_DURABLE_RECORD ''unknown EvidencePackage lifecycle_state''
                            ''EvidencePackage'' (Some ''lifecycle_state''))
            | Some s \<Rightarrow> Inr s)
     (\<lambda>lifecycle_state. rbind
        (rcatch (malformed_as ''EvidencePackage'')
          (rbind (identity_from_durable EvidencePackageId (ed_identity d))
           (\<lambda>ident. rbind (make_identifier RunId (ed_run_id d))
           (\<lambda>run_id. rbind (rmap criterion_from_durable (ed_results d))
           (\<lambda>results. rbind (rmap make_artifact_reference (ed_references d))
           (\<lambda>references. rbind (rmap (transition_from_durable EvidencePackageId) (ed_history d))
           (\<lambda>history. Inr (ident, run_id, results, references, history))))))))
     (\<lambda>(ident, run_id, results, references, history). rbind (make_version (ed_version d))
     (\<lambda>version. rbind (make_sequence (ed_next_sequence d))
     (\<lambda>next_seq. make_evidence_reconstruction_state
        \<lparr>ers_identity = ident, ers_run_id = run_id, ers_state = lifecycle_state,
         ers_results = results, ers_references = references, ers_version = version,
         ers_next_sequence = next_seq, ers_history = history\<rparr>))))"

section \<open>Characteristic equations of the operations\<close>

lemma evidence_state_value_not_blank [simp]: "\<not> blank (evidence_state_value s)"
  by (cases s) (simp_all add: blank_iff_spaces is_py_space_def)

definition evidence_moved ::
    "evidence_state \<Rightarrow> string \<Rightarrow> datetime \<Rightarrow> string option \<Rightarrow> string option \<Rightarrow> evidence_package
     \<Rightarrow> evidence_package" where
  "evidence_moved next_state actor occurred_at correlation_id reason p =
     p\<lparr>ev_state := next_state,
       ev_version := version_next (ev_version p),
       ev_next_sequence := sequence_next (ev_next_sequence p),
       ev_history := ev_history p @
         [\<lparr>tr_from = Some (evidence_state_value (ev_state p)),
           tr_to = evidence_state_value next_state,
           tr_version = version_next (ev_version p), tr_sequence = ev_next_sequence p,
           tr_actor = actor, tr_occurred_at = occurred_at, tr_identity = Some (ev_identity p),
           tr_correlation = correlation_id, tr_reason = reason\<rparr>]\<rparr>"

lemma evidence_moved_simps [simp]:
  "ev_identity (evidence_moved t a o' k w p) = ev_identity p"
  "ev_run_id (evidence_moved t a o' k w p) = ev_run_id p"
  "ev_state (evidence_moved t a o' k w p) = t"
  "ev_version (evidence_moved t a o' k w p) = version_next (ev_version p)"
  "ev_next_sequence (evidence_moved t a o' k w p) = sequence_next (ev_next_sequence p)"
  "ev_results (evidence_moved t a o' k w p) = ev_results p"
  "ev_references (evidence_moved t a o' k w p) = ev_references p"
  by (simp_all add: evidence_moved_def)

lemma evidence_transition_Inr:
  "evidence_transition expected t actor at corr reason p = Inr p' \<longleftrightarrow>
     ev_state p = expected \<and> \<not> blank actor \<and> opt_all (\<lambda>s. \<not> blank s) corr
     \<and> opt_all (\<lambda>s. \<not> blank s) reason \<and> p' = evidence_moved t actor at corr reason p"
  by (auto simp: evidence_transition_def evidence_moved_def result_eqs transition_ok_def)

lemma validate_results_Inr:
  "validate_results pid seen cs = Inr u \<longleftrightarrow>
     (\<forall>c \<in> set cs. cr_package_id c = pid) \<and> distinct (map cr_criterion_id cs)
     \<and> cr_criterion_id ` set cs \<inter> seen = {}"
  by (induction cs arbitrary: seen) (auto simp: result_eqs)

lemma validate_references_Inr:
  "validate_references seen as = Inr u \<longleftrightarrow>
     distinct (map reference_value as) \<and> reference_value ` set as \<inter> seen = {}"
  by (induction as arbitrary: seen) (auto simp: result_eqs)

lemma validate_evidence_contents_Inr:
  "validate_evidence_contents st = Inr u \<longleftrightarrow>
     (\<forall>c \<in> set (ers_results st). cr_package_id c = governance_id (ers_identity st))
     \<and> distinct (map cr_criterion_id (ers_results st))
     \<and> distinct (map reference_value (ers_references st))"
  by (auto simp: validate_evidence_contents_def result_eqs validate_results_Inr validate_references_Inr)

section \<open>The invariant\<close>

definition evidence_ok :: "evidence_package \<Rightarrow> bool" where
  "evidence_ok p \<longleftrightarrow>
     identity_ok EvidencePackageId (ev_identity p)
     \<and> identifier_class (ev_run_id p) = RunId \<and> identifier_ok (ev_run_id p)
     \<and> history_inv (ev_identity p) (evidence_state_value E_INITIALIZED) evidence_allowed_edges
         evidence_terminal_states (evidence_state_value (ev_state p)) (ev_next_sequence p)
         (ev_version p) (ev_history p)
     \<and> (\<forall>c \<in> set (ev_results p). criterion_ok c \<and> cr_package_id c = governance_id (ev_identity p))
     \<and> (\<forall>a \<in> set (ev_references p). reference_ok a)
     \<and> distinct (map cr_criterion_id (ev_results p))
     \<and> distinct (map reference_value (ev_references p))
     \<and> version_value (ev_version p)
         = int (length (ev_history p) + length (ev_results p) + length (ev_references p))
     \<and> (ev_state p = E_INITIALIZED \<longrightarrow> ev_results p = [] \<and> ev_references p = [])
     \<and> (ev_state p \<in> {E_SEALED, E_INVALIDATED} \<longrightarrow> ev_results p \<noteq> [] \<and> ev_references p \<noteq> [])
     \<and> (ev_state p = E_INVALIDATED
          \<longrightarrow> ev_history p \<noteq> [] \<and> tr_reason (last (ev_history p)) \<noteq> None)"

lemma evidence_new_ok:
  assumes "identity_ok EvidencePackageId ident" "identifier_ok run_id" "evidence_new ident run_id = Inr p"
  shows "evidence_ok p"
  using assms history_inv_initial
  by (auto simp: evidence_new_def evidence_ok_def result_eqs)

lemma evidence_moved_ok:
  assumes ok: "evidence_ok p"
    and args: "\<not> blank actor" "opt_all (\<lambda>s. \<not> blank s) corr" "opt_all (\<lambda>s. \<not> blank s) reason"
    and edge: "(evidence_state_value (ev_state p), evidence_state_value t) \<in> set evidence_allowed_edges"
    and live: "evidence_state_value (ev_state p) \<notin> set evidence_terminal_states"
    and full: "t \<in> {E_SEALED, E_INVALIDATED} \<Longrightarrow> ev_results p \<noteq> [] \<and> ev_references p \<noteq> []"
    and reasoned: "t = E_INVALIDATED \<Longrightarrow> reason \<noteq> None"
  shows "evidence_ok (evidence_moved t actor at corr reason p)"
proof -
  let ?r = "\<lparr>tr_from = Some (evidence_state_value (ev_state p)),
           tr_to = evidence_state_value t,
           tr_version = version_next (ev_version p), tr_sequence = ev_next_sequence p,
           tr_actor = actor, tr_occurred_at = at, tr_identity = Some (ev_identity p),
           tr_correlation = corr, tr_reason = reason\<rparr>"
  have "history_inv (ev_identity p) (evidence_state_value E_INITIALIZED) evidence_allowed_edges
          evidence_terminal_states (evidence_state_value t) (sequence_next (ev_next_sequence p))
          (version_next (ev_version p)) (ev_history p @ [?r])"
  proof (rule history_inv_snoc)
    show "history_inv (ev_identity p) (evidence_state_value E_INITIALIZED) evidence_allowed_edges
          evidence_terminal_states (evidence_state_value (ev_state p)) (ev_next_sequence p)
          (ev_version p) (ev_history p)"
      using ok by (simp add: evidence_ok_def)
  qed (use args live edge in \<open>simp_all add: transition_ok_def\<close>)
  moreover have "t \<noteq> E_INITIALIZED"
    using edge by (cases t; cases "ev_state p") (simp_all add: evidence_allowed_edges_def)
  ultimately show ?thesis
    using ok reasoned full by (auto simp: evidence_ok_def evidence_moved_def)
qed

lemma evidence_add_result_ok:
  "evidence_ok p \<Longrightarrow> criterion_ok c \<Longrightarrow> evidence_add_criterion_result c p = Inr p' \<Longrightarrow> evidence_ok p'"
  using history_inv_bump[OF _ version_le_next]
  by (auto simp: evidence_ok_def evidence_add_criterion_result_def result_eqs not_in_image)

lemma evidence_add_reference_ok:
  "evidence_ok p \<Longrightarrow> reference_ok a \<Longrightarrow> evidence_add_artifact_reference a p = Inr p' \<Longrightarrow> evidence_ok p'"
  using history_inv_bump[OF _ version_le_next]
  by (auto simp: evidence_ok_def evidence_add_artifact_reference_def result_eqs not_in_image)

section \<open>Steps and live Evidence Packages\<close>

inductive evidence_step :: "evidence_package \<Rightarrow> evidence_package \<Rightarrow> bool" where
  collect: "evidence_start_collection actor at corr reason p = Inr p' \<Longrightarrow> evidence_step p p'"
| result: "make_criterion_result c = Inr c' \<Longrightarrow> evidence_add_criterion_result c' p = Inr p'
     \<Longrightarrow> evidence_step p p'"
| reference: "make_artifact_reference v = Inr a \<Longrightarrow> evidence_add_artifact_reference a p = Inr p'
     \<Longrightarrow> evidence_step p p'"
| seal: "evidence_seal actor at corr reason p = Inr p' \<Longrightarrow> evidence_step p p'"
| invalidate: "evidence_invalidate reason' actor at corr p = Inr p' \<Longrightarrow> evidence_step p p'"

inductive evidence_live :: "evidence_package \<Rightarrow> bool" where
  new: "identity_ok EvidencePackageId ident \<Longrightarrow> identifier_ok run_id
     \<Longrightarrow> evidence_new ident run_id = Inr p \<Longrightarrow> evidence_live p"
| step: "evidence_live p \<Longrightarrow> evidence_step p p' \<Longrightarrow> evidence_live p'"

lemmas evidence_edge_defs = evidence_allowed_edges_def evidence_terminal_states_def

lemma evidence_step_ok:
  assumes "evidence_step p p'" "evidence_ok p"
  shows "evidence_ok p'"
  using assms(1)
proof cases
  case (collect actor at corr reason)
  with assms(2) show ?thesis
    by (auto simp: lifecycle_defs evidence_transition_Inr evidence_edge_defs intro!: evidence_moved_ok)
next
  case (result c c')
  with assms(2) show ?thesis
    by (auto simp: make_criterion_result_Inr intro: evidence_add_result_ok)
next
  case (reference v a)
  with assms(2) show ?thesis
    by (auto simp: make_artifact_reference_Inr intro: evidence_add_reference_ok)
next
  case (seal actor at corr reason)
  with assms(2) show ?thesis
    by (auto simp: lifecycle_defs evidence_transition_Inr evidence_edge_defs result_eqs
        intro!: evidence_moved_ok)
next
  case (invalidate reason actor at corr)
  moreover from assms(2) have "ev_state p = E_SEALED \<Longrightarrow> ev_results p \<noteq> [] \<and> ev_references p \<noteq> []"
    by (simp add: evidence_ok_def)
  ultimately show ?thesis
    using assms(2)
    by (auto simp: lifecycle_defs evidence_transition_Inr evidence_edge_defs result_eqs
        intro!: evidence_moved_ok)
qed

lemma evidence_live_ok: "evidence_live p \<Longrightarrow> evidence_ok p"
proof (induction rule: evidence_live.induct)
  case (new ident run_id p)
  then show ?case by (rule evidence_new_ok)
next
  case (step p p')
  then show ?case by (blast intro: evidence_step_ok)
qed

section \<open>Reconstruction accepts every live Evidence Package\<close>

lemma reconstruct_evidence_Inr:
  "reconstruct_evidence st = Inr p \<longleftrightarrow>
     history_valid (ers_identity st) (evidence_state_value (ers_state st)) ''INITIALIZED''
       evidence_allowed_edges evidence_terminal_states (ers_next_sequence st) [''INITIALIZED'']
       (ers_history st)
     \<and> (\<forall>c \<in> set (ers_results st). cr_package_id c = governance_id (ers_identity st))
     \<and> distinct (map cr_criterion_id (ers_results st))
     \<and> distinct (map reference_value (ers_references st))
     \<and> highest_of version_initial (ers_history st) \<le> ers_version st
     \<and> int (length (ers_results st) + length (ers_references st)) \<le> version_value (ers_version st)
     \<and> (ers_state st = E_INITIALIZED \<longrightarrow> ers_results st = [] \<and> ers_references st = [])
     \<and> (ers_state st \<in> {E_SEALED, E_INVALIDATED} \<longrightarrow> ers_results st \<noteq> [] \<and> ers_references st \<noteq> [])
     \<and> (ers_state st = E_INVALIDATED
          \<longrightarrow> ers_history st \<noteq> [] \<and> tr_reason (last (ers_history st)) \<noteq> None)
     \<and> p = \<lparr>ev_identity = ers_identity st, ev_run_id = ers_run_id st,
            ev_state = ers_state st, ev_version = ers_version st,
            ev_next_sequence = ers_next_sequence st, ev_history = ers_history st,
            ev_results = ers_results st, ev_references = ers_references st\<rparr>"
  by (auto simp: reconstruct_evidence_def validate_content_compatibility_def result_eqs
      validate_transition_history_iff validate_evidence_contents_Inr Let_def not_less version_order
      split: if_splits)

definition evidence_reconstruction_of :: "evidence_package \<Rightarrow> evidence_reconstruction_state" where
  "evidence_reconstruction_of p =
     \<lparr>ers_identity = ev_identity p, ers_run_id = ev_run_id p, ers_state = ev_state p,
      ers_results = ev_results p, ers_references = ev_references p, ers_version = ev_version p,
      ers_next_sequence = ev_next_sequence p, ers_history = ev_history p\<rparr>"

lemma evidence_ok_history_valid:
  assumes "evidence_ok p"
  shows "history_valid (ev_identity p) (evidence_state_value (ev_state p)) ''INITIALIZED''
       evidence_allowed_edges evidence_terminal_states (ev_next_sequence p) [''INITIALIZED''] (ev_history p)
     \<and> highest_of version_initial (ev_history p) \<le> ev_version p"
proof -
  have inv: "history_inv (ev_identity p) ''INITIALIZED'' evidence_allowed_edges
         evidence_terminal_states (evidence_state_value (ev_state p)) (ev_next_sequence p)
         (ev_version p) (ev_history p)"
    using assms by (simp add: evidence_ok_def)
  from history_inv_validates[OF inv, of "[''INITIALIZED'']"] show ?thesis
    by (auto simp: validate_transition_history_iff)
qed

lemma reconstruct_evidence_ok:
  "evidence_ok p \<Longrightarrow> reconstruct_evidence (evidence_reconstruction_of p) = Inr p"
  using evidence_ok_history_valid[of p]
  by (auto simp: reconstruct_evidence_Inr evidence_reconstruction_of_def evidence_ok_def)

lemma criterion_durable_roundtrip:
  "criterion_ok c \<Longrightarrow> identifier_ok (cr_package_id c)
   \<Longrightarrow> criterion_from_durable (criterion_to_durable c) = Inr c"
  by (cases c)
    (simp add: criterion_from_durable_def criterion_to_durable_def make_criterion_result_Inr
      criterion_ok_def make_identifier_str)

lemma reference_durable_roundtrip:
  "reference_ok a \<Longrightarrow> make_artifact_reference (reference_value a) = Inr a"
  by (cases a) (simp add: make_artifact_reference_Inr)

lemma evidence_from_to_durable:
  assumes "evidence_ok p"
  shows "evidence_from_durable (evidence_to_durable p) = Inr (evidence_reconstruction_of p)"
proof -
  have id: "identity_ok EvidencePackageId (ev_identity p)"
    and run: "make_identifier RunId (identifier_str (ev_run_id p)) = Inr (ev_run_id p)"
    and cls: "identifier_class (ev_run_id p) = RunId"
    and inv: "history_inv (ev_identity p) (evidence_state_value E_INITIALIZED) evidence_allowed_edges
         evidence_terminal_states (evidence_state_value (ev_state p)) (ev_next_sequence p)
         (ev_version p) (ev_history p)"
    and cs: "\<forall>c \<in> set (ev_results p). criterion_ok c \<and> cr_package_id c = governance_id (ev_identity p)"
    and as: "\<forall>a \<in> set (ev_references p). reference_ok a"
    using assms by (auto simp: evidence_ok_def make_identifier_str)
  have "rmap criterion_from_durable (map criterion_to_durable (ev_results p)) = Inr (ev_results p)"
    using cs id by (intro rmap_map_inverse) (simp add: criterion_durable_roundtrip identity_ok_def)
  moreover have "rmap make_artifact_reference (map reference_value (ev_references p))
      = Inr (ev_references p)"
    using as by (intro rmap_map_inverse) (simp add: reference_durable_roundtrip)
  moreover have "0 \<le> version_value (ev_version p)"
    using history_inv_version[OF inv] by (simp add: version_order)
  moreover have "1 \<le> sequence_value (ev_next_sequence p)"
    by (rule history_inv_sequence_pos[OF inv])
  ultimately show ?thesis
    using id run cls history_durable_roundtrip[OF inv id]
    by (simp add: evidence_from_durable_def evidence_to_durable_def evidence_reconstruction_of_def
        identity_durable_roundtrip make_version_value make_sequence_value
        make_evidence_reconstruction_state_def identity_ok_def)
qed

section \<open>Examples\<close>

lemmas evidence_walk =
  evidence_live.step[rotated, OF evidence_step.collect]
  evidence_live.step[rotated, OF evidence_step.result]
  evidence_live.step[rotated, OF evidence_step.reference]
  evidence_live.step[rotated, OF evidence_step.seal]
  evidence_live.step[rotated, OF evidence_step.invalidate]

definition walked_evidence :: "exn + evidence_package" where
  "walked_evidence =
     rbind (evidence_new (walk_identity EvidencePackageId) (Identifier RunId ''RUN-0001''))
     (\<lambda>p. rbind (evidence_start_collection ''ops'' (Aware 1) None None p)
     (\<lambda>p. rbind (make_criterion_result
        \<lparr>cr_package_id = Identifier EvidencePackageId ''EVID-0001'', cr_criterion_id = ''c'',
         cr_recorded_at = Aware 2, cr_result_label = ''pass'', cr_summary = None, cr_references = [''r'']\<rparr>)
     (\<lambda>c. rbind (evidence_add_criterion_result c p)
     (\<lambda>p. rbind (make_artifact_reference ''a'')
     (\<lambda>a. rbind (evidence_add_artifact_reference a p)
     (\<lambda>p. evidence_seal ''ops'' (Aware 3) None None p))))))"

lemma walked_evidence_live:
  "\<exists>p. walked_evidence = Inr p \<and> evidence_live p \<and> ev_state p = E_SEALED \<and> length (ev_results p) = 1"
proof -
  let ?c = "\<lparr>cr_package_id = Identifier EvidencePackageId ''EVID-0001'', cr_criterion_id = ''c'',
         cr_recorded_at = Aware 2, cr_result_label = ''pass'', cr_summary = None, cr_references = [''r'']\<rparr>"
  have run: "case walked_evidence of Inl _ \<Rightarrow> False | Inr p \<Rightarrow> ev_state p = E_SEALED \<and> length (ev_results p) = 1"
    by code_simp
  have id: "identity_ok EvidencePackageId (walk_identity EvidencePackageId)" "identifier_ok (Identifier RunId ''RUN-0001'')"
    by code_simp+
  show ?thesis
  proof (cases walked_evidence)
    case (Inr p)
    then obtain p0 p1 c p2 a p3 where s: "evidence_new (walk_identity EvidencePackageId) (Identifier RunId ''RUN-0001'') = Inr p0"
      "evidence_start_collection ''ops'' (Aware 1) None None p0 = Inr p1"
      "make_criterion_result ?c = Inr c" "evidence_add_criterion_result c p1 = Inr p2"
      "make_artifact_reference ''a'' = Inr a" "evidence_add_artifact_reference a p2 = Inr p3"
      "evidence_seal ''ops'' (Aware 3) None None p3 = Inr p"
      unfolding walked_evidence_def rbind_eq_Inr by blast
    have "evidence_live p"
      by (rule evidence_walk(4)[OF s(7) evidence_walk(3)[OF s(5,6) evidence_walk(2)[OF s(3,4) evidence_walk(1)[OF s(2) evidence_live.new[OF id s(1)]]]]])
    then show ?thesis using run unfolding Inr sum.case by blast
  next
    case (Inl e)
    show ?thesis using run unfolding Inl sum.case by blast
  qed
qed

definition first_evidence :: evidence_package where
  "first_evidence =
     \<lparr>ev_identity = walk_identity EvidencePackageId, ev_run_id = Identifier RunId ''RUN-0001'',
      ev_state = E_INITIALIZED, ev_version = version_initial, ev_next_sequence = sequence_initial,
      ev_history = [], ev_results = [], ev_references = []\<rparr>"

lemma first_evidence_step: "\<exists>a'. evidence_step first_evidence a'"
proof -
  have "\<exists>a'. evidence_start_collection ''ops'' (Aware 1) None None first_evidence = Inr a'"
    by (simp add: lifecycle_defs evidence_transition_Inr first_evidence_def blank_iff_spaces is_py_space_def)
  then show ?thesis by (blast intro: evidence_step.collect)
qed

section \<open>What the Evidence Package guarantees\<close>

text \<open>
  C24. A Evidence Package that the constructor and the operations produced survives its stored form
  unchanged: mapping it to its durable record, mapping the record back and reconstructing gives
  the same aggregate, whatever operations it went through.
\<close>

theorem evidence_survives_persistence:
  assumes "evidence_live a"
  shows "rbind (evidence_from_durable (evidence_to_durable a)) reconstruct_evidence = Inr a"
  using evidence_live_ok[OF assms] by (simp add: evidence_from_to_durable reconstruct_evidence_ok)

theorem evidence_survives_persistence_witness:
  "\<exists>a. walked_evidence = Inr a \<and> rbind (evidence_from_durable (evidence_to_durable a)) reconstruct_evidence = Inr a"
  using walked_evidence_live evidence_survives_persistence by blast

text \<open>
  Every operation of a Evidence Package is audited: it keeps the identity, advances the version by one,
  and either appends exactly one record, which names the aggregate, its actor, the new version, the
  next sequence number and the lifecycle edge that was taken, an allowed one that does not leave a
  terminal state; or it leaves state and history alone, which only adding one result or one artifact reference while COLLECTING does.
\<close>

theorem evidence_steps_are_audited:
  assumes "evidence_step a a'"
  shows "ev_identity a' = ev_identity a \<and> ev_version a' = version_next (ev_version a)
     \<and> ((\<exists>r. ev_history a' = ev_history a @ [r]
            \<and> edge_of r = (evidence_state_value (ev_state a), evidence_state_value (ev_state a'))
            \<and> edge_of r \<in> set evidence_allowed_edges \<and> fst (edge_of r) \<notin> set evidence_terminal_states
            \<and> tr_version r = ev_version a' \<and> tr_sequence r = ev_next_sequence a
            \<and> ev_next_sequence a' = sequence_next (ev_next_sequence a)
            \<and> tr_identity r = Some (ev_identity a) \<and> \<not> blank (tr_actor r)
            \<and> ev_results a' = ev_results a \<and> ev_references a' = ev_references a)
        \<or> (ev_history a' = ev_history a \<and> ev_next_sequence a' = ev_next_sequence a
            \<and> ev_state a' = ev_state a \<and> ev_state a = E_COLLECTING
            \<and> ((\<exists>c. ev_results a' = ev_results a @ [c] \<and> ev_references a' = ev_references a)
               \<or> (\<exists>f. ev_references a' = ev_references a @ [f] \<and> ev_results a' = ev_results a))))"
  using assms
  by cases (auto simp: lifecycle_defs evidence_transition_Inr evidence_moved_def edge_of_def evidence_edge_defs
      evidence_add_criterion_result_def evidence_add_artifact_reference_def result_eqs)

theorem evidence_steps_are_audited_witness:
  "\<exists>a'. evidence_step first_evidence a' \<and> ev_version a' = AggregateVersion 1"
  using first_evidence_step evidence_steps_are_audited
  by (fastforce simp: first_evidence_def version_next_def)

lemma fresh_reference: "\<exists>v. \<not> blank v \<and> v \<notin> set vs"
proof -
  let ?v = "replicate (Suc (Max (insert 0 (length ` set vs)))) CHR ''a''"
  have "length x \<le> Max (insert 0 (length ` set vs))" if "x \<in> set vs" for x
    using that by (intro Max_ge) auto
  then have "?v \<notin> set vs" by fastforce
  moreover have "\<not> blank ?v" by (simp add: blank_iff_spaces is_py_space_def)
  ultimately show ?thesis by blast
qed

text \<open>
  A Evidence Package can always go on until it is in a terminal state, and never after: some operation
  accepts it exactly when its state is not terminal.
\<close>

theorem evidence_stuck_iff_terminal:
  "(\<exists>a'. evidence_step a a') \<longleftrightarrow> evidence_state_value (ev_state a) \<notin> set evidence_terminal_states"
proof
  assume "\<exists>a'. evidence_step a a'"
  then show "evidence_state_value (ev_state a) \<notin> set evidence_terminal_states"
    by (auto elim!: evidence_step.cases simp: lifecycle_defs evidence_transition_Inr evidence_edge_defs
      evidence_add_criterion_result_def evidence_add_artifact_reference_def result_eqs)
next
  assume live: "evidence_state_value (ev_state a) \<notin> set evidence_terminal_states"
  obtain v where v: "\<not> blank v" "v \<notin> set (map reference_value (ev_references a))"
    using fresh_reference by blast
  have words: "\<not> blank ''ops''" "\<not> blank ''stop''" by (simp_all add: blank_iff_spaces is_py_space_def)
  show "\<exists>a'. evidence_step a a'"
  proof (cases "ev_state a")
    case E_INITIALIZED
    then have "\<exists>a'. evidence_start_collection ''ops'' (Aware 0) None None a = Inr a'"
      by (simp add: lifecycle_defs evidence_transition_Inr words)
    then show ?thesis by (blast intro: evidence_step.intros)
  next
    case E_COLLECTING
    have "make_artifact_reference v = Inr (ArtifactReference v)" using v by (simp add: make_artifact_reference_Inr)
    moreover have "\<exists>a'. evidence_add_artifact_reference (ArtifactReference v) a = Inr a'"
      using E_COLLECTING v(2) by (auto simp: evidence_add_artifact_reference_def result_eqs)
    ultimately show ?thesis by (blast intro: evidence_step.intros)
  next
    case E_SEALED
    then have "\<exists>a'. evidence_invalidate ''stop'' ''ops'' (Aware 0) None a = Inr a'"
      by (simp add: lifecycle_defs evidence_transition_Inr words result_eqs)
    then show ?thesis by (blast intro: evidence_step.intros)
  qed (use live in \<open>simp add: evidence_terminal_states_def\<close>)
qed

text \<open>
  C28. Reconstruction of a Evidence Package accepts exactly the stored states that the rules of the lifecycle
  allow, and restores them unchanged: the history is a valid walk to the stored state, the version
  is at least what history and contents require, and the contents fit the state.
\<close>

theorem evidence_reconstruction_exact:
  "reconstruct_evidence st = Inr p \<longleftrightarrow>
     history_valid (ers_identity st) (evidence_state_value (ers_state st)) ''INITIALIZED''
       evidence_allowed_edges evidence_terminal_states (ers_next_sequence st) [''INITIALIZED'']
       (ers_history st)
     \<and> (\<forall>c \<in> set (ers_results st). cr_package_id c = governance_id (ers_identity st))
     \<and> distinct (map cr_criterion_id (ers_results st))
     \<and> distinct (map reference_value (ers_references st))
     \<and> highest_of version_initial (ers_history st) \<le> ers_version st
     \<and> int (length (ers_results st) + length (ers_references st)) \<le> version_value (ers_version st)
     \<and> (ers_state st = E_INITIALIZED \<longrightarrow> ers_results st = [] \<and> ers_references st = [])
     \<and> (ers_state st \<in> {E_SEALED, E_INVALIDATED} \<longrightarrow> ers_results st \<noteq> [] \<and> ers_references st \<noteq> [])
     \<and> (ers_state st = E_INVALIDATED
          \<longrightarrow> ers_history st \<noteq> [] \<and> tr_reason (last (ers_history st)) \<noteq> None)
     \<and> p = \<lparr>ev_identity = ers_identity st, ev_run_id = ers_run_id st,
            ev_state = ers_state st, ev_version = ers_version st,
            ev_next_sequence = ers_next_sequence st, ev_history = ers_history st,
            ev_results = ers_results st, ev_references = ers_references st\<rparr>"
  by (rule reconstruct_evidence_Inr)

theorem evidence_reconstruction_exact_witness:
  "reconstruct_evidence (evidence_reconstruction_of first_evidence) = Inr first_evidence"
  unfolding evidence_reconstruction_exact
  by (simp add: evidence_reconstruction_of_def first_evidence_def history_valid_def sequence_initial_def
      version_initial_def version_order)

end
