(* ===== verification/Review.thy ===== *)
theory Review
  imports Evidence
begin

text \<open>
  The Review aggregate: \<^verbatim>\<open>review/lifecycle.py\<close>, \<^verbatim>\<open>review/aggregate.py\<close>,
  \<^verbatim>\<open>review/_reconstruction.py\<close> and \<^verbatim>\<open>review/mapper.py\<close>. Organised as \<^verbatim>\<open>Campaign\<close>. A Review
  also carries terminal metadata (disposition, rationale, cancellation reason) and a counter
  of findings, which reconstruction recomputes from the findings themselves.
\<close>

section \<open>Lifecycle states and dispositions\<close>

datatype review_state = V_ASSIGNED | V_IN_PROGRESS | V_COMPLETED | V_CANCELLED

fun review_state_value :: "review_state \<Rightarrow> string" where
  "review_state_value V_ASSIGNED = ''ASSIGNED''"
| "review_state_value V_IN_PROGRESS = ''IN_PROGRESS''"
| "review_state_value V_COMPLETED = ''COMPLETED''"
| "review_state_value V_CANCELLED = ''CANCELLED''"

definition review_states :: "review_state list" where
  "review_states = [V_ASSIGNED, V_IN_PROGRESS, V_COMPLETED, V_CANCELLED]"

definition review_state_of :: "string \<Rightarrow> review_state option" where
  "review_state_of v = find (\<lambda>s. review_state_value s = v) review_states"

datatype review_disposition = ACCEPTED | REJECTED | CHANGES_REQUESTED | INCONCLUSIVE

fun disposition_value :: "review_disposition \<Rightarrow> string" where
  "disposition_value ACCEPTED = ''ACCEPTED''"
| "disposition_value REJECTED = ''REJECTED''"
| "disposition_value CHANGES_REQUESTED = ''CHANGES_REQUESTED''"
| "disposition_value INCONCLUSIVE = ''INCONCLUSIVE''"

definition dispositions :: "review_disposition list" where
  "dispositions = [ACCEPTED, REJECTED, CHANGES_REQUESTED, INCONCLUSIVE]"

definition disposition_of :: "string \<Rightarrow> review_disposition option" where
  "disposition_of v = find (\<lambda>s. disposition_value s = v) dispositions"

lemma review_state_of_value [simp]: "review_state_of (review_state_value s) = Some s"
  by (cases s) (simp_all add: review_state_of_def review_states_def)

lemma review_state_value_inject [simp]: "review_state_value s = review_state_value t \<longleftrightarrow> s = t"
  by (metis review_state_of_value option.inject)

lemma disposition_of_value [simp]: "disposition_of (disposition_value d) = Some d"
  by (cases d) (simp_all add: disposition_of_def dispositions_def)

section \<open>Parts of a Review\<close>

datatype review_target = ReviewTarget (target_package_id: governance_identifier)

definition make_review_target :: "governance_identifier \<Rightarrow> exn + review_target" where
  "make_review_target i =
     rbind (ensure (identifier_class i = EvidencePackageId)
              (TypeError ''evidence_package_id must be an EvidencePackageId''))
     (\<lambda>_. Inr (ReviewTarget i))"

datatype reviewer_reference = ReviewerReference (reviewer_value: string)

definition make_reviewer :: "string \<Rightarrow> exn + reviewer_reference" where
  "make_reviewer v =
     rbind (require_non_empty v ''reviewer reference'') (\<lambda>_. Inr (ReviewerReference v))"

record review_finding =
  rf_sequence :: int
  rf_text :: string
  rf_rationale :: "string option"
  rf_references :: "string list"

definition make_finding :: "review_finding \<Rightarrow> exn + review_finding" where
  "make_finding f =
     rbind (ensure (\<not> rf_sequence f < 1) (ValueError ''finding sequence must be positive''))
     (\<lambda>_. rbind (require_non_empty (rf_text f) ''finding text'')
     (\<lambda>_. rbind (require_optional_non_empty (rf_rationale f) ''finding rationale'')
     (\<lambda>_. rbind (rcheck (\<lambda>ref. require_non_empty ref ''evidence reference'') (rf_references f))
     (\<lambda>_. Inr f))))"

definition finding_ok :: "review_finding \<Rightarrow> bool" where
  "finding_ok f \<longleftrightarrow>
     1 \<le> rf_sequence f \<and> \<not> blank (rf_text f) \<and> opt_all (\<lambda>s. \<not> blank s) (rf_rationale f)
     \<and> (\<forall>s \<in> set (rf_references f). \<not> blank s)"

lemma make_review_target_Inr [result_eqs]:
  "make_review_target i = Inr t \<longleftrightarrow> t = ReviewTarget i \<and> identifier_class i = EvidencePackageId"
  by (auto simp: make_review_target_def result_eqs)

lemma make_reviewer_Inr [result_eqs]:
  "make_reviewer v = Inr r \<longleftrightarrow> r = ReviewerReference v \<and> \<not> blank v"
  by (auto simp: make_reviewer_def result_eqs)

lemma make_finding_Inr [result_eqs]: "make_finding f = Inr f' \<longleftrightarrow> f' = f \<and> finding_ok f"
  by (auto simp: make_finding_def finding_ok_def result_eqs)

section \<open>The aggregate\<close>

record review =
  rev_identity :: domain_identity
  rev_target :: review_target
  rev_reviewer :: reviewer_reference
  rev_state :: review_state
  rev_version :: aggregate_version
  rev_next_sequence :: transition_sequence
  rev_history :: "transition list"
  rev_findings :: "review_finding list"
  rev_next_finding :: int
  rev_disposition :: "review_disposition option"
  rev_rationale :: "string option"
  rev_cancellation :: "string option"

definition review_new :: "domain_identity \<Rightarrow> review_target \<Rightarrow> reviewer_reference \<Rightarrow> exn + review" where
  "review_new ident target reviewer =
     rbind (ensure (identifier_class (governance_id ident) = ReviewId)
              (TypeError ''identity governance_id must be a ReviewId''))
     (\<lambda>_. Inr \<lparr>rev_identity = ident, rev_target = target, rev_reviewer = reviewer,
               rev_state = V_ASSIGNED, rev_version = version_initial,
               rev_next_sequence = sequence_initial, rev_history = [], rev_findings = [],
               rev_next_finding = 1, rev_disposition = None, rev_rationale = None,
               rev_cancellation = None\<rparr>)"

definition review_transition ::
    "review_state list \<Rightarrow> review_state \<Rightarrow> string \<Rightarrow> datetime \<Rightarrow> string option \<Rightarrow> string option
     \<Rightarrow> review \<Rightarrow> exn + review" where
  "review_transition allowed next_state actor occurred_at correlation_id reason r =
     rbind (ensure (rev_state r \<in> set allowed)
       (ValueError (''cannot transition from '' @ review_state_value (rev_state r) @ ''; expected ''
          @ join '', '' (map review_state_value allowed))))
     (\<lambda>_. rbind (require_non_empty actor ''actor'')
     (\<lambda>_. rbind (require_optional_non_empty correlation_id ''correlation_id'')
     (\<lambda>_. rbind (require_optional_non_empty reason ''reason'')
     (\<lambda>_. rbind (make_transition
              \<lparr>tr_from = Some (review_state_value (rev_state r)),
               tr_to = review_state_value next_state,
               tr_version = version_next (rev_version r),
               tr_sequence = rev_next_sequence r, tr_actor = actor, tr_occurred_at = occurred_at,
               tr_identity = Some (rev_identity r), tr_correlation = correlation_id,
               tr_reason = reason\<rparr>)
     (\<lambda>record. Inr (r\<lparr>rev_state := next_state,
                     rev_version := version_next (rev_version r),
                     rev_next_sequence := sequence_next (rev_next_sequence r),
                     rev_history := rev_history r @ [record]\<rparr>))))))"

definition review_start ::
    "string \<Rightarrow> datetime \<Rightarrow> string option \<Rightarrow> string option \<Rightarrow> review \<Rightarrow> exn + review" where
  "review_start actor occurred_at correlation_id reason r =
     review_transition [V_ASSIGNED] V_IN_PROGRESS actor occurred_at correlation_id reason r"

definition review_add_finding ::
    "string \<Rightarrow> string option \<Rightarrow> string list \<Rightarrow> review \<Rightarrow> exn + review" where
  "review_add_finding txt rationale references r =
     rbind (ensure (rev_state r = V_IN_PROGRESS)
       (ValueError ''findings may be added only while IN_PROGRESS''))
     (\<lambda>_. rbind (make_finding \<lparr>rf_sequence = rev_next_finding r, rf_text = txt,
                              rf_rationale = rationale, rf_references = references\<rparr>)
     (\<lambda>finding. Inr (r\<lparr>rev_version := version_next (rev_version r),
                      rev_findings := rev_findings r @ [finding],
                      rev_next_finding := rev_next_finding r + 1\<rparr>)))"

definition review_complete ::
    "review_disposition \<Rightarrow> string \<Rightarrow> string \<Rightarrow> datetime \<Rightarrow> string option \<Rightarrow> review
     \<Rightarrow> exn + review" where
  "review_complete disposition rationale actor occurred_at correlation_id r =
     rbind (ensure (rev_state r = V_IN_PROGRESS)
       (ValueError (''Review may complete only while IN_PROGRESS; current state is ''
          @ review_state_value (rev_state r))))
     (\<lambda>_. rbind (ensure (rev_findings r \<noteq> [])
       (ValueError ''Review requires at least one finding before completion''))
     (\<lambda>_. rbind (require_non_empty rationale ''final disposition rationale'')
     (\<lambda>_. rbind (review_transition [V_IN_PROGRESS] V_COMPLETED actor occurred_at correlation_id
              (Some rationale) r)
     (\<lambda>r'. Inr (r'\<lparr>rev_disposition := Some disposition, rev_rationale := Some rationale\<rparr>)))))"

definition review_cancel ::
    "string \<Rightarrow> string \<Rightarrow> datetime \<Rightarrow> string option \<Rightarrow> review \<Rightarrow> exn + review" where
  "review_cancel reason actor occurred_at correlation_id r =
     rbind (require_non_empty reason ''cancellation reason'')
     (\<lambda>_. rbind (review_transition [V_ASSIGNED, V_IN_PROGRESS] V_CANCELLED actor occurred_at
              correlation_id (Some reason) r)
     (\<lambda>r'. Inr (r'\<lparr>rev_cancellation := Some reason\<rparr>)))"

lemmas review_operations [lifecycle_defs] =
  review_start_def review_add_finding_def review_complete_def review_cancel_def

section \<open>Reconstruction\<close>

record review_reconstruction_state =
  vrs_identity :: domain_identity
  vrs_target :: review_target
  vrs_reviewer :: reviewer_reference
  vrs_state :: review_state
  vrs_findings :: "review_finding list"
  vrs_disposition :: "review_disposition option"
  vrs_rationale :: "string option"
  vrs_cancellation :: "string option"
  vrs_version :: aggregate_version
  vrs_next_sequence :: transition_sequence
  vrs_history :: "transition list"

definition make_review_reconstruction_state ::
    "review_reconstruction_state \<Rightarrow> exn + review_reconstruction_state" where
  "make_review_reconstruction_state st =
     rbind (ensure (identifier_class (governance_id (vrs_identity st)) = ReviewId)
              (ReconstructionError INVALID_AGGREGATE_IDENTITY
                 ''identity governance_id must be a ReviewId'' ''identity''))
     (\<lambda>_. Inr st)"

definition review_allowed_edges :: "(string \<times> string) list" where
  "review_allowed_edges =
     [(''ASSIGNED'', ''IN_PROGRESS''), (''IN_PROGRESS'', ''COMPLETED''),
      (''ASSIGNED'', ''CANCELLED''), (''IN_PROGRESS'', ''CANCELLED'')]"

definition review_terminal_states :: "string list" where
  "review_terminal_states = [''COMPLETED'', ''CANCELLED'']"

definition validate_findings :: "review_finding list \<Rightarrow> exn + unit" where
  "validate_findings fs =
     rcheck (\<lambda>(index, f). ensure (rf_sequence f = index)
        (ReconstructionError INVALID_COLLECTION_ELEMENT
           ''Review finding sequences must be contiguous from 1'' ''findings''))
       (enumerate_from 1 fs)"

text \<open>\<^verbatim>\<open>not x\<close> of an optional string: absent or empty.\<close>

definition absent :: "string option \<Rightarrow> bool" where
  "absent x \<longleftrightarrow> x = None \<or> x = Some []"

definition validate_terminal_metadata :: "review_reconstruction_state \<Rightarrow> exn + unit" where
  "validate_terminal_metadata st =
     (let inconsistent = ReconstructionError INCONSISTENT_TERMINAL_METADATA in
      if vrs_state st = V_COMPLETED then
        rbind (ensure (vrs_findings st \<noteq> [])
          (inconsistent ''completed Review requires at least one finding'' ''findings''))
        (\<lambda>_. rbind (ensure (\<not> (vrs_disposition st = None \<or> absent (vrs_rationale st)))
          (inconsistent ''completed Review requires disposition and final rationale'' ''disposition''))
        (\<lambda>_. ensure (vrs_cancellation st = None)
          (inconsistent ''completed Review cannot have cancellation reason'' ''cancellation_reason'')))
      else if vrs_state st = V_CANCELLED then
        rbind (ensure (\<not> (vrs_disposition st \<noteq> None \<or> vrs_rationale st \<noteq> None))
          (inconsistent ''cancelled Review cannot have final disposition metadata'' ''disposition''))
        (\<lambda>_. ensure (\<not> absent (vrs_cancellation st))
          (inconsistent ''cancelled Review requires cancellation reason'' ''cancellation_reason''))
      else
        ensure (\<not> (vrs_disposition st \<noteq> None \<or> vrs_rationale st \<noteq> None \<or> vrs_cancellation st \<noteq> None))
          (inconsistent ''non-terminal Review cannot have terminal metadata'' ''state''))"

definition reconstruct_review :: "review_reconstruction_state \<Rightarrow> exn + review" where
  "reconstruct_review st =
     rbind (validate_transition_history (vrs_history st) (vrs_identity st)
              (review_state_value (vrs_state st)) (review_state_value V_ASSIGNED)
              review_allowed_edges review_terminal_states (vrs_next_sequence st) [''ASSIGNED''])
     (\<lambda>highest. rbind (validate_findings (vrs_findings st))
     (\<lambda>_. let version_floor = max (version_value highest) (int (length (vrs_findings st))) in
        rbind (ensure (\<not> version_value (vrs_version st) < version_floor)
          (ReconstructionError INVALID_AGGREGATE_VERSION
             ''Review version is lower than restored state requires'' ''version''))
     (\<lambda>_. rbind (validate_terminal_metadata st)
     (\<lambda>_. Inr \<lparr>rev_identity = vrs_identity st, rev_target = vrs_target st,
               rev_reviewer = vrs_reviewer st, rev_state = vrs_state st,
               rev_version = vrs_version st, rev_next_sequence = vrs_next_sequence st,
               rev_history = vrs_history st, rev_findings = vrs_findings st,
               rev_next_finding =
                 (if vrs_findings st \<noteq> [] then rf_sequence (last (vrs_findings st)) + 1 else 1),
               rev_disposition = vrs_disposition st, rev_rationale = vrs_rationale st,
               rev_cancellation = vrs_cancellation st\<rparr>))))"

section \<open>Mapper\<close>

record review_finding_durable =
  rfd_sequence :: int
  rfd_text :: string
  rfd_rationale :: "string option"
  rfd_references :: "string list"

record review_durable =
  vd_identity :: identity_durable
  vd_target_package_id :: string
  vd_reviewer :: string
  vd_lifecycle_state :: string
  vd_findings :: "review_finding_durable list"
  vd_disposition :: "string option"
  vd_rationale :: "string option"
  vd_cancellation :: "string option"
  vd_version :: int
  vd_next_sequence :: int
  vd_history :: "transition_durable list"

definition finding_to_durable :: "review_finding \<Rightarrow> review_finding_durable" where
  "finding_to_durable f =
     \<lparr>rfd_sequence = rf_sequence f, rfd_text = rf_text f, rfd_rationale = rf_rationale f,
      rfd_references = rf_references f\<rparr>"

definition finding_from_durable :: "review_finding_durable \<Rightarrow> exn + review_finding" where
  "finding_from_durable d =
     make_finding \<lparr>rf_sequence = rfd_sequence d, rf_text = rfd_text d,
                   rf_rationale = rfd_rationale d, rf_references = rfd_references d\<rparr>"

definition review_to_durable :: "review \<Rightarrow> review_durable" where
  "review_to_durable r =
     \<lparr>vd_identity = identity_to_durable (rev_identity r),
      vd_target_package_id = identifier_str (target_package_id (rev_target r)),
      vd_reviewer = reviewer_value (rev_reviewer r),
      vd_lifecycle_state = review_state_value (rev_state r),
      vd_findings = map finding_to_durable (rev_findings r),
      vd_disposition = map_option disposition_value (rev_disposition r),
      vd_rationale = rev_rationale r, vd_cancellation = rev_cancellation r,
      vd_version = version_value (rev_version r),
      vd_next_sequence = sequence_value (rev_next_sequence r),
      vd_history = map transition_to_durable (rev_history r)\<rparr>"

definition review_from_durable :: "review_durable \<Rightarrow> exn + review_reconstruction_state" where
  "review_from_durable d =
     rbind (case review_state_of (vd_lifecycle_state d) of
              None \<Rightarrow> Inl (MapperError INVALID_DURABLE_RECORD ''unknown Review lifecycle_state''
                            ''Review'' (Some ''lifecycle_state''))
            | Some s \<Rightarrow> Inr s)
     (\<lambda>lifecycle_state. rbind
        (case vd_disposition d of
           None \<Rightarrow> Inr None
         | Some v \<Rightarrow>
             (case disposition_of v of
                None \<Rightarrow> Inl (MapperError INVALID_DURABLE_RECORD ''unknown Review disposition''
                              ''Review'' (Some ''disposition''))
              | Some x \<Rightarrow> Inr (Some x)))
     (\<lambda>disposition. rbind
        (rcatch (malformed_as ''Review'')
          (rbind (identity_from_durable ReviewId (vd_identity d))
           (\<lambda>ident. rbind (rbind (make_identifier EvidencePackageId (vd_target_package_id d)) make_review_target)
           (\<lambda>target. rbind (make_reviewer (vd_reviewer d))
           (\<lambda>reviewer. rbind (rmap finding_from_durable (vd_findings d))
           (\<lambda>findings. rbind (rmap (transition_from_durable ReviewId) (vd_history d))
           (\<lambda>history. Inr (ident, target, reviewer, findings, history))))))))
     (\<lambda>(ident, target, reviewer, findings, history). rbind (make_version (vd_version d))
     (\<lambda>version. rbind (make_sequence (vd_next_sequence d))
     (\<lambda>next_seq. make_review_reconstruction_state
        \<lparr>vrs_identity = ident, vrs_target = target, vrs_reviewer = reviewer,
         vrs_state = lifecycle_state, vrs_findings = findings, vrs_disposition = disposition,
         vrs_rationale = vd_rationale d, vrs_cancellation = vd_cancellation d,
         vrs_version = version, vrs_next_sequence = next_seq, vrs_history = history\<rparr>)))))"

section \<open>Characteristic equations of the operations\<close>

lemma review_state_value_not_blank [simp]: "\<not> blank (review_state_value s)"
  by (cases s) (simp_all add: blank_iff_spaces is_py_space_def)

definition review_moved ::
    "review_state \<Rightarrow> string \<Rightarrow> datetime \<Rightarrow> string option \<Rightarrow> string option \<Rightarrow> review \<Rightarrow> review" where
  "review_moved next_state actor occurred_at correlation_id reason r =
     r\<lparr>rev_state := next_state,
       rev_version := version_next (rev_version r),
       rev_next_sequence := sequence_next (rev_next_sequence r),
       rev_history := rev_history r @
         [\<lparr>tr_from = Some (review_state_value (rev_state r)),
           tr_to = review_state_value next_state,
           tr_version = version_next (rev_version r), tr_sequence = rev_next_sequence r,
           tr_actor = actor, tr_occurred_at = occurred_at, tr_identity = Some (rev_identity r),
           tr_correlation = correlation_id, tr_reason = reason\<rparr>]\<rparr>"

lemma review_transition_Inr:
  "review_transition allowed t actor at corr reason r = Inr r' \<longleftrightarrow>
     rev_state r \<in> set allowed \<and> \<not> blank actor \<and> opt_all (\<lambda>s. \<not> blank s) corr
     \<and> opt_all (\<lambda>s. \<not> blank s) reason \<and> r' = review_moved t actor at corr reason r"
  by (auto simp: review_transition_def review_moved_def result_eqs transition_ok_def)

definition findings_numbered :: "review_finding list \<Rightarrow> bool" where
  "findings_numbered fs \<longleftrightarrow> map rf_sequence fs = map fst (enumerate_from 1 fs)"

lemma rcheck_numbered:
  "rcheck (\<lambda>(index, f). ensure (rf_sequence f = index) e) (enumerate_from n fs) = Inr u
     \<longleftrightarrow> map rf_sequence fs = map fst (enumerate_from n fs)"
  by (induction fs arbitrary: n) (auto simp: result_eqs)

lemma validate_findings_Inr: "validate_findings fs = Inr u \<longleftrightarrow> findings_numbered fs"
  by (simp add: validate_findings_def findings_numbered_def rcheck_numbered)

lemma findings_numbered_simps [simp]:
  "findings_numbered []"
  "findings_numbered (fs @ [f]) \<longleftrightarrow> findings_numbered fs \<and> rf_sequence f = int (length fs) + 1"
  by (auto simp: findings_numbered_def enumerate_from_append)

lemma findings_numbered_last:
  "findings_numbered fs \<Longrightarrow> fs \<noteq> [] \<Longrightarrow> rf_sequence (last fs) = int (length fs)"
  by (induction fs rule: rev_induct) auto

section \<open>The invariant\<close>

definition terminal_metadata_ok :: "review \<Rightarrow> bool" where
  "terminal_metadata_ok r \<longleftrightarrow>
     (case rev_state r of
        V_COMPLETED \<Rightarrow> rev_findings r \<noteq> [] \<and> rev_disposition r \<noteq> None
          \<and> (\<exists>s. rev_rationale r = Some s \<and> \<not> blank s) \<and> rev_cancellation r = None
      | V_CANCELLED \<Rightarrow> rev_disposition r = None \<and> rev_rationale r = None
          \<and> (\<exists>s. rev_cancellation r = Some s \<and> \<not> blank s)
      | _ \<Rightarrow> rev_disposition r = None \<and> rev_rationale r = None \<and> rev_cancellation r = None)"

definition review_ok :: "review \<Rightarrow> bool" where
  "review_ok r \<longleftrightarrow>
     identity_ok ReviewId (rev_identity r)
     \<and> identifier_class (target_package_id (rev_target r)) = EvidencePackageId
     \<and> identifier_ok (target_package_id (rev_target r))
     \<and> \<not> blank (reviewer_value (rev_reviewer r))
     \<and> history_inv (rev_identity r) (review_state_value V_ASSIGNED) review_allowed_edges
         review_terminal_states (review_state_value (rev_state r)) (rev_next_sequence r)
         (rev_version r) (rev_history r)
     \<and> (\<forall>f \<in> set (rev_findings r). finding_ok f)
     \<and> findings_numbered (rev_findings r)
     \<and> rev_next_finding r = int (length (rev_findings r)) + 1
     \<and> version_value (rev_version r) = int (length (rev_history r) + length (rev_findings r))
     \<and> terminal_metadata_ok r"

lemma review_new_ok:
  assumes "identity_ok ReviewId ident" "identifier_ok i" "make_review_target i = Inr target"
    "make_reviewer v = Inr reviewer" "review_new ident target reviewer = Inr r"
  shows "review_ok r"
  using assms history_inv_initial
  by (auto simp: review_new_def review_ok_def terminal_metadata_ok_def result_eqs)

text \<open>
  A move together with the metadata the operation sets; \<open>r\<close> is unchanged otherwise, so the
  invariant follows from the history lemma and the metadata of the target state.
\<close>

lemma review_moved_ok:
  assumes ok: "review_ok r"
    and args: "\<not> blank actor" "opt_all (\<lambda>s. \<not> blank s) corr" "opt_all (\<lambda>s. \<not> blank s) reason"
    and edge: "(review_state_value (rev_state r), review_state_value t) \<in> set review_allowed_edges"
    and live: "review_state_value (rev_state r) \<notin> set review_terminal_states"
    and r': "r' = (review_moved t actor at corr reason r)
               \<lparr>rev_disposition := d, rev_rationale := w, rev_cancellation := k\<rparr>"
    and meta: "terminal_metadata_ok r'"
  shows "review_ok r'"
proof -
  let ?r = "\<lparr>tr_from = Some (review_state_value (rev_state r)),
           tr_to = review_state_value t,
           tr_version = version_next (rev_version r), tr_sequence = rev_next_sequence r,
           tr_actor = actor, tr_occurred_at = at, tr_identity = Some (rev_identity r),
           tr_correlation = corr, tr_reason = reason\<rparr>"
  have "history_inv (rev_identity r) (review_state_value V_ASSIGNED) review_allowed_edges
          review_terminal_states (review_state_value t) (sequence_next (rev_next_sequence r))
          (version_next (rev_version r)) (rev_history r @ [?r])"
  proof (rule history_inv_snoc)
    show "history_inv (rev_identity r) (review_state_value V_ASSIGNED) review_allowed_edges
          review_terminal_states (review_state_value (rev_state r)) (rev_next_sequence r)
          (rev_version r) (rev_history r)"
      using ok by (simp add: review_ok_def)
  qed (use args live edge in \<open>simp_all add: transition_ok_def\<close>)
  with meta show ?thesis
    using ok by (auto simp: review_ok_def review_moved_def r')
qed

lemma review_add_finding_ok:
  assumes "review_ok r" "review_add_finding txt rationale references r = Inr r'"
  shows "review_ok r'"
  using assms history_inv_bump[OF _ version_le_next]
  by (auto simp: review_ok_def review_add_finding_def terminal_metadata_ok_def result_eqs)

section \<open>Steps and live Reviews\<close>

inductive review_step :: "review \<Rightarrow> review \<Rightarrow> bool" where
  start: "review_start actor at corr reason r = Inr r' \<Longrightarrow> review_step r r'"
| finding: "review_add_finding txt rationale references r = Inr r' \<Longrightarrow> review_step r r'"
| complete: "review_complete disposition rationale' actor at corr r = Inr r' \<Longrightarrow> review_step r r'"
| cancel: "review_cancel reason' actor at corr r = Inr r' \<Longrightarrow> review_step r r'"

inductive review_live :: "review \<Rightarrow> bool" where
  new: "identity_ok ReviewId ident \<Longrightarrow> identifier_ok i \<Longrightarrow> make_review_target i = Inr target
     \<Longrightarrow> make_reviewer v = Inr reviewer \<Longrightarrow> review_new ident target reviewer = Inr r
     \<Longrightarrow> review_live r"
| step: "review_live r \<Longrightarrow> review_step r r' \<Longrightarrow> review_live r'"

lemmas review_edge_defs = review_allowed_edges_def review_terminal_states_def

lemma review_start_Inr:
  "review_start actor at corr reason r = Inr r' \<longleftrightarrow>
     rev_state r = V_ASSIGNED \<and> \<not> blank actor \<and> opt_all (\<lambda>s. \<not> blank s) corr
     \<and> opt_all (\<lambda>s. \<not> blank s) reason \<and> r' = review_moved V_IN_PROGRESS actor at corr reason r"
  by (auto simp: review_start_def review_transition_Inr)

lemma review_complete_Inr:
  "review_complete d rationale actor at corr r = Inr r' \<longleftrightarrow>
     rev_state r = V_IN_PROGRESS \<and> rev_findings r \<noteq> [] \<and> \<not> blank rationale \<and> \<not> blank actor
     \<and> opt_all (\<lambda>s. \<not> blank s) corr
     \<and> r' = (review_moved V_COMPLETED actor at corr (Some rationale) r)
              \<lparr>rev_disposition := Some d, rev_rationale := Some rationale\<rparr>"
  by (auto simp: review_complete_def review_transition_Inr result_eqs)

lemma review_cancel_Inr:
  "review_cancel reason actor at corr r = Inr r' \<longleftrightarrow>
     rev_state r \<in> {V_ASSIGNED, V_IN_PROGRESS} \<and> \<not> blank reason \<and> \<not> blank actor
     \<and> opt_all (\<lambda>s. \<not> blank s) corr
     \<and> r' = (review_moved V_CANCELLED actor at corr (Some reason) r)\<lparr>rev_cancellation := Some reason\<rparr>"
  by (auto simp: review_cancel_def review_transition_Inr result_eqs)

lemma review_step_ok:
  assumes "review_step r r'" "review_ok r"
  shows "review_ok r'"
  using assms(1)
proof cases
  case (start actor at corr reason)
  then have a: "\<not> blank actor" "opt_all (\<lambda>s. \<not> blank s) corr"
    "opt_all (\<lambda>s. \<not> blank s) reason" and st: "rev_state r = V_ASSIGNED"
    and r': "r' = review_moved V_IN_PROGRESS actor at corr reason r"
    by (auto simp: review_start_Inr)
  have meta: "rev_disposition r = None" "rev_rationale r = None" "rev_cancellation r = None"
    using st assms(2) by (auto simp: review_ok_def terminal_metadata_ok_def)
  have "r' = (review_moved V_IN_PROGRESS actor at corr reason r)
      \<lparr>rev_disposition := None, rev_rationale := None, rev_cancellation := None\<rparr>"
    using meta by (cases r) (simp add: r' review_moved_def)
  from review_moved_ok[OF assms(2) a _ _ this] show ?thesis
    using st a meta by (auto simp: r' review_moved_def review_edge_defs terminal_metadata_ok_def)
next
  case (finding body rationale references)
  with assms(2) show ?thesis by (blast intro: review_add_finding_ok)
next
  case (complete d rationale actor at corr)
  then have a: "\<not> blank actor" "opt_all (\<lambda>s. \<not> blank s) corr"
    "opt_all (\<lambda>s. \<not> blank s) (Some rationale)" and st: "rev_state r = V_IN_PROGRESS" "rev_findings r \<noteq> []"
    and r': "r' = (review_moved V_COMPLETED actor at corr (Some rationale) r)
               \<lparr>rev_disposition := Some d, rev_rationale := Some rationale\<rparr>"
    by (auto simp: review_complete_Inr)
  have meta: "rev_disposition r = None" "rev_rationale r = None" "rev_cancellation r = None"
    using st assms(2) by (auto simp: review_ok_def terminal_metadata_ok_def)
  have "r' = (review_moved V_COMPLETED actor at corr (Some rationale) r)
      \<lparr>rev_disposition := Some d, rev_rationale := Some rationale, rev_cancellation := None\<rparr>"
    using meta by (cases r) (simp add: r' review_moved_def)
  from review_moved_ok[OF assms(2) a _ _ this] show ?thesis
    using st a meta by (auto simp: r' review_moved_def review_edge_defs terminal_metadata_ok_def)
next
  case (cancel reason actor at corr)
  then have a: "\<not> blank actor" "opt_all (\<lambda>s. \<not> blank s) corr"
    "opt_all (\<lambda>s. \<not> blank s) (Some reason)" and st: "rev_state r = V_ASSIGNED \<or> rev_state r = V_IN_PROGRESS"
    and r': "r' = (review_moved V_CANCELLED actor at corr (Some reason) r)
               \<lparr>rev_cancellation := Some reason\<rparr>"
    by (auto simp: review_cancel_Inr)
  have meta: "rev_disposition r = None" "rev_rationale r = None" "rev_cancellation r = None"
    using st assms(2) by (auto simp: review_ok_def terminal_metadata_ok_def)
  have "r' = (review_moved V_CANCELLED actor at corr (Some reason) r)
      \<lparr>rev_disposition := None, rev_rationale := None, rev_cancellation := Some reason\<rparr>"
    using meta by (cases r) (simp add: r' review_moved_def)
  from review_moved_ok[OF assms(2) a _ _ this] show ?thesis
    using st a meta by (auto simp: r' review_moved_def review_edge_defs terminal_metadata_ok_def)
qed

lemma review_live_ok: "review_live r \<Longrightarrow> review_ok r"
proof (induction rule: review_live.induct)
  case (new ident i target v reviewer r)
  then show ?case by (rule review_new_ok)
next
  case (step r r')
  then show ?case by (blast intro: review_step_ok)
qed

section \<open>Reconstruction accepts every live Review\<close>

definition restored_metadata_ok :: "review_reconstruction_state \<Rightarrow> bool" where
  "restored_metadata_ok st \<longleftrightarrow>
     (case vrs_state st of
        V_COMPLETED \<Rightarrow> vrs_findings st \<noteq> [] \<and> vrs_disposition st \<noteq> None
          \<and> (\<exists>s. vrs_rationale st = Some s \<and> s \<noteq> []) \<and> vrs_cancellation st = None
      | V_CANCELLED \<Rightarrow> vrs_disposition st = None \<and> vrs_rationale st = None
          \<and> (\<exists>s. vrs_cancellation st = Some s \<and> s \<noteq> [])
      | _ \<Rightarrow> vrs_disposition st = None \<and> vrs_rationale st = None \<and> vrs_cancellation st = None)"

lemma validate_terminal_metadata_Inr:
  "validate_terminal_metadata st = Inr u \<longleftrightarrow> restored_metadata_ok st"
  by (cases "vrs_state st")
    (auto simp: validate_terminal_metadata_def restored_metadata_ok_def absent_def result_eqs Let_def)

lemma reconstruct_review_Inr:
  "reconstruct_review st = Inr r \<longleftrightarrow>
     history_valid (vrs_identity st) (review_state_value (vrs_state st)) ''ASSIGNED''
       review_allowed_edges review_terminal_states (vrs_next_sequence st) [''ASSIGNED'']
       (vrs_history st)
     \<and> findings_numbered (vrs_findings st)
     \<and> highest_of version_initial (vrs_history st) \<le> vrs_version st
     \<and> int (length (vrs_findings st)) \<le> version_value (vrs_version st)
     \<and> restored_metadata_ok st
     \<and> r = \<lparr>rev_identity = vrs_identity st, rev_target = vrs_target st,
            rev_reviewer = vrs_reviewer st, rev_state = vrs_state st,
            rev_version = vrs_version st, rev_next_sequence = vrs_next_sequence st,
            rev_history = vrs_history st, rev_findings = vrs_findings st,
            rev_next_finding = int (length (vrs_findings st)) + 1,
            rev_disposition = vrs_disposition st, rev_rationale = vrs_rationale st,
            rev_cancellation = vrs_cancellation st\<rparr>"
  by (auto simp: reconstruct_review_def result_eqs validate_transition_history_iff
      validate_findings_Inr validate_terminal_metadata_Inr Let_def not_less version_order
      findings_numbered_last)

definition review_reconstruction_of :: "review \<Rightarrow> review_reconstruction_state" where
  "review_reconstruction_of r =
     \<lparr>vrs_identity = rev_identity r, vrs_target = rev_target r, vrs_reviewer = rev_reviewer r,
      vrs_state = rev_state r, vrs_findings = rev_findings r,
      vrs_disposition = rev_disposition r, vrs_rationale = rev_rationale r,
      vrs_cancellation = rev_cancellation r, vrs_version = rev_version r,
      vrs_next_sequence = rev_next_sequence r, vrs_history = rev_history r\<rparr>"

lemma review_ok_history_valid:
  assumes "review_ok r"
  shows "history_valid (rev_identity r) (review_state_value (rev_state r)) ''ASSIGNED''
       review_allowed_edges review_terminal_states (rev_next_sequence r) [''ASSIGNED''] (rev_history r)
     \<and> highest_of version_initial (rev_history r) \<le> rev_version r"
proof -
  have inv: "history_inv (rev_identity r) ''ASSIGNED'' review_allowed_edges
         review_terminal_states (review_state_value (rev_state r)) (rev_next_sequence r)
         (rev_version r) (rev_history r)"
    using assms by (simp add: review_ok_def)
  from history_inv_validates[OF inv, of "[''ASSIGNED'']"] show ?thesis
    by (auto simp: validate_transition_history_iff)
qed

lemma reconstruct_review_ok: "review_ok r \<Longrightarrow> reconstruct_review (review_reconstruction_of r) = Inr r"
  using review_ok_history_valid[of r]
  by (cases "rev_state r")
    (auto simp: reconstruct_review_Inr review_reconstruction_of_def review_ok_def
      terminal_metadata_ok_def restored_metadata_ok_def)

lemma finding_durable_roundtrip:
  "finding_ok f \<Longrightarrow> finding_from_durable (finding_to_durable f) = Inr f"
  by (cases f) (simp add: finding_from_durable_def finding_to_durable_def make_finding_Inr)

lemma review_from_to_durable:
  assumes "review_ok r"
  shows "review_from_durable (review_to_durable r) = Inr (review_reconstruction_of r)"
proof -
  have id: "identity_ok ReviewId (rev_identity r)"
    and tgt: "rbind (make_identifier EvidencePackageId (identifier_str (target_package_id (rev_target r))))
                make_review_target = Inr (rev_target r)"
    and rvr: "make_reviewer (reviewer_value (rev_reviewer r)) = Inr (rev_reviewer r)"
    and inv: "history_inv (rev_identity r) (review_state_value V_ASSIGNED) review_allowed_edges
         review_terminal_states (review_state_value (rev_state r)) (rev_next_sequence r)
         (rev_version r) (rev_history r)"
    and fs: "\<forall>f \<in> set (rev_findings r). finding_ok f"
    using assms
    by (auto simp: review_ok_def make_identifier_str make_review_target_def make_reviewer_def
        require_non_empty_def)
  have "rmap finding_from_durable (map finding_to_durable (rev_findings r)) = Inr (rev_findings r)"
    using fs by (intro rmap_map_inverse) (simp add: finding_durable_roundtrip)
  moreover have "0 \<le> version_value (rev_version r)"
    using history_inv_version[OF inv] by (simp add: version_order)
  moreover have "1 \<le> sequence_value (rev_next_sequence r)"
    by (rule history_inv_sequence_pos[OF inv])
  moreover have "(case map_option disposition_value (rev_disposition r) of None \<Rightarrow> Inr None
      | Some v \<Rightarrow> (case disposition_of v of None \<Rightarrow> Inl e | Some x \<Rightarrow> Inr (Some x)))
      = Inr (rev_disposition r)" for e :: exn
    by (cases "rev_disposition r") simp_all
  ultimately show ?thesis
    using id tgt rvr history_durable_roundtrip[OF inv id]
    by (simp add: review_from_durable_def review_to_durable_def review_reconstruction_of_def
        identity_durable_roundtrip make_version_value make_sequence_value
        make_review_reconstruction_state_def identity_ok_def del: rbind_Inr rbind_Inl
        flip: rbind_def) (simp add: identity_ok_def)
qed

section \<open>Examples\<close>

lemmas review_walk =
  review_live.step[rotated, OF review_step.start]
  review_live.step[rotated, OF review_step.finding]
  review_live.step[rotated, OF review_step.complete]
  review_live.step[rotated, OF review_step.cancel]

definition walked_review :: "exn + review" where
  "walked_review =
     rbind (make_review_target (Identifier EvidencePackageId ''EVID-0001''))
     (\<lambda>target. rbind (make_reviewer ''reviewer'')
     (\<lambda>reviewer. rbind (review_new (walk_identity ReviewId) target reviewer)
     (\<lambda>r. rbind (review_start ''ops'' (Aware 1) None None r)
     (\<lambda>r. rbind (review_add_finding ''finding'' None [] r)
     (\<lambda>r. review_complete ACCEPTED ''fine'' ''ops'' (Aware 2) None r)))))"

lemma walked_review_live:
  "\<exists>r. walked_review = Inr r \<and> review_live r \<and> rev_state r = V_COMPLETED \<and> length (rev_findings r) = 1"
proof -
  have run: "case walked_review of Inl _ \<Rightarrow> False | Inr r \<Rightarrow> rev_state r = V_COMPLETED \<and> length (rev_findings r) = 1"
    by code_simp
  have id: "identity_ok ReviewId (walk_identity ReviewId)" "identifier_ok (Identifier EvidencePackageId ''EVID-0001'')"
    by code_simp+
  show ?thesis
  proof (cases walked_review)
    case (Inr r)
    then obtain target reviewer r0 r1 r2 where s: "make_review_target (Identifier EvidencePackageId ''EVID-0001'') = Inr target"
      "make_reviewer ''reviewer'' = Inr reviewer" "review_new (walk_identity ReviewId) target reviewer = Inr r0"
      "review_start ''ops'' (Aware 1) None None r0 = Inr r1"
      "review_add_finding ''finding'' None [] r1 = Inr r2"
      "review_complete ACCEPTED ''fine'' ''ops'' (Aware 2) None r2 = Inr r"
      unfolding walked_review_def rbind_eq_Inr by blast
    have "review_live r"
      by (rule review_walk(3)[OF s(6) review_walk(2)[OF s(5) review_walk(1)[OF s(4) review_live.new[OF id s(1,2,3)]]]])
    then show ?thesis using run unfolding Inr sum.case by blast
  next
    case (Inl e)
    show ?thesis using run unfolding Inl sum.case by blast
  qed
qed

definition first_review :: review where
  "first_review =
     \<lparr>rev_identity = walk_identity ReviewId,
      rev_target = ReviewTarget (Identifier EvidencePackageId ''EVID-0001''),
      rev_reviewer = ReviewerReference ''reviewer'', rev_state = V_ASSIGNED,
      rev_version = version_initial, rev_next_sequence = sequence_initial, rev_history = [],
      rev_findings = [], rev_next_finding = 1, rev_disposition = None, rev_rationale = None,
      rev_cancellation = None\<rparr>"

lemma first_review_step: "\<exists>a'. review_step first_review a'"
proof -
  have "\<exists>a'. review_start ''ops'' (Aware 1) None None first_review = Inr a'"
    by (simp add: lifecycle_defs review_transition_Inr first_review_def blank_iff_spaces is_py_space_def)
  then show ?thesis by (blast intro: review_step.start)
qed

section \<open>What the Review guarantees\<close>

text \<open>
  C25. A Review that the constructor and the operations produced survives its stored form
  unchanged: mapping it to its durable record, mapping the record back and reconstructing gives
  the same aggregate, whatever operations it went through.
\<close>

theorem review_survives_persistence:
  assumes "review_live a"
  shows "rbind (review_from_durable (review_to_durable a)) reconstruct_review = Inr a"
  using review_live_ok[OF assms] by (simp add: review_from_to_durable reconstruct_review_ok)

theorem review_survives_persistence_witness:
  "\<exists>a. walked_review = Inr a \<and> rbind (review_from_durable (review_to_durable a)) reconstruct_review = Inr a"
  using walked_review_live review_survives_persistence by blast



text \<open>
  A Review can always go on until it is in a terminal state, and never after: some operation
  accepts it exactly when its state is not terminal.
\<close>

theorem review_stuck_iff_terminal:
  "(\<exists>a'. review_step a a') \<longleftrightarrow> review_state_value (rev_state a) \<notin> set review_terminal_states"
proof
  assume "\<exists>a'. review_step a a'"
  then show "review_state_value (rev_state a) \<notin> set review_terminal_states"
    by (auto elim!: review_step.cases simp: review_start_Inr review_complete_Inr review_cancel_Inr
        review_add_finding_def review_edge_defs result_eqs)
next
  assume "review_state_value (rev_state a) \<notin> set review_terminal_states"
  then have "\<exists>a'. review_cancel ''stop'' ''ops'' (Aware 0) None a = Inr a'"
    by (cases "rev_state a") (simp_all add: review_terminal_states_def review_cancel_Inr blank_iff_spaces is_py_space_def)
  then show "\<exists>a'. review_step a a'" by (auto intro: review_step.cancel)
qed

text \<open>
  C29. Reconstruction of a Review accepts exactly the stored states that the rules of the lifecycle
  allow, and restores them unchanged: the history is a valid walk to the stored state, the version
  is at least what history and contents require, and the contents fit the state.
\<close>

theorem review_reconstruction_exact:
  "reconstruct_review st = Inr r \<longleftrightarrow>
     history_valid (vrs_identity st) (review_state_value (vrs_state st)) ''ASSIGNED''
       review_allowed_edges review_terminal_states (vrs_next_sequence st) [''ASSIGNED'']
       (vrs_history st)
     \<and> findings_numbered (vrs_findings st)
     \<and> highest_of version_initial (vrs_history st) \<le> vrs_version st
     \<and> int (length (vrs_findings st)) \<le> version_value (vrs_version st)
     \<and> restored_metadata_ok st
     \<and> r = \<lparr>rev_identity = vrs_identity st, rev_target = vrs_target st,
            rev_reviewer = vrs_reviewer st, rev_state = vrs_state st,
            rev_version = vrs_version st, rev_next_sequence = vrs_next_sequence st,
            rev_history = vrs_history st, rev_findings = vrs_findings st,
            rev_next_finding = int (length (vrs_findings st)) + 1,
            rev_disposition = vrs_disposition st, rev_rationale = vrs_rationale st,
            rev_cancellation = vrs_cancellation st\<rparr>"
  by (rule reconstruct_review_Inr)

theorem review_reconstruction_exact_witness:
  "reconstruct_review (review_reconstruction_of first_review) = Inr first_review"
  unfolding review_reconstruction_exact
  by (simp add: review_reconstruction_of_def first_review_def history_valid_def sequence_initial_def
      version_initial_def version_order restored_metadata_ok_def)

end
