(* ===== verification/Store.thy ===== *)
theory Store
  imports Unit_Of_Work
begin

text \<open>
  What the four PostgreSQL repositories have in common. An aggregate is stored as one row of a
  root table and the rows of its child tables; \<open>store\<close> lists what differs between the
  repositories, and \<open>store_get\<close>, \<open>store_add\<close>, \<open>store_save\<close> are the shape their three methods
  share. Each repository theory transcribes its own methods and shows them to be these.

  The locale \<open>store_shape\<close> is what a repository owes to its tables; \<open>stored_aggregate\<close> adds a
  server and proves the contract of \<^verbatim>\<open>shared/contracts/repository.py\<close>: the tables hold at most
  one aggregate per identity, \<open>add\<close> and \<open>save\<close> replace exactly that one, \<open>get\<close> returns it,
  the version guard refuses stale writers, and a failure leaves the tables as they were.
\<close>

section \<open>The contract's vocabulary\<close>

datatype save_operation = OpCreated | OpUpdated | OpUnchanged

record 'a loaded_aggregate =
  la_aggregate :: 'a
  la_version :: aggregate_version

record save_result =
  sr_operation :: save_operation
  sr_version :: aggregate_version

section \<open>The shape of a repository\<close>

record 'a child_table =
  ch_table :: table
  ch_key :: column
  ch_order :: column
  ch_rows :: "'a \<Rightarrow> params list"

record 'a store =
  st_kind :: string
  st_root :: table
  st_unique :: "string list"
  st_identity :: "'a \<Rightarrow> domain_identity"
  st_version :: "'a \<Rightarrow> int"
  st_insert :: "'a \<Rightarrow> params"
  st_set :: "'a \<Rightarrow> params"
  st_children :: "'a child_table list"
  st_load :: "domain_identity \<Rightarrow> row \<Rightarrow> row list list \<Rightarrow> exn + 'a"

definition by_runtime :: "domain_identity \<Rightarrow> params" where
  "by_runtime i = [(K_runtime_id, SText (run_str i))]"

definition by_identity :: "domain_identity \<Rightarrow> params" where
  "by_identity i = [(K_runtime_id, SText (run_str i)), (K_governance_id, SText (gov_str i))]"

definition by_identity_and_version :: "domain_identity \<Rightarrow> int \<Rightarrow> params" where
  "by_identity_and_version i v =
     [(K_runtime_id, SText (run_str i)), (K_governance_id, SText (gov_str i)), (K_version, SInt v)]"

text \<open>\<^verbatim>\<open>for x in xs: work.execute(INSERT INTO t, params(x))\<close>\<close>

definition insert_all :: "'db postgres \<Rightarrow> table \<Rightarrow> params list \<Rightarrow> ('db, unit) prog" where
  "insert_all pg t pss = pbind (peach (\<lambda>ps. execute pg (Insert t ps)) pss) (\<lambda>_. preturn ())"

definition get_version :: "row \<Rightarrow> exn + aggregate_version" where
  "get_version r = rbind (get_int r K_version) make_version"

definition requested_mismatch :: string where
  "requested_mismatch =
     ''persisted governance_id does not match the requested identity's governance_id for this runtime_id''"

definition aggregate_mismatch :: string where
  "aggregate_mismatch =
     ''persisted governance_id does not match the aggregate's identity for this runtime_id''"

definition stale_version :: string where
  "stale_version = ''aggregate current version is lower than expected persisted version''"

text \<open>The handler of \<^verbatim>\<open>add\<close>: a unique violation of a root constraint is a duplicate.\<close>

definition already_exists_as :: "string \<Rightarrow> string list \<Rightarrow> domain_identity \<Rightarrow> exn \<Rightarrow> exn" where
  "already_exists_as kind names i e =
     (case unique_violation_constraint_name e of
        Some name \<Rightarrow> if name \<in> set names then AggregateAlreadyExists kind i else e
      | None \<Rightarrow> e)"

text \<open>The handlers of \<^verbatim>\<open>get\<close> around the mapper and around reconstruction.\<close>

definition invalid_mapping_as :: "string \<Rightarrow> domain_identity \<Rightarrow> exn \<Rightarrow> exn" where
  "invalid_mapping_as kind i e =
     (case e of MapperError _ message _ _ \<Rightarrow> InvalidPersistedAggregateState kind message (Some i) | _ \<Rightarrow> e)"

definition invalid_reconstruction_as :: "string \<Rightarrow> domain_identity \<Rightarrow> exn \<Rightarrow> exn" where
  "invalid_reconstruction_as kind i e =
     (case e of
        ReconstructionError _ message _ \<Rightarrow> InvalidPersistedAggregateState kind message (Some i)
      | _ \<Rightarrow> e)"

definition fetch_child :: "'db postgres \<Rightarrow> domain_identity \<Rightarrow> 'a child_table \<Rightarrow> ('db, row list) prog" where
  "fetch_child pg i ch =
     execute pg (Select None (ch_table ch) [(ch_key ch, SText (run_str i))] (Some (ch_order ch)))"

definition delete_child :: "'db postgres \<Rightarrow> domain_identity \<Rightarrow> 'a child_table \<Rightarrow> ('db, row list) prog" where
  "delete_child pg i ch = execute pg (Delete (ch_table ch) [(ch_key ch, SText (run_str i))])"

definition insert_child :: "'db postgres \<Rightarrow> 'a \<Rightarrow> 'a child_table \<Rightarrow> ('db, unit) prog" where
  "insert_child pg a ch = insert_all pg (ch_table ch) (ch_rows ch a)"

definition store_get_body ::
    "'a store \<Rightarrow> 'db postgres \<Rightarrow> domain_identity \<Rightarrow> ('db, 'a loaded_aggregate) prog" where
  "store_get_body st pg i =
     pbind (execute pg (Select None (st_root st) (by_identity i) None))
     (\<lambda>rows. case rows of
        [] \<Rightarrow> pbind (execute pg (Select (Some [K_governance_id]) (st_root st) (by_runtime i) None))
          (\<lambda>diagnostic. case diagnostic of
             [] \<Rightarrow> praise (AggregateNotFound (st_kind st) i)
           | _ # _ \<Rightarrow> praise (InvalidPersistedAggregateState (st_kind st) requested_mismatch (Some i)))
      | root # _ \<Rightarrow>
          pbind (peach (fetch_child pg i) (st_children st))
          (\<lambda>child_rows. pbind (plift (st_load st i root child_rows))
          (\<lambda>a. pbind (plift (get_version root))
          (\<lambda>v. preturn \<lparr>la_aggregate = a, la_version = v\<rparr>))))"

definition store_get ::
    "'a store \<Rightarrow> 'db postgres \<Rightarrow> service \<Rightarrow> domain_identity
     \<Rightarrow> ('db exec_context, 'a loaded_aggregate) prog" where
  "store_get st pg sv i = unit_of_work pg sv (store_get_body st pg i)"

definition store_add_body :: "'a store \<Rightarrow> 'db postgres \<Rightarrow> 'a \<Rightarrow> ('db, unit) prog" where
  "store_add_body st pg a =
     pcatch (already_exists_as (st_kind st) (st_unique st) (st_identity st a))
       (pbind (execute pg (Insert (st_root st) (st_insert st a)))
        (\<lambda>_. pbind (peach (insert_child pg a) (st_children st)) (\<lambda>_. preturn ())))"

definition store_add :: "'a store \<Rightarrow> 'db postgres \<Rightarrow> service \<Rightarrow> 'a \<Rightarrow> ('db exec_context, save_result) prog" where
  "store_add st pg sv a =
     pbind (unit_of_work pg sv (store_add_body st pg a))
     (\<lambda>_. pbind (plift (make_version (st_version st a)))
     (\<lambda>v. preturn \<lparr>sr_operation = OpCreated, sr_version = v\<rparr>))"

text \<open>No row took the guarded update: find out why, and raise it.\<close>

definition diagnose_save ::
    "'a store \<Rightarrow> 'db postgres \<Rightarrow> 'a \<Rightarrow> aggregate_version \<Rightarrow> ('db, unit) prog" where
  "diagnose_save st pg a expected =
     pbind (execute pg (Select (Some [K_governance_id, K_version]) (st_root st)
              (by_runtime (st_identity st a)) None))
     (\<lambda>diagnostic. case diagnostic of
        [] \<Rightarrow> praise (AggregateNotFound (st_kind st) (st_identity st a))
      | row # _ \<Rightarrow>
          pbind (plift (get_text row K_governance_id))
          (\<lambda>g. if g \<noteq> gov_str (st_identity st a) then
                 praise (InvalidPersistedAggregateState (st_kind st) aggregate_mismatch
                           (Some (st_identity st a)))
               else
                 pbind (plift (make_version (st_version st a)))
                 (\<lambda>current. pbind (plift (get_version row))
                 (\<lambda>actual. praise (OptimisticConcurrencyConflict (st_kind st)
                    (st_identity st a) expected current (Some actual))))))"

definition store_save_body ::
    "'a store \<Rightarrow> 'db postgres \<Rightarrow> save_operation \<Rightarrow> 'a \<Rightarrow> aggregate_version \<Rightarrow> ('db, save_result) prog" where
  "store_save_body st pg intended a expected =
     pbind (execute pg (Update (st_root st) (st_set st a)
              (by_identity_and_version (st_identity st a) (version_value expected)) [K_version]))
     (\<lambda>updated. pbind
        (case updated of [] \<Rightarrow> diagnose_save st pg a expected | _ # _ \<Rightarrow> preturn ())
        (\<lambda>_. pbind
           (if intended = OpUpdated then
              pbind (peach (delete_child pg (st_identity st a)) (st_children st))
              (\<lambda>_. pbind (peach (insert_child pg a) (st_children st)) (\<lambda>_. preturn ()))
            else preturn ())
        (\<lambda>_. pbind (plift (make_version (st_version st a)))
        (\<lambda>v. preturn \<lparr>sr_operation = intended, sr_version = v\<rparr>))))"

definition store_save ::
    "'a store \<Rightarrow> 'db postgres \<Rightarrow> service \<Rightarrow> 'a \<Rightarrow> aggregate_version
     \<Rightarrow> ('db exec_context, save_result) prog" where
  "store_save st pg sv a expected =
     (if st_version st a < version_value expected then
        praise (InvalidAggregateForPersistence (st_kind st) stale_version (Some (st_identity st a)))
      else
        let intended = (if st_version st a = version_value expected then OpUnchanged else OpUpdated)
        in unit_of_work pg sv (store_save_body st pg intended a expected))"

section \<open>What a repository owes to its tables\<close>

definition aware_params :: "params \<Rightarrow> bool" where
  "aware_params ps \<longleftrightarrow> (\<forall>(c, v) \<in> set ps. case v of STime d \<Rightarrow> is_aware d | _ \<Rightarrow> True)"

lemma aware_stored: "(case v of STime d \<Rightarrow> is_aware d | _ \<Rightarrow> True) \<Longrightarrow> stored tz v = v"
  by (induction tz v rule: stored.induct) (auto split: sqlval.splits)

lemma stored_row_aware: "aware_params ps \<Longrightarrow> stored_row tz ps = map_of ps"
proof (rule ext)
  fix c
  assume "aware_params ps"
  then have "stored tz v = v" if "map_of ps c = Some v" for v
    using map_of_SomeD[OF that] by (intro aware_stored) (auto simp: aware_params_def)
  then show "stored_row tz ps c = map_of ps c"
    by (cases "map_of ps c") (simp_all add: stored_row_def)
qed

definition rows_of :: "'a child_table \<Rightarrow> 'a \<Rightarrow> row list" where
  "rows_of ch a = map map_of (ch_rows ch a)"

text \<open>The aggregate \<open>a\<close> is what the tables hold for its identity.\<close>

definition holds :: "'a store \<Rightarrow> tables \<Rightarrow> 'a \<Rightarrow> bool" where
  "holds st T a \<longleftrightarrow>
     map_of (st_insert st a) \<in># T (st_root st)
     \<and> (\<forall>ch \<in> set (st_children st).
          {#r \<in># T (ch_table ch). r (ch_key ch) = Some (SText (run_str (st_identity st a)))#}
            = mset (rows_of ch a))"

text \<open>Tables that differ in the aggregate of one identity only: it becomes \<open>a\<close>.\<close>

definition replaced :: "'a store \<Rightarrow> ('a \<Rightarrow> bool) \<Rightarrow> tables \<Rightarrow> 'a \<Rightarrow> tables \<Rightarrow> bool" where
  "replaced st valid T a T' \<longleftrightarrow>
     schema_ok T'
     \<and> (\<forall>t. t \<noteq> st_root st \<and> t \<notin> ch_table ` set (st_children st) \<longrightarrow> T' t = T t)
     \<and> (\<forall>b. valid b \<longrightarrow>
          holds st T' b = (if st_identity st b = st_identity st a then b = a else holds st T b))"

locale store_shape =
  fixes st :: "'a store" and cls :: id_class and valid :: "'a \<Rightarrow> bool"
  assumes identity_class: "valid a \<Longrightarrow> identity_ok cls (st_identity st a)"
    and version_range: "valid a \<Longrightarrow> 0 \<le> st_version st a"
    and root_columns:
      "column_type (st_root st) K_runtime_id = Some Uuid"
      "column_type (st_root st) K_governance_id = Some Text"
      "column_type (st_root st) K_version = Some Integer"
    and root_keys:
      "\<exists>n. (n, [K_runtime_id]) \<in> set (unique_keys (st_root st))"
      "(n, ks) \<in> set (unique_keys (st_root st)) \<Longrightarrow> n \<in> set (st_unique st)
       \<Longrightarrow> ks = [K_runtime_id] \<or> ks = [K_governance_id]"
    and root_row:
      "valid a \<Longrightarrow> stmt_ok (Insert (st_root st) (st_insert st a))"
      "valid a \<Longrightarrow> aware_params (st_insert st a)"
      "valid a \<Longrightarrow> map_of (st_insert st a) K_runtime_id = Some (SText (run_str (st_identity st a)))"
      "valid a \<Longrightarrow> map_of (st_insert st a) K_governance_id = Some (SText (gov_str (st_identity st a)))"
      "valid a \<Longrightarrow> map_of (st_insert st a) K_version = Some (SInt (st_version st a))"
    and root_update:
      "valid a \<Longrightarrow> params_typed (st_root st) (st_set st a)"
      "valid a \<Longrightarrow> aware_params (st_set st a)"
      "valid a \<Longrightarrow> valid b \<Longrightarrow> st_identity st b = st_identity st a
       \<Longrightarrow> map_of (st_insert st b) ++ map_of (st_set st a) = map_of (st_insert st a)"
      "valid a \<Longrightarrow> K_runtime_id \<notin> fst ` set (st_set st a) \<and> K_governance_id \<notin> fst ` set (st_set st a)"
    and child_tables:
      "distinct (map ch_table (st_children st))" "st_root st \<notin> ch_table ` set (st_children st)"
      "ch \<in> set (st_children st) \<Longrightarrow> (ch_key ch, st_root st, K_runtime_id) \<in> set (foreign_keys (ch_table ch))"
      "ch \<in> set (st_children st) \<Longrightarrow> column_type (ch_table ch) (ch_key ch) = Some Uuid"
    and child_rows:
      "valid a \<Longrightarrow> ch \<in> set (st_children st) \<Longrightarrow> ps \<in> set (ch_rows ch a) \<Longrightarrow> stmt_ok (Insert (ch_table ch) ps)"
      "valid a \<Longrightarrow> ch \<in> set (st_children st) \<Longrightarrow> ps \<in> set (ch_rows ch a) \<Longrightarrow> aware_params ps"
      "valid a \<Longrightarrow> ch \<in> set (st_children st) \<Longrightarrow> ps \<in> set (ch_rows ch a)
       \<Longrightarrow> map_of ps (ch_key ch) = Some (SText (run_str (st_identity st a)))"
      "valid a \<Longrightarrow> ch \<in> set (st_children st)
       \<Longrightarrow> sorted_wrt (<) (map (\<lambda>r. int_value (r (ch_order ch))) (rows_of ch a))"
    and load_back:
      "valid a \<Longrightarrow> st_load st (st_identity st a) (map_of (st_insert st a))
         (map (\<lambda>ch. rows_of ch a) (st_children st)) = Inr a"
begin

lemma runtime_typed: "valid a \<Longrightarrow> uuid4_canonical (run_str (st_identity st a))"
  using identity_class[of a]
  by (cases "runtime_id (st_identity st a)") (simp add: identity_ok_def)

lemma by_runtime_ok: "valid a \<Longrightarrow> params_typed (st_root st) (by_runtime (st_identity st a))"
  by (simp add: params_typed_def by_runtime_def root_columns runtime_typed)

lemma by_identity_ok: "valid a \<Longrightarrow> params_typed (st_root st) (by_identity (st_identity st a))"
  by (simp add: params_typed_def by_identity_def root_columns runtime_typed)

lemma by_identity_and_version_ok:
  "valid a \<Longrightarrow> params_typed (st_root st) (by_identity_and_version (st_identity st a) v)"
  by (simp add: params_typed_def by_identity_and_version_def root_columns runtime_typed)

lemma child_key_ok:
  "valid a \<Longrightarrow> ch \<in> set (st_children st)
   \<Longrightarrow> params_typed (ch_table ch) [(ch_key ch, SText (run_str (st_identity st a)))]"
  by (simp add: params_typed_def child_tables runtime_typed)

text \<open>The rows of one runtime identifier in the root table: at most one.\<close>

lemma root_row_alone:
  assumes "schema_ok T" "r \<in># T (st_root st)" "r K_runtime_id = Some (SText v)"
  shows "{#r' \<in># T (st_root st). r' K_runtime_id = Some (SText v)#} = {#r#}"
proof -
  obtain n where "(n, [K_runtime_id]) \<in> set (unique_keys (st_root st))"
    using root_keys(1) by blast
  from schema_ok_unique[OF assms(1) this] assms(2,3) show ?thesis
    by (intro unique_ok_single) simp_all
qed

lemma root_row_unique:
  assumes "schema_ok T" "r \<in># T (st_root st)" "r' \<in># T (st_root st)"
    "r K_runtime_id = Some (SText v)" "r' K_runtime_id = Some (SText v)"
  shows "r' = r"
proof -
  have "r' \<in># {#x \<in># T (st_root st). x K_runtime_id = Some (SText v)#}"
    using assms by simp
  then show ?thesis
    using root_row_alone[OF assms(1,2,4)] by simp
qed

lemma holds_same_runtime:
  assumes "schema_ok T" "valid a" "valid b" "holds st T a" "holds st T b"
    "run_str (st_identity st b) = run_str (st_identity st a)"
  shows "st_identity st b = st_identity st a"
proof -
  have "map_of (st_insert st b) = map_of (st_insert st a)"
    using assms by (intro root_row_unique[OF assms(1)]) (simp_all add: holds_def root_row)
  then have "gov_str (st_identity st b) = gov_str (st_identity st a)"
    using root_row(4)[OF assms(2)] root_row(4)[OF assms(3)] by simp
  with assms show ?thesis
    using identity_eqI[OF identity_class identity_class] by blast
qed

text \<open>Sorting undoes the loss of order in a table.\<close>

lemma sorted_rows_unique:
  assumes "sorted_wrt (<) (map key ys)" "sorted (map key xs)" "mset xs = mset ys"
  shows "xs = (ys :: row list)"
proof -
  have "mset (map key xs) = mset (map key ys)"
    using assms(3) by simp
  moreover have "sorted (map key ys)" "distinct (map key ys)"
    using assms(1) by (simp_all add: strict_sorted_iff)
  ultimately have "map key xs = map key ys"
    using assms(2) by (metis properties_for_sort)
  moreover have "inj_on key (set ys)"
    using assms(1) by (simp add: strict_sorted_iff distinct_map)
  ultimately show ?thesis
    using mset_eq_setD[OF assms(3)] by (metis map_inj_on Un_absorb)
qed

lemma holds_unique:
  assumes "schema_ok T" "valid a" "valid b" "holds st T a" "holds st T b"
    "st_identity st b = st_identity st a"
  shows "b = a"
proof -
  have "map_of (st_insert st b) = map_of (st_insert st a)"
    using assms by (intro root_row_unique[OF assms(1)]) (simp_all add: holds_def root_row)
  moreover have "rows_of ch b = rows_of ch a" if "ch \<in> set (st_children st)" for ch
  proof (rule sorted_rows_unique)
    show "sorted_wrt (<) (map (\<lambda>r. int_value (r (ch_order ch))) (rows_of ch a))"
      using assms(2) that by (rule child_rows(4))
    show "sorted (map (\<lambda>r. int_value (r (ch_order ch))) (rows_of ch b))"
      using child_rows(4)[OF assms(3) that] by (simp add: strict_sorted_iff)
    show "mset (rows_of ch b) = mset (rows_of ch a)"
      using assms that by (auto simp: holds_def)
  qed
  ultimately have "(Inr b :: exn + 'a) = Inr a"
    using load_back[OF assms(2)] load_back[OF assms(3)] assms(6)
    by (metis (no_types, lifting) map_eq_conv)
  then show ?thesis by simp
qed

end

section \<open>Runs of inserts and deletes\<close>

context postgres_server
begin

lemma insert_all_effect:
  assumes "\<forall>ps \<in> set pss. stmt_ok (Insert t ps) \<and> aware_params ps"
    "insert_all pg t pss db = (Inr u, db')"
  shows "tab db' = (tab db)(t := mset (map map_of pss) + tab db t)
     \<and> (schema_ok (tab db) \<longrightarrow> schema_ok (tab db'))"
proof -
  from assms(2) obtain us where "peach (\<lambda>ps. execute pg (Insert t ps)) pss db = (Inr us, db')"
    by (auto simp: insert_all_def pbind_Inr_iff)
  with assms(1) show ?thesis
  proof (induction pss arbitrary: db us)
    case (Cons ps pss)
    from Cons.prems(2) obtain x db1 vs where
      one: "pg_exec pg db (Insert t ps) = (Inr x, db1)" and
      rest: "peach (\<lambda>ps. execute pg (Insert t ps)) pss db1 = (Inr vs, db')"
      by (auto simp: pbind_Inr_iff)
    have ps: "stmt_ok (Insert t ps)" "aware_params ps" and pss: "\<forall>ps \<in> set pss. stmt_ok (Insert t ps) \<and> aware_params ps"
      using Cons.prems(1) by auto
    have "tab db1 = (tab db)(t := add_mset (map_of ps) (tab db t))"
      using insert_effect[OF ps(1) one] by (simp add: stored_row_aware ps(2))
    with Cons.IH[OF pss rest] schema_kept[OF ps(1) one] show ?case
      by (auto simp: fun_upd_def ac_simps intro!: ext)
  qed (simp add: fun_upd_idem)
qed

lemma insert_children_effect:
  assumes "\<forall>ch \<in> set chs. \<forall>ps \<in> set (ch_rows ch a). stmt_ok (Insert (ch_table ch) ps) \<and> aware_params ps"
    "distinct (map ch_table chs)"
    "peach (insert_child pg a) chs db = (Inr us, db')"
  shows "(\<forall>ch \<in> set chs. tab db' (ch_table ch) = mset (rows_of ch a) + tab db (ch_table ch))
     \<and> (\<forall>t. t \<notin> ch_table ` set chs \<longrightarrow> tab db' t = tab db t)
     \<and> (schema_ok (tab db) \<longrightarrow> schema_ok (tab db'))"
  using assms
proof (induction chs arbitrary: db us)
  case (Cons ch chs)
  from Cons.prems(3) obtain x db1 vs where
    "insert_child pg a ch db = (Inr x, db1)" and
    rest: "peach (insert_child pg a) chs db1 = (Inr vs, db')"
    by (auto simp: pbind_Inr_iff)
  then have one: "insert_all pg (ch_table ch) (ch_rows ch a) db = (Inr x, db1)"
    by (simp add: insert_child_def)
  have "\<forall>ps \<in> set (ch_rows ch a). stmt_ok (Insert (ch_table ch) ps) \<and> aware_params ps"
    using Cons.prems(1) by (simp del: stmt_ok.simps)
  from insert_all_effect[OF this one]
  have "tab db1 = (tab db)(ch_table ch := mset (rows_of ch a) + tab db (ch_table ch))
     \<and> (schema_ok (tab db) \<longrightarrow> schema_ok (tab db1))"
    unfolding rows_of_def .
  moreover have "(\<forall>ch \<in> set chs. tab db' (ch_table ch) = mset (rows_of ch a) + tab db1 (ch_table ch))
     \<and> (\<forall>t. t \<notin> ch_table ` set chs \<longrightarrow> tab db' t = tab db1 t)
     \<and> (schema_ok (tab db1) \<longrightarrow> schema_ok (tab db'))"
    using Cons.IH[OF _ _ rest] Cons.prems(1,2) by simp
  ultimately show ?case
    using Cons.prems(2) by (auto simp: image_iff)
qed simp

lemma delete_children_effect:
  assumes "\<forall>ch \<in> set chs. params_typed (ch_table ch) [(ch_key ch, SText (run_str i))]"
    "distinct (map ch_table chs)"
    "peach (delete_child pg i) chs db = (Inr us, db')"
  shows "(\<forall>ch \<in> set chs. tab db' (ch_table ch)
            = {#r \<in># tab db (ch_table ch). r (ch_key ch) \<noteq> Some (SText (run_str i))#})
     \<and> (\<forall>t. t \<notin> ch_table ` set chs \<longrightarrow> tab db' t = tab db t)
     \<and> (schema_ok (tab db) \<longrightarrow> schema_ok (tab db'))"
  using assms
proof (induction chs arbitrary: db us)
  case (Cons ch chs)
  let ?s = "Delete (ch_table ch) [(ch_key ch, SText (run_str i))]"
  from Cons.prems(3) obtain x db1 vs where
    "delete_child pg i ch db = (Inr x, db1)" and
    rest: "peach (delete_child pg i) chs db1 = (Inr vs, db')"
    by (auto simp: pbind_Inr_iff)
  then have one: "pg_exec pg db ?s = (Inr x, db1)"
    by (simp add: delete_child_def)
  have ok: "stmt_ok ?s"
    using Cons.prems(1) by simp
  have "tab db1 = (tab db)(ch_table ch :=
          {#r \<in># tab db (ch_table ch). r (ch_key ch) \<noteq> Some (SText (run_str i))#})"
    using delete_effect[OF ok one] by (simp add: matches_def)
  moreover have "(\<forall>ch \<in> set chs. tab db' (ch_table ch)
            = {#r \<in># tab db1 (ch_table ch). r (ch_key ch) \<noteq> Some (SText (run_str i))#})
     \<and> (\<forall>t. t \<notin> ch_table ` set chs \<longrightarrow> tab db' t = tab db1 t)
     \<and> (schema_ok (tab db1) \<longrightarrow> schema_ok (tab db'))"
    using Cons.IH[OF _ _ rest] Cons.prems(1,2) by simp
  ultimately show ?case
    using Cons.prems(2) schema_kept[OF ok one] by (auto simp: image_iff)
qed simp

end

section \<open>The contract, on the transaction's view\<close>

locale stored_aggregate = store_shape st cls valid + postgres_server pg tab tz
  for st :: "'a store" and cls and valid and pg :: "'db postgres" and tab and tz
begin

text \<open>Reading.\<close>

lemma fetch_child_effect:
  assumes "holds st (tab db) a" "valid a" "ch \<in> set (st_children st)"
    "fetch_child pg (st_identity st a) ch db = (Inr rows, db')"
  shows "tab db' = tab db \<and> rows = rows_of ch a"
proof -
  let ?w = "[(ch_key ch, SText (run_str (st_identity st a)))]"
  have ok: "stmt_ok (Select None (ch_table ch) ?w (Some (ch_order ch)))"
    using child_key_ok[OF assms(2,3)] by simp
  from select_effect[OF ok, of db rows db'] assms(4)
  have eff: "tab db' = tab db" "mset rows = {#r \<in># tab db (ch_table ch). matches ?w r#}"
    "in_order (Some (ch_order ch)) rows"
    by (auto simp: fetch_child_def)
  have "mset rows = mset (rows_of ch a)"
    using eff(2) assms(1,3) by (simp add: matches_def holds_def)
  moreover have "sorted (map (\<lambda>r. int_value (r (ch_order ch))) rows)"
    using eff(3) by (simp add: in_order_def)
  ultimately have "rows = rows_of ch a"
    using child_rows(4)[OF assms(2,3)] by (intro sorted_rows_unique)
  with eff(1) show ?thesis by simp
qed

lemma fetch_children_effect:
  assumes "holds st (tab db) a" "valid a" "set chs \<subseteq> set (st_children st)"
    "peach (fetch_child pg (st_identity st a)) chs db = (Inr rows, db')"
  shows "tab db' = tab db \<and> rows = map (\<lambda>ch. rows_of ch a) chs"
  using assms
proof (induction chs arbitrary: db rows)
  case (Cons ch chs)
  from Cons.prems(4) obtain x db1 xs where
    one: "fetch_child pg (st_identity st a) ch db = (Inr x, db1)" and
    rest: "peach (fetch_child pg (st_identity st a)) chs db1 = (Inr xs, db')" and rows: "rows = x # xs"
    by (auto simp: pbind_Inr_iff)
  have "tab db1 = tab db \<and> x = rows_of ch a"
    using fetch_child_effect[OF Cons.prems(1,2) _ one] Cons.prems(3) by simp
  moreover have "tab db' = tab db1 \<and> xs = map (\<lambda>ch. rows_of ch a) chs"
    using Cons.IH[OF _ Cons.prems(2) _ rest] Cons.prems(1,3) calculation by simp
  ultimately show ?case using rows by simp
qed simp

lemma root_select_effect:
  assumes "schema_ok (tab db)" "holds st (tab db) a" "valid a"
    "pg_exec pg db (Select None (st_root st) (by_identity (st_identity st a)) None) = (Inr rows, db')"
  shows "tab db' = tab db \<and> rows = [map_of (st_insert st a)]"
proof -
  have ok: "stmt_ok (Select None (st_root st) (by_identity (st_identity st a)) None)"
    using by_identity_ok[OF assms(3)] by simp
  let ?root = "map_of (st_insert st a)"
  let ?rid = "run_str (st_identity st a)" and ?gid = "gov_str (st_identity st a)"
  have "{#r \<in># tab db (st_root st). matches (by_identity (st_identity st a)) r#}
      = {#r \<in># {#r \<in># tab db (st_root st). r K_runtime_id = Some (SText ?rid)#}.
           r K_governance_id = Some (SText ?gid)#}"
    by (simp add: filter_filter_mset matches_def by_identity_def conj_commute)
  also have "\<dots> = {#?root#}"
    using root_row_alone[OF assms(1), of ?root] assms(2,3) root_row
    by (simp add: holds_def)
  finally show ?thesis
    using select_effect[OF ok assms(4)] by auto
qed

lemma fetch_children_Inl:
  "peach (fetch_child pg i) chs db = (Inl e, db')
   \<Longrightarrow> \<exists>err. e = translate_persistence_error err ''execute''"
  by (induction chs arbitrary: db) (auto simp: pbind_Inl_iff fetch_child_def execute_Inl)

lemma get_body_held:
  assumes "schema_ok (tab db)" "holds st (tab db) a" "valid a"
    "store_get_body st pg (st_identity st a) db = (r, db')"
  shows "(r = Inr \<lparr>la_aggregate = a, la_version = AggregateVersion (st_version st a)\<rparr> \<and> tab db' = tab db)
     \<or> (\<exists>err. r = Inl (translate_persistence_error err ''execute''))"
proof -
  let ?i = "st_identity st a" and ?root = "map_of (st_insert st a)"
  have load: "st_load st ?i ?root (map (\<lambda>ch. rows_of ch a) (st_children st)) = Inr a"
    using assms(3) by (rule load_back)
  have version: "get_version ?root = Inr (AggregateVersion (st_version st a))"
    using root_row(5)[OF assms(3)] version_range[OF assms(3)]
    by (simp add: get_version_def make_version_def)
  obtain r1 db1 where first: "execute pg (Select None (st_root st) (by_identity ?i) None) db = (r1, db1)"
    by fastforce
  show ?thesis
  proof (cases r1)
    case (Inl e)
    then have "store_get_body st pg ?i db = (Inl e, db1)"
      unfolding store_get_body_def using first by (intro pbind_Inl_step) simp
    with first Inl assms(4) show ?thesis by (auto simp: execute_Inl)
  next
    case (Inr rows)
    with first have one: "tab db1 = tab db" "rows = [?root]"
      using root_select_effect[OF assms(1-3)] by auto
    obtain r2 db2 where kids: "peach (fetch_child pg ?i) (st_children st) db1 = (r2, db2)"
      by fastforce
    have get: "store_get_body st pg ?i db
        = pbind (peach (fetch_child pg ?i) (st_children st))
            (\<lambda>xs. pbind (plift (st_load st ?i ?root xs)) (\<lambda>a. pbind (plift (get_version ?root))
              (\<lambda>v. preturn \<lparr>la_aggregate = a, la_version = v\<rparr>))) db1"
      unfolding store_get_body_def pbind_Inr_step[where
        m = "execute pg (Select None (st_root st) (by_identity ?i) None)" and s = db, OF first[unfolded Inr]] by (simp add: one(2))
    show ?thesis
    proof (cases r2)
      case (Inl e)
      then have "r = Inl e"
        using assms(4) unfolding get pbind_Inl_step[where
            m = "peach (fetch_child pg ?i) (st_children st)" and s = db1, OF kids[unfolded Inl]] by simp
      moreover have "\<exists>err. e = translate_persistence_error err ''execute''"
        using fetch_children_Inl[OF kids[unfolded Inl]] .
      ultimately show ?thesis by blast
    next
      case (Inr xs)
      with kids have "tab db2 = tab db1" "xs = map (\<lambda>ch. rows_of ch a) (st_children st)"
        using fetch_children_effect[of db1 a "st_children st" xs db2] assms(2,3) one(1) by auto
      with assms(4) load version one(1) show ?thesis
        unfolding get pbind_Inr_step[where
            m = "peach (fetch_child pg ?i) (st_children st)" and s = db1, OF kids[unfolded Inr]]
        by (simp add: pbind_def plift_def preturn_def)
    qed
  qed
qed

end

section \<open>The contract of add and save, on the transaction's view\<close>

context store_shape
begin

lemma replacedI:
  assumes "schema_ok T'" "valid a" "holds st T' a"
    and frame: "\<And>t. t \<noteq> st_root st \<Longrightarrow> t \<notin> ch_table ` set (st_children st) \<Longrightarrow> T' t = T t"
    and roots: "\<And>r. r K_runtime_id \<noteq> Some (SText (run_str (st_identity st a)))
       \<Longrightarrow> r \<in># T' (st_root st) \<longleftrightarrow> r \<in># T (st_root st)"
    and kids: "\<And>ch v. ch \<in> set (st_children st) \<Longrightarrow> v \<noteq> run_str (st_identity st a)
       \<Longrightarrow> {#r \<in># T' (ch_table ch). r (ch_key ch) = Some (SText v)#}
         = {#r \<in># T (ch_table ch). r (ch_key ch) = Some (SText v)#}"
    and old: "\<And>b. valid b \<Longrightarrow> holds st T b \<Longrightarrow> run_str (st_identity st b) = run_str (st_identity st a)
       \<Longrightarrow> st_identity st b = st_identity st a"
  shows "replaced st valid T a T'"
proof -
  have "holds st T' b = (if st_identity st b = st_identity st a then b = a else holds st T b)"
    if "valid b" for b
  proof (cases "st_identity st b = st_identity st a")
    case True
    then show ?thesis
      using holds_unique[OF assms(1,2) that assms(3)] assms(3) by auto
  next
    case False
    let ?v = "run_str (st_identity st b)"
    have "?v \<noteq> run_str (st_identity st a)" if "holds st T' b \<or> holds st T b"
      using that False old[OF \<open>valid b\<close>] holds_same_runtime[OF assms(1,2) \<open>valid b\<close> assms(3)] by blast
    moreover have "holds st T' b \<longleftrightarrow> holds st T b" if "?v \<noteq> run_str (st_identity st a)"
    proof -
      have "map_of (st_insert st b) K_runtime_id \<noteq> Some (SText (run_str (st_identity st a)))"
        using that root_row(3)[OF \<open>valid b\<close>] by simp
      then have "map_of (st_insert st b) \<in># T' (st_root st) \<longleftrightarrow> map_of (st_insert st b) \<in># T (st_root st)"
        by (intro roots)
      with kids[OF _ that] show ?thesis
        by (simp add: holds_def)
    qed
    ultimately show ?thesis
      using False by auto
  qed
  with assms(1) frame show ?thesis
    by (simp add: replaced_def)
qed

end

context stored_aggregate
begin

lemma children_ok:
  assumes "valid a"
  shows "\<forall>ch \<in> set (st_children st). \<forall>ps \<in> set (ch_rows ch a).
           stmt_ok (Insert (ch_table ch) ps) \<and> aware_params ps"
  using child_rows(1,2)[OF assms] by blast

lemma rows_of_key:
  assumes "valid a" "ch \<in> set (st_children st)"
  shows "{#r \<in># mset (rows_of ch a). r (ch_key ch) = Some (SText v)#}
       = (if v = run_str (st_identity st a) then mset (rows_of ch a) else {#})"
proof -
  have "\<forall>r \<in># mset (rows_of ch a). r (ch_key ch) = Some (SText (run_str (st_identity st a)))"
    using child_rows(3)[OF assms] by (auto simp: rows_of_def)
  then show ?thesis
    by (auto simp: filter_mset_eq_conv filter_mset_none)
qed

lemma add_body_effect:
  assumes "schema_ok (tab db)" "valid a" "store_add_body st pg a db = (Inr u, db')"
  shows "replaced st valid (tab db) a (tab db')
     \<and> (\<forall>b. valid b \<longrightarrow> holds st (tab db) b \<longrightarrow> st_identity st b \<noteq> st_identity st a)"
proof -
  let ?R = "map_of (st_insert st a)" and ?rid = "run_str (st_identity st a)"
  let ?T = "tab db" and ?T' = "tab db'"
  obtain x db1 us where ins: "pg_exec pg db (Insert (st_root st) (st_insert st a)) = (Inr x, db1)"
    and kids: "peach (insert_child pg a) (st_children st) db1 = (Inr us, db')"
    using assms(3) by (auto simp: store_add_body_def pbind_Inr_iff)
  have T1: "tab db1 = ?T(st_root st := add_mset ?R (?T (st_root st)))"
    using insert_effect[OF root_row(1)[OF assms(2)] ins] root_row(2)[OF assms(2)]
    by (simp add: stored_row_aware)
  have ok1: "schema_ok (tab db1)"
    using schema_kept[OF root_row(1)[OF assms(2)] ins assms(1)] .
  note T' = insert_children_effect[OF children_ok[OF assms(2)] child_tables(1) kids]
  have ok': "schema_ok ?T'" using T' ok1 by blast
  have root': "?T' (st_root st) = add_mset ?R (?T (st_root st))"
    using T' T1 child_tables(2) by simp
  have kid': "?T' (ch_table ch) = mset (rows_of ch a) + ?T (ch_table ch)"
    if "ch \<in> set (st_children st)" for ch
  proof -
    have "ch_table ch \<noteq> st_root st"
      using child_tables(2) that by (metis image_eqI)
    with T' T1 that show ?thesis by simp
  qed
  have "{#r \<in># tab db1 (st_root st). r K_runtime_id = Some (SText ?rid)#} = {#?R#}"
    using root_row(3)[OF assms(2)] T1 by (intro root_row_alone[OF ok1]) simp_all
  then have fresh: "r K_runtime_id \<noteq> Some (SText ?rid)" if "r \<in># ?T (st_root st)" for r
    using that T1 root_row(3)[OF assms(2)] by (auto simp: filter_mset_none)
  have fresh_kid: "r (ch_key ch) \<noteq> Some (SText ?rid)"
    if "ch \<in> set (st_children st)" "r \<in># ?T (ch_table ch)" for ch r
    using schema_ok_reference[OF assms(1) child_tables(3)[OF that(1)]] that(2) fresh
    by (fastforce simp: reference_ok_in_def)
  have held: "holds st ?T' a"
    using root' kid' rows_of_key[OF assms(2)] fresh_kid
    by (auto simp: holds_def filter_mset_none)
  have "replaced st valid ?T a ?T'"
  proof (rule replacedI[OF ok' assms(2) held])
    show "?T' t = ?T t" if "t \<noteq> st_root st" "t \<notin> ch_table ` set (st_children st)" for t
      using that T' T1 by simp
    show "r \<in># ?T' (st_root st) \<longleftrightarrow> r \<in># ?T (st_root st)"
      if "r K_runtime_id \<noteq> Some (SText ?rid)" for r
      using that root' root_row(3)[OF assms(2)] by auto
    show "{#r \<in># ?T' (ch_table ch). r (ch_key ch) = Some (SText v)#}
        = {#r \<in># ?T (ch_table ch). r (ch_key ch) = Some (SText v)#}"
      if "ch \<in> set (st_children st)" "v \<noteq> ?rid" for ch v
      using that rows_of_key[OF assms(2) that(1), of v] kid'[OF that(1)] by simp
    show "st_identity st b = st_identity st a"
      if "valid b" "holds st ?T b" "run_str (st_identity st b) = ?rid" for b
      using that fresh[of "map_of (st_insert st b)"] root_row(3)[OF that(1)] by (simp add: holds_def)
  qed
  moreover have "st_identity st b \<noteq> st_identity st a" if "valid b" "holds st ?T b" for b
    using that fresh[of "map_of (st_insert st b)"] root_row(3)[OF that(1)] by (auto simp: holds_def)
  ultimately show ?thesis by blast
qed

text \<open>The guarded update: it changes the row of the identity, and only at the expected version.\<close>

lemma guarded_update:
  assumes "schema_ok (tab db)" "valid a" "valid b" "holds st (tab db) b"
    "st_identity st b = st_identity st a"
    "pg_exec pg db (Update (st_root st) (st_set st a)
       (by_identity_and_version (st_identity st a) v) ret) = (Inr rows, db')"
  shows "schema_ok (tab db')" "\<And>t. t \<noteq> st_root st \<Longrightarrow> tab db' t = tab db t"
    "rows = [] \<longleftrightarrow> st_version st b \<noteq> v" "rows = [] \<Longrightarrow> tab db' = tab db"
    "rows \<noteq> [] \<Longrightarrow> map_of (st_insert st a) \<in># tab db' (st_root st)"
    "\<And>r. r K_runtime_id \<noteq> Some (SText (run_str (st_identity st a)))
       \<Longrightarrow> r \<in># tab db' (st_root st) \<longleftrightarrow> r \<in># tab db (st_root st)"
    "b = a \<Longrightarrow> tab db' = tab db"
proof -
  let ?w = "by_identity_and_version (st_identity st a) v"
  let ?s = "Update (st_root st) (st_set st a) ?w ret"
  let ?R = "map_of (st_insert st b)" and ?rid = "run_str (st_identity st a)"
  let ?T = "tab db" and ?T' = "tab db'"
  let ?f = "\<lambda>r. if matches ?w r then r ++ map_of (st_set st a) else r"
  have ok: "stmt_ok ?s"
    using root_update(1)[OF assms(2)] by_identity_and_version_ok[OF assms(2)] by simp
  show ok': "schema_ok ?T'"
    using schema_kept[OF ok assms(6,1)] .
  have set: "stored_row tz (st_set st a) = map_of (st_set st a)"
    using root_update(2)[OF assms(2)] by (rule stored_row_aware)
  from update_effect[OF ok assms(6)]
  have T': "?T' = ?T(st_root st := image_mset ?f (?T (st_root st)))"
    and len: "length rows = size {#r \<in># ?T (st_root st). matches ?w r#}"
    unfolding set by simp_all
  show "\<And>t. t \<noteq> st_root st \<Longrightarrow> ?T' t = ?T t"
    using T' by simp
  have R: "?R \<in># ?T (st_root st)" "?R K_runtime_id = Some (SText ?rid)"
    using assms(3-5) root_row(3)[OF assms(3)] by (auto simp: holds_def)
  have matched: "r = ?R" if "r \<in># ?T (st_root st)" "matches ?w r" for r
    using that R by (intro root_row_unique[OF assms(1), of ?R r]) (auto simp: matches_def by_identity_and_version_def)
  have R_matches: "matches ?w ?R \<longleftrightarrow> st_version st b = v"
    using root_row(3-5)[OF assms(3)] assms(5) by (simp add: matches_def by_identity_and_version_def)
  show empty: "rows = [] \<longleftrightarrow> st_version st b \<noteq> v"
  proof -
    have "rows = [] \<longleftrightarrow> (\<forall>r \<in># ?T (st_root st). \<not> matches ?w r)"
      using len by (metis filter_mset_none length_0_conv size_eq_0_iff_empty)
    also have "\<dots> \<longleftrightarrow> \<not> matches ?w ?R"
      using matched R(1) by blast
    finally show ?thesis using R_matches by simp
  qed
  show "?T' = ?T" if "rows = []"
  proof -
    have "image_mset ?f (?T (st_root st)) = ?T (st_root st)"
      using that empty matched R_matches by (intro image_mset_fixed) auto
    then show ?thesis using T' by simp
  qed
  have new_R: "?R ++ map_of (st_set st a) = map_of (st_insert st a)"
    using assms(2,3,5) by (rule root_update(3))
  show "map_of (st_insert st a) \<in># ?T' (st_root st)" if "rows \<noteq> []"
  proof -
    have "?f ?R = map_of (st_insert st a)"
      using that empty R_matches new_R by simp
    moreover have "?f ?R \<in># ?T' (st_root st)"
      unfolding T' fun_upd_same set_image_mset using R(1) by (rule imageI)
    ultimately show ?thesis by (simp only:)
  qed
  show "r \<in># ?T' (st_root st) \<longleftrightarrow> r \<in># ?T (st_root st)" if r: "r K_runtime_id \<noteq> Some (SText ?rid)" for r
  proof -
    have "(q ++ map_of (st_set st a)) K_runtime_id = q K_runtime_id" for q
      using root_update(4)[OF assms(2)] by (simp add: map_add_dom_app_simps dom_map_of_conv_image_fst)
    moreover have "q K_runtime_id = Some (SText ?rid)" if "matches ?w q" for q
      using that by (simp add: matches_def by_identity_and_version_def)
    ultimately show ?thesis
      using r T' by (auto simp: image_iff split: if_splits)
  qed
  show "?T' = ?T" if "b = a"
  proof -
    have "image_mset ?f (?T (st_root st)) = ?T (st_root st)"
      using that matched new_R by (intro image_mset_fixed) auto
    then show ?thesis using T' by simp
  qed
qed

end

end
