(* ===== verification/Repository.thy ===== *)
theory Repository
  imports Store
begin

text \<open>
  The repository contract as the use cases see it: the locale \<open>aggregate_repository\<close> over any
  state, with what \<^verbatim>\<open>get\<close>, \<^verbatim>\<open>add\<close> and \<^verbatim>\<open>save\<close> promise, and the proof that every stored
  aggregate on a PostgreSQL server gives one (\<open>repository_on_server\<close>).
\<close>

section \<open>Saving, on the transaction's view\<close>

lemma diagnose_save_raises: "diagnose_save st pg a expected db \<noteq> (Inr u, db')"
  by (auto simp: diagnose_save_def pbind_Inr_iff split: list.splits if_splits)

context stored_aggregate
begin

lemma runtime_select_effect:
  assumes "schema_ok (tab db)" "holds st (tab db) a" "valid a"
    "pg_exec pg db (Select cs (st_root st) (by_runtime (st_identity st a)) None) = (Inr rows, db')"
  shows "tab db' = tab db \<and> rows = [project cs (map_of (st_insert st a))]"
proof -
  have ok: "stmt_ok (Select cs (st_root st) (by_runtime (st_identity st a)) None)"
    using by_runtime_ok[OF assms(3)] by simp
  have "{#r \<in># tab db (st_root st). matches (by_runtime (st_identity st a)) r#} = {#map_of (st_insert st a)#}"
    using root_row_alone[OF assms(1), of "map_of (st_insert st a)"] assms(2,3) root_row(3)
    by (simp add: holds_def matches_def by_runtime_def)
  then show ?thesis
    using select_effect[OF ok assms(4)] by auto
qed

lemma diagnose_save_held:
  assumes "schema_ok (tab db)" "valid a" "valid b" "holds st (tab db) b"
    "st_identity st b = st_identity st a" "diagnose_save st pg a expected db = (r, db')"
  shows "r = Inl (OptimisticConcurrencyConflict (st_kind st) (st_identity st a) expected
                (AggregateVersion (st_version st a)) (Some (AggregateVersion (st_version st b))))
     \<or> (\<exists>err. r = Inl (translate_persistence_error err ''execute''))"
proof -
  let ?s = "Select (Some [K_governance_id, K_version]) (st_root st) (by_runtime (st_identity st a)) None"
  obtain r1 db1 where first: "execute pg ?s db = (r1, db1)" by fastforce
  show ?thesis
  proof (cases r1)
    case (Inl e)
    then have "diagnose_save st pg a expected db = (Inl e, db1)"
      unfolding diagnose_save_def using first by (intro pbind_Inl_step) simp
    with first Inl assms(6) show ?thesis by (auto simp: execute_Inl)
  next
    case (Inr rows)
    let ?row = "project (Some [K_governance_id, K_version]) (map_of (st_insert st b))"
    have rows: "rows = [?row]"
      using runtime_select_effect[OF assms(1,4,3)] first Inr assms(5) by auto
    have row: "?row K_governance_id = Some (SText (gov_str (st_identity st a)))"
      "?row K_version = Some (SInt (st_version st b))"
      using root_row(4,5)[OF assms(3)] assms(5) by (simp_all add: project_def)
    have "diagnose_save st pg a expected db
        = praise (OptimisticConcurrencyConflict (st_kind st) (st_identity st a) expected
            (AggregateVersion (st_version st a)) (Some (AggregateVersion (st_version st b)))) db1"
      unfolding diagnose_save_def
        pbind_Inr_step[where m = "execute pg ?s" and s = db, OF first[unfolded Inr]] rows
      using row version_range[OF assms(2)] version_range[OF assms(3)]
      by (simp add: pbind_def plift_def get_version_def make_version_def)
    with assms(6) show ?thesis by (auto simp: praise_def)
  qed
qed

lemma save_body_effect:
  assumes "schema_ok (tab db)" "valid a" "valid b" "holds st (tab db) b"
    "st_identity st b = st_identity st a" "store_save_body st pg intended a expected db = (Inr res, db')"
  shows "st_version st b = version_value expected
     \<and> res = \<lparr>sr_operation = intended, sr_version = AggregateVersion (st_version st a)\<rparr>
     \<and> schema_ok (tab db')
     \<and> (intended = OpUpdated \<longrightarrow> replaced st valid (tab db) a (tab db'))
     \<and> (intended \<noteq> OpUpdated \<longrightarrow> b = a \<longrightarrow> tab db' = tab db)"
proof -
  let ?w = "by_identity_and_version (st_identity st a) (version_value expected)"
  let ?rid = "run_str (st_identity st a)"
  from assms(6) obtain updated db1 u2 db2 where
    upd: "pg_exec pg db (Update (st_root st) (st_set st a) ?w [K_version]) = (Inr updated, db1)" and
    taken: "updated \<noteq> []" and
    rest: "(if intended = OpUpdated then
              pbind (peach (delete_child pg (st_identity st a)) (st_children st))
              (\<lambda>_. pbind (peach (insert_child pg a) (st_children st)) (\<lambda>_. preturn ()))
            else preturn ()) db1 = (Inr u2, db')" and
    res: "res = \<lparr>sr_operation = intended, sr_version = AggregateVersion (st_version st a)\<rparr>"
    by (auto simp: store_save_body_def pbind_Inr_iff diagnose_save_raises make_version_def
        case_list_hd split: if_splits)
  note g = guarded_update[OF assms(1-5) upd]
  have version: "st_version st b = version_value expected"
    using g(3) taken by simp
  show ?thesis
  proof (cases "intended = OpUpdated")
    case False
    with rest g(1,7) version res show ?thesis by simp
  next
    case True
    with rest obtain xs db2 ys where
      del: "peach (delete_child pg (st_identity st a)) (st_children st) db1 = (Inr xs, db2)" and
      ins: "peach (insert_child pg a) (st_children st) db2 = (Inr ys, db')"
      by (auto simp: pbind_Inr_iff)
    have typed: "\<forall>ch \<in> set (st_children st). params_typed (ch_table ch) [(ch_key ch, SText ?rid)]"
      using child_key_ok[OF assms(2)] by blast
    note D = delete_children_effect[OF typed child_tables(1) del]
    note I = insert_children_effect[OF children_ok[OF assms(2)] child_tables(1) ins]
    have ok': "schema_ok (tab db')" using D I g(1) by blast
    have root': "tab db' (st_root st) = tab db1 (st_root st)"
      using D I child_tables(2) by simp
    have kid': "tab db' (ch_table ch)
        = mset (rows_of ch a) + {#r \<in># tab db (ch_table ch). r (ch_key ch) \<noteq> Some (SText ?rid)#}"
      if "ch \<in> set (st_children st)" for ch
    proof -
      have "ch_table ch \<noteq> st_root st"
        using child_tables(2) that by (metis image_eqI)
      with D I g(2) that show ?thesis by simp
    qed
    have held: "holds st (tab db') a"
      using g(5)[OF taken] root' kid' rows_of_key[OF assms(2)]
      by (simp add: holds_def filter_filter_mset filter_mset_none)
    have "replaced st valid (tab db) a (tab db')"
    proof (rule replacedI[OF ok' assms(2) held])
      show "tab db' t = tab db t" if "t \<noteq> st_root st" "t \<notin> ch_table ` set (st_children st)" for t
        using that D I g(2) by simp
      show "r \<in># tab db' (st_root st) \<longleftrightarrow> r \<in># tab db (st_root st)"
        if "r K_runtime_id \<noteq> Some (SText ?rid)" for r
        unfolding root' using that by (rule g(6))
      show "{#r \<in># tab db' (ch_table ch). r (ch_key ch) = Some (SText v)#}
          = {#r \<in># tab db (ch_table ch). r (ch_key ch) = Some (SText v)#}"
        if "ch \<in> set (st_children st)" "v \<noteq> ?rid" for ch v
      proof -
        have "{#r \<in># mset (rows_of ch a). r (ch_key ch) = Some (SText v)#} = {#}"
          using rows_of_key[OF assms(2) that(1), of v] that(2) by simp
        moreover have "{#r \<in># {#r \<in># M. r (ch_key ch) \<noteq> Some (SText ?rid)#}. r (ch_key ch) = Some (SText v)#}
            = {#r \<in># M. r (ch_key ch) = Some (SText v)#}" for M
          unfolding filter_filter_mset using that(2) by (intro filter_mset_cong) auto
        ultimately show ?thesis
          unfolding kid'[OF that(1)] filter_union_mset by (simp only: add_0)
      qed
      show "st_identity st c = st_identity st a"
        if "valid c" "holds st (tab db) c" "run_str (st_identity st c) = ?rid" for c
        using holds_same_runtime[OF assms(1,3) that(1) assms(4) that(2)] that(3) assms(5) by simp
    qed
    with True ok' version res show ?thesis by simp
  qed
qed

lemma save_body_stale:
  assumes "schema_ok (tab db)" "valid a" "valid b" "holds st (tab db) b"
    "st_identity st b = st_identity st a" "st_version st b \<noteq> version_value expected"
    "store_save_body st pg intended a expected db = (r, db')"
  shows "r = Inl (OptimisticConcurrencyConflict (st_kind st) (st_identity st a) expected
                (AggregateVersion (st_version st a)) (Some (AggregateVersion (st_version st b))))
     \<or> (\<exists>err. r = Inl (translate_persistence_error err ''execute''))"
proof -
  let ?w = "by_identity_and_version (st_identity st a) (version_value expected)"
  let ?s = "Update (st_root st) (st_set st a) ?w [K_version]"
  obtain r1 db1 where first: "execute pg ?s db = (r1, db1)" by fastforce
  show ?thesis
  proof (cases r1)
    case (Inl e)
    then have "store_save_body st pg intended a expected db = (Inl e, db1)"
      unfolding store_save_body_def using first by (intro pbind_Inl_step) simp
    with first Inl assms(7) show ?thesis by (auto simp: execute_Inl)
  next
    case (Inr rows)
    with first have upd: "pg_exec pg db ?s = (Inr rows, db1)" by simp
    note g = guarded_update[OF assms(1-5) upd]
    have empty: "rows = []" using g(3) assms(6) by simp
    obtain r2 db2 where diag: "diagnose_save st pg a expected db1 = (r2, db2)" by fastforce
    then obtain e where e: "r2 = Inl e"
      using diagnose_save_raises[of st pg a expected db1 "()" db2] by (cases r2) auto
    have "store_save_body st pg intended a expected db = (Inl e, db2)"
      unfolding store_save_body_def
        pbind_Inr_step[where m = "execute pg ?s" and s = db, OF first[unfolded Inr]]
      using diag e by (simp add: empty pbind_Inl_step)
    with diagnose_save_held[OF _ assms(2,3) _ assms(5) diag] g(4)[OF empty] assms(1,4,7) e
    show ?thesis by auto
  qed
qed

lemma peach_Inl: "peach f xs s = (Inl e, s') \<Longrightarrow> \<exists>x \<in> set xs. \<exists>s1 s2. f x s1 = (Inl e, s2)"
  by (induction xs arbitrary: s) (fastforce simp: pbind_Inl_iff)+

lemma insert_child_Inl:
  "insert_child pg a ch db = (Inl e, db') \<Longrightarrow> \<exists>err. e = translate_persistence_error err ''execute''"
  by (auto simp: insert_child_def insert_all_def pbind_Inl_iff execute_Inl dest!: peach_Inl)

lemma delete_child_Inl:
  "delete_child pg i ch db = (Inl e, db') \<Longrightarrow> \<exists>err. e = translate_persistence_error err ''execute''"
  by (auto simp: delete_child_def execute_Inl)

lemma children_Inl:
  "peach (insert_child pg a) chs db = (Inl e, db') \<Longrightarrow> \<exists>err. e = translate_persistence_error err ''execute''"
  "peach (delete_child pg i) chs db = (Inl e, db') \<Longrightarrow> \<exists>err. e = translate_persistence_error err ''execute''"
  by (blast dest!: peach_Inl intro: insert_child_Inl delete_child_Inl)+

lemma save_body_fresh:
  assumes "schema_ok (tab db)" "valid a" "valid b" "holds st (tab db) b"
    "st_identity st b = st_identity st a" "st_version st b = version_value expected"
    "store_save_body st pg intended a expected db = (Inl e, db')"
  shows "\<exists>err. e = translate_persistence_error err ''execute''"
proof -
  let ?s = "Update (st_root st) (st_set st a)
    (by_identity_and_version (st_identity st a) (version_value expected)) [K_version]"
  obtain r1 db1 where first: "execute pg ?s db = (r1, db1)" by fastforce
  show ?thesis
  proof (cases r1)
    case (Inl e')
    then have "store_save_body st pg intended a expected db = (Inl e', db1)"
      unfolding store_save_body_def using first by (intro pbind_Inl_step) simp
    with first Inl assms(7) show ?thesis by (auto simp: execute_Inl)
  next
    case (Inr rows)
    with first have upd: "pg_exec pg db ?s = (Inr rows, db1)" by simp
    from guarded_update(3)[OF assms(1-5) upd] assms(6) have "rows \<noteq> []" by simp
    with assms(7) version_range[OF assms(2)] show ?thesis
      unfolding store_save_body_def
        pbind_Inr_step[where m = "execute pg ?s" and s = db, OF first[unfolded Inr]]
      by (auto simp: case_list_hd pbind_Inl_iff make_version_def split: if_splits dest: children_Inl)
  qed
qed

lemma already_exists_cases: "already_exists_as kind names i e = e \<or> already_exists_as kind names i e = AggregateAlreadyExists kind i"
  by (simp add: already_exists_as_def split: option.split)

lemma add_body_Inl:
  assumes "store_add_body st pg a db = (Inl e, db')"
  shows "e = AggregateAlreadyExists (st_kind st) (st_identity st a)
     \<or> (\<exists>err. e = translate_persistence_error err ''execute'')"
proof -
  let ?body = "pbind (execute pg (Insert (st_root st) (st_insert st a)))
    (\<lambda>_. pbind (peach (insert_child pg a) (st_children st)) (\<lambda>_. preturn ()))"
  obtain r db1 where run: "?body db = (r, db1)" by fastforce
  with assms obtain e' where e': "r = Inl e'"
    and e: "e = already_exists_as (st_kind st) (st_unique st) (st_identity st a) e'"
    by (cases r) (auto simp: store_add_body_def pcatch_def)
  have "\<exists>err. e' = translate_persistence_error err ''execute''"
    using run e' children_Inl(1) by (auto simp: pbind_Inl_iff execute_Inl)
  with e show ?thesis
    using already_exists_cases[of "st_kind st" "st_unique st" "st_identity st a" e'] by auto
qed

lemma get_body_reads:
  assumes "identity_ok cls i" "store_get_body st pg i db = (Inr l, db')"
  shows "tab db' = tab db"
proof -
  have rid: "uuid4_canonical (run_str i)"
    using assms(1) by (cases "runtime_id i") (simp add: identity_ok_def)
  have kids: "tab db' = tab db"
    if "peach (fetch_child pg i) chs db = (Inr xs, db')" "set chs \<subseteq> set (st_children st)" for chs xs db db'
    using that
  proof (induction chs arbitrary: db xs)
    case (Cons ch chs)
    then obtain x db1 ys where
      one: "fetch_child pg i ch db = (Inr x, db1)" and
      rest: "peach (fetch_child pg i) chs db1 = (Inr ys, db')"
      by (auto simp: pbind_Inr_iff)
    have "stmt_ok (Select None (ch_table ch) [(ch_key ch, SText (run_str i))] (Some (ch_order ch)))"
      using Cons.prems(2) child_tables(4)[of ch] rid by (simp add: params_typed_def)
    from select_effect[OF this] one have "tab db1 = tab db"
      by (auto simp: fetch_child_def)
    with Cons.IH[OF rest] Cons.prems(2) show ?case by simp
  qed simp
  have ok: "stmt_ok (Select None (st_root st) (by_identity i) None)"
    using rid by (simp add: params_typed_def by_identity_def root_columns)
  from assms(2) obtain rows db1 where "pg_exec pg db (Select None (st_root st) (by_identity i) None) = (Inr rows, db1)"
    "\<exists>xs. peach (fetch_child pg i) (st_children st) db1 = (Inr xs, db')"
    by (auto simp: store_get_body_def pbind_Inr_iff case_list_hd split: if_splits)
  with select_effect[OF ok] kids show ?thesis by (metis order_refl)
qed

end

section \<open>The contract\<close>

text \<open>An error of the persistence foundation, as opposed to one of the contract or the domain.\<close>

definition foundation_failure :: "exn \<Rightarrow> bool" where
  "foundation_failure e \<longleftrightarrow> (\<exists>cat message operation cause. e = FoundationError cat message operation cause)"

lemma translate_foundation_failure [simp]:
  "foundation_failure (translate_persistence_error err operation)"
  by (simp add: foundation_failure_def translate_persistence_error_def)

text \<open>
  A repository for the use cases: \<open>good\<close> are the states it can be used in, \<open>held s a\<close> says that
  \<open>a\<close> is what the state durably keeps under the identity of \<open>a\<close>.
\<close>

locale aggregate_repository =
  fixes get :: "domain_identity \<Rightarrow> ('s, 'a loaded_aggregate) prog"
    and add :: "'a \<Rightarrow> ('s, save_result) prog"
    and save :: "'a \<Rightarrow> aggregate_version \<Rightarrow> ('s, save_result) prog"
    and ident :: "'a \<Rightarrow> domain_identity" and version :: "'a \<Rightarrow> aggregate_version"
    and valid :: "'a \<Rightarrow> bool" and ident_ok :: "domain_identity \<Rightarrow> bool"
    and good :: "'s \<Rightarrow> bool" and held :: "'s \<Rightarrow> 'a \<Rightarrow> bool"
  assumes valid_ident: "valid a \<Longrightarrow> ident_ok (ident a)"
    and held_one: "good s \<Longrightarrow> valid a \<Longrightarrow> valid b \<Longrightarrow> held s a \<Longrightarrow> held s b \<Longrightarrow> ident b = ident a \<Longrightarrow> b = a"
    and get_keeps: "good s \<Longrightarrow> ident_ok i \<Longrightarrow> get i s = (g, s') \<Longrightarrow> good s' \<and> held s' = held s"
    and get_held: "good s \<Longrightarrow> valid a \<Longrightarrow> held s a \<Longrightarrow> get (ident a) s = (g, s')
       \<Longrightarrow> g = Inr \<lparr>la_aggregate = a, la_version = version a\<rparr> \<or> (\<exists>e. g = Inl e \<and> foundation_failure e)"
    and add_ok: "good s \<Longrightarrow> valid a \<Longrightarrow> add a s = (Inr res, s')
       \<Longrightarrow> good s' \<and> res = \<lparr>sr_operation = OpCreated, sr_version = version a\<rparr>
           \<and> (\<forall>b. valid b \<longrightarrow> held s b \<longrightarrow> ident b \<noteq> ident a)
           \<and> (\<forall>b. valid b \<longrightarrow> held s' b = (if ident b = ident a then b = a else held s b))"
    and add_fails: "good s \<Longrightarrow> valid a \<Longrightarrow> add a s = (Inl e, s')
       \<Longrightarrow> good s' \<and> (commit_failure e \<or> held s' = held s)"
    and save_ok: "good s \<Longrightarrow> valid a \<Longrightarrow> valid b \<Longrightarrow> held s b \<Longrightarrow> ident b = ident a
       \<Longrightarrow> save a v s = (Inr res, s')
       \<Longrightarrow> good s' \<and> version b = v \<and> v \<le> version a
           \<and> res = \<lparr>sr_operation = (if v = version a then OpUnchanged else OpUpdated), sr_version = version a\<rparr>
           \<and> (v \<noteq> version a \<longrightarrow>
                (\<forall>c. valid c \<longrightarrow> held s' c = (if ident c = ident a then c = a else held s c)))
           \<and> (b = a \<longrightarrow> held s' = held s)"
    and save_fails: "good s \<Longrightarrow> valid a \<Longrightarrow> valid b \<Longrightarrow> held s b \<Longrightarrow> ident b = ident a
       \<Longrightarrow> save a v s = (Inl e, s') \<Longrightarrow> good s' \<and> (commit_failure e \<or> held s' = held s)"
    and save_stale: "good s \<Longrightarrow> valid a \<Longrightarrow> valid b \<Longrightarrow> held s b \<Longrightarrow> ident b = ident a \<Longrightarrow> version b \<noteq> v
       \<Longrightarrow> v \<le> version a \<Longrightarrow> save a v s = (r, s')
       \<Longrightarrow> (\<exists>kind. r = Inl (OptimisticConcurrencyConflict kind (ident a) v (version a) (Some (version b))))
           \<or> (\<exists>e. r = Inl e \<and> foundation_failure e)"
    and save_fresh: "good s \<Longrightarrow> valid a \<Longrightarrow> valid b \<Longrightarrow> held s b \<Longrightarrow> ident b = ident a \<Longrightarrow> version b \<le> version a
       \<Longrightarrow> save a (version b) s = (Inl e, s') \<Longrightarrow> foundation_failure e"
    and save_low: "version a < v
       \<Longrightarrow> \<exists>kind message. save a v s = (Inl (InvalidAggregateForPersistence kind message (Some (ident a))), s)"
    and add_cause: "good s \<Longrightarrow> valid a \<Longrightarrow> add a s = (Inl e, s')
       \<Longrightarrow> foundation_failure e \<or> (\<exists>kind. e = AggregateAlreadyExists kind (ident a))"
begin

text \<open>Two writers that loaded the same version: when the first has advanced it, the second fails.\<close>

lemma second_writer_fails:
  assumes s: "good s" "valid a" "valid b" "valid c" "held s c" "ident a = ident c" "ident b = ident c"
    and first: "save a v s = (Inr res, s')" "v < version a"
    and second: "save b v s' = (r, s'')" "v \<le> version b"
  shows "\<exists>e. r = Inl e \<and> held s' a \<and> (commit_failure e \<or> held s'' = held s')"
proof -
  have held: "good s'" "held s' a"
    using save_ok[OF s(1,2,4,5) s(6)[symmetric] first(1)] first(2) s(2) by auto
  have same: "ident a = ident b" using s(6,7) by simp
  obtain e where e: "r = Inl e"
    using save_stale[OF held(1) s(3,2) held(2) same _ second(2,1)] first(2) by auto
  from save_fails[OF held(1) s(3,2) held(2) same second(1)[unfolded e]] held e show ?thesis by simp
qed

end

section \<open>Stored aggregates satisfy the contract\<close>

text \<open>
  \<open>usable\<close>: no transaction is open and the tables satisfy the schema. \<open>kept\<close>: the tables hold the
  aggregate. \<open>aversion\<close>: the version of an aggregate as the store reads it.
\<close>

definition usable :: "('db \<Rightarrow> tables) \<Rightarrow> 'db exec_context \<Rightarrow> bool" where
  "usable tab cx \<longleftrightarrow> idle cx \<and> schema_ok (tab (cx_db cx))"

definition kept :: "'a store \<Rightarrow> ('db \<Rightarrow> tables) \<Rightarrow> 'db exec_context \<Rightarrow> 'a \<Rightarrow> bool" where
  "kept st tab cx = holds st (tab (cx_db cx))"

definition aversion :: "'a store \<Rightarrow> 'a \<Rightarrow> aggregate_version" where
  "aversion st a = AggregateVersion (st_version st a)"

locale repository_on_server = stored_aggregate st cls valid pg tab tz
  for st :: "'a store" and cls and valid and pg :: "'db postgres" and tab and tz +
  fixes sv :: service
  assumes ready: "can_work sv"
begin

lemma usable_cases: "usable tab cx \<Longrightarrow> idle cx" "usable tab cx \<Longrightarrow> schema_ok (tab (cx_db cx))"
  by (simp_all add: usable_def)

lemma usable_update: "usable tab cx \<Longrightarrow> schema_ok (tab db) \<Longrightarrow> usable tab (cx\<lparr>cx_db := db\<rparr>)"
  by (simp add: usable_def idle_def)

lemma store_get_keeps:
  assumes "usable tab cx" "identity_ok cls i" "store_get st pg sv i cx = (r, cx')"
  shows "usable tab cx' \<and> kept st tab cx' = kept st tab cx"
proof -
  have "cx' = cx \<or> (\<exists>l db'. store_get_body st pg i (cx_db cx) = (Inr l, db') \<and> cx' = cx\<lparr>cx_db := db'\<rparr>)"
    using assms(3) unit_of_work_Inr[OF ready usable_cases(1)[OF assms(1)]]
      unit_of_work_Inl[OF ready usable_cases(1)[OF assms(1)]]
    by (cases r) (fastforce simp: store_get_def)+
  then show ?thesis
    using get_body_reads[OF assms(2)] usable_update[OF assms(1)] usable_cases(2)[OF assms(1)] assms(1)
    by (auto simp: kept_def)
qed

lemma store_get_held:
  assumes "usable tab cx" "valid a" "kept st tab cx a" "store_get st pg sv (st_identity st a) cx = (r, cx')"
  shows "r = Inr \<lparr>la_aggregate = a, la_version = aversion st a\<rparr> \<or> (\<exists>e. r = Inl e \<and> foundation_failure e)"
proof -
  have run: "store_get st pg sv (st_identity st a) cx
      = (case transact pg (store_get_body st pg (st_identity st a)) (cx_db cx) of (r, db') \<Rightarrow> (r, cx\<lparr>cx_db := db'\<rparr>))"
    unfolding store_get_def by (rule unit_of_work_idle[OF ready usable_cases(1)[OF assms(1)]])
  obtain r' db' where t: "transact pg (store_get_body st pg (st_identity st a)) (cx_db cx) = (r', db')"
    by fastforce
  have body: "(w = Inr \<lparr>la_aggregate = a, la_version = aversion st a\<rparr>) \<or> (\<exists>e. w = Inl e \<and> foundation_failure e)"
    if "store_get_body st pg (st_identity st a) (cx_db cx) = (w, db'')" for w db''
    using get_body_held[OF usable_cases(2)[OF assms(1)] _ assms(2) that] assms(3)
    by (auto simp: kept_def aversion_def)
  have "r = r'" using run t assms(4) by simp
  moreover have "r' = Inr \<lparr>la_aggregate = a, la_version = aversion st a\<rparr> \<or> (\<exists>e. r' = Inl e \<and> foundation_failure e)"
  proof (cases r')
    case (Inl e)
    from transact_Inl_cause[OF t[unfolded Inl]] show ?thesis
      by (auto simp: Inl dest!: body)
  next
    case (Inr l)
    from body[OF transact_Inr[OF t[unfolded Inr]]] Inr show ?thesis by auto
  qed
  ultimately show ?thesis by simp
qed

lemma add_cases:
  assumes "usable tab cx" "valid a" "store_add st pg sv a cx = (r, cx')"
  shows "(\<exists>e. r = Inl e \<and> cx' = cx)
     \<or> (\<exists>u db'. store_add_body st pg a (cx_db cx) = (Inr u, db') \<and> cx' = cx\<lparr>cx_db := db'\<rparr>
          \<and> (r = Inr \<lparr>sr_operation = OpCreated, sr_version = aversion st a\<rparr> \<or> (\<exists>e. r = Inl e \<and> commit_failure e)))"
proof -
  obtain r1 cx1 where u: "unit_of_work pg sv (store_add_body st pg a) cx = (r1, cx1)" by fastforce
  note idle = usable_cases(1)[OF assms(1)]
  show ?thesis
  proof (cases r1)
    case (Inl e)
    with u have "r = Inl e" "cx' = cx1"
      using assms(3) u by (simp_all add: store_add_def pbind_def)
    with unit_of_work_Inl[OF ready idle u[unfolded Inl]] show ?thesis by auto
  next
    case (Inr x)
    from unit_of_work_Inr[OF ready idle u[unfolded Inr]] show ?thesis
      using assms(3) u Inr version_range[OF assms(2)]
      by (auto simp: store_add_def pbind_def plift_def preturn_def make_version_def aversion_def)
  qed
qed

lemma save_cases:
  assumes "usable tab cx" "store_save st pg sv a v cx = (r, cx')" "v \<le> aversion st a"
  shows "\<exists>intended. intended = (if v = aversion st a then OpUnchanged else OpUpdated)
     \<and> ((\<exists>e. r = Inl e \<and> cx' = cx)
     \<or> (\<exists>res db'. store_save_body st pg intended a v (cx_db cx) = (Inr res, db') \<and> cx' = cx\<lparr>cx_db := db'\<rparr>
          \<and> (r = Inr res \<or> (\<exists>e. r = Inl e \<and> commit_failure e))))"
proof -
  let ?intended = "if v = aversion st a then OpUnchanged else OpUpdated"
  have "unit_of_work pg sv (store_save_body st pg ?intended a v) cx = (r, cx')"
    using assms(2,3) by (cases v) (auto simp: store_save_def aversion_def version_order Let_def split: if_splits)
  with unit_of_work_Inr[OF ready usable_cases(1)[OF assms(1)]]
    unit_of_work_Inl[OF ready usable_cases(1)[OF assms(1)]] show ?thesis
    by (cases r) fastforce+
qed

lemma store_save_low:
  "\<not> v \<le> aversion st a \<Longrightarrow> store_save st pg sv a v cx
     = (Inl (InvalidAggregateForPersistence (st_kind st) stale_version (Some (st_identity st a))), cx)"
  by (simp add: store_save_def aversion_def version_order praise_def)

lemma store_save_stale:
  assumes "usable tab cx" "valid a" "valid b" "kept st tab cx b" "st_identity st b = st_identity st a"
    "aversion st b \<noteq> v" "v \<le> aversion st a" "store_save st pg sv a v cx = (r, cx')"
  shows "r = Inl (OptimisticConcurrencyConflict (st_kind st) (st_identity st a) v (aversion st a) (Some (aversion st b)))
     \<or> (\<exists>e. r = Inl e \<and> foundation_failure e)"
proof -
  let ?intended = "if v = aversion st a then OpUnchanged else OpUpdated"
  have run: "unit_of_work pg sv (store_save_body st pg ?intended a v) cx = (r, cx')"
    using assms(7,8) by (cases v) (auto simp: store_save_def aversion_def version_order Let_def split: if_splits)
  then obtain db' where t: "transact pg (store_save_body st pg ?intended a v) (cx_db cx) = (r, db')"
    by (simp add: unit_of_work_idle[OF ready usable_cases(1)[OF assms(1)]] split: prod.splits)
  have ne: "st_version st b \<noteq> version_value v"
    using assms(6) by (cases v) (simp add: aversion_def)
  note stale = save_body_stale[OF usable_cases(2)[OF assms(1)] assms(2,3) _ assms(5) ne]
  show ?thesis
  proof (cases r)
    case (Inl e)
    with transact_Inl_cause[OF t[unfolded Inl]] stale assms(4) show ?thesis
      by (fastforce simp: kept_def aversion_def)
  next
    case (Inr x)
    with transact_Inr[OF t[unfolded Inr]] stale assms(4) show ?thesis
      by (fastforce simp: kept_def)
  qed
qed

lemma store_save_fresh:
  assumes "usable tab cx" "valid a" "valid b" "kept st tab cx b" "st_identity st b = st_identity st a"
    "aversion st b \<le> aversion st a" "store_save st pg sv a (aversion st b) cx = (Inl e, cx')"
  shows "foundation_failure e"
proof -
  let ?v = "aversion st b"
  let ?intended = "if ?v = aversion st a then OpUnchanged else OpUpdated"
  have "unit_of_work pg sv (store_save_body st pg ?intended a ?v) cx = (Inl e, cx')"
    using assms(6,7) by (auto simp: store_save_def aversion_def version_order Let_def split: if_splits)
  then obtain db' where t: "transact pg (store_save_body st pg ?intended a ?v) (cx_db cx) = (Inl e, db')"
    by (simp add: unit_of_work_idle[OF ready usable_cases(1)[OF assms(1)]] split: prod.splits)
  have held: "holds st (tab (cx_db cx)) b" and version: "st_version st b = version_value ?v"
    using assms(4) by (simp_all add: kept_def aversion_def)
  from transact_Inl_cause[OF t] show ?thesis
    by (auto dest!: save_body_fresh[OF usable_cases(2)[OF assms(1)] assms(2,3) held assms(5) version])
qed

lemma store_add_cause:
  assumes "usable tab cx" "valid a" "store_add st pg sv a cx = (Inl e, cx')"
  shows "foundation_failure e \<or> e = AggregateAlreadyExists (st_kind st) (st_identity st a)"
proof -
  obtain db' where t: "transact pg (store_add_body st pg a) (cx_db cx) = (Inl e, db')"
    using assms(3) version_range[OF assms(2)]
    by (auto simp: store_add_def pbind_Inl_iff make_version_def
        unit_of_work_idle[OF ready usable_cases(1)[OF assms(1)]] split: prod.splits)
  from transact_Inl_cause[OF t] show ?thesis
    by (auto dest: add_body_Inl)
qed

end

sublocale repository_on_server \<subseteq> repository: aggregate_repository
  "store_get st pg sv" "store_add st pg sv" "store_save st pg sv" "st_identity st" "aversion st" valid
  "identity_ok cls" "usable tab" "kept st tab"
proof unfold_locales
  fix a assume "valid a"
  then show "identity_ok cls (st_identity st a)" by (rule identity_class)
next
  fix cx a b
  assume "usable tab cx" "valid a" "valid b" "kept st tab cx a" "kept st tab cx b" "st_identity st b = st_identity st a"
  then show "b = a"
    using holds_unique[OF usable_cases(2)] by (simp add: kept_def)
next
  fix cx i g cx'
  assume "usable tab cx" "identity_ok cls i" "store_get st pg sv i cx = (g, cx')"
  then show "usable tab cx' \<and> kept st tab cx' = kept st tab cx" by (rule store_get_keeps)
next
  fix cx a g cx'
  assume "usable tab cx" "valid a" "kept st tab cx a" "store_get st pg sv (st_identity st a) cx = (g, cx')"
  then show "g = Inr \<lparr>la_aggregate = a, la_version = aversion st a\<rparr> \<or> (\<exists>e. g = Inl e \<and> foundation_failure e)"
    by (rule store_get_held)
next
  fix cx a res cx'
  assume u: "usable tab cx" and a: "valid a" and run: "store_add st pg sv a cx = (Inr res, cx')"
  from add_cases[OF u a run] obtain x db' where
    body: "store_add_body st pg a (cx_db cx) = (Inr x, db')" and
    cx': "cx' = cx\<lparr>cx_db := db'\<rparr>" "res = \<lparr>sr_operation = OpCreated, sr_version = aversion st a\<rparr>"
    by auto
  from add_body_effect[OF usable_cases(2)[OF u] a body] cx' usable_update[OF u]
  show "usable tab cx' \<and> res = \<lparr>sr_operation = OpCreated, sr_version = aversion st a\<rparr>
      \<and> (\<forall>b. valid b \<longrightarrow> kept st tab cx b \<longrightarrow> st_identity st b \<noteq> st_identity st a)
      \<and> (\<forall>b. valid b \<longrightarrow> kept st tab cx' b = (if st_identity st b = st_identity st a then b = a else kept st tab cx b))"
    by (simp add: kept_def replaced_def)
next
  fix cx a e cx'
  assume u: "usable tab cx" and a: "valid a" and run: "store_add st pg sv a cx = (Inl e, cx')"
  from add_cases[OF u a run] show "usable tab cx' \<and> (commit_failure e \<or> kept st tab cx' = kept st tab cx)"
    using add_body_effect[OF usable_cases(2)[OF u] a] u usable_update[OF u] by (auto simp: replaced_def)
next
  fix cx a b v res cx'
  assume u: "usable tab cx" and a: "valid a" and b: "valid b" "kept st tab cx b" "st_identity st b = st_identity st a"
    and run: "store_save st pg sv a v cx = (Inr res, cx')"
  have v: "v \<le> aversion st a"
    using run store_save_low by force
  let ?intended = "if v = aversion st a then OpUnchanged else OpUpdated"
  from save_cases[OF u run v] obtain db' where
    body: "store_save_body st pg ?intended a v (cx_db cx) = (Inr res, db')" and cx': "cx' = cx\<lparr>cx_db := db'\<rparr>"
    by auto
  from save_body_effect[OF usable_cases(2)[OF u] a b(1) _ b(3) body] b(2)
  have eff: "st_version st b = version_value v" "res = \<lparr>sr_operation = ?intended, sr_version = aversion st a\<rparr>"
      "schema_ok (tab db')" "v \<noteq> aversion st a \<longrightarrow> replaced st valid (tab (cx_db cx)) a (tab db')"
      "v = aversion st a \<longrightarrow> b = a \<longrightarrow> tab db' = tab (cx_db cx)"
    by (auto simp: kept_def aversion_def)
  have "aversion st b = v"
    using eff(1) by (cases v) (simp add: aversion_def)
  with eff v cx' usable_update[OF u]
  show "usable tab cx' \<and> aversion st b = v \<and> v \<le> aversion st a
      \<and> res = \<lparr>sr_operation = if v = aversion st a then OpUnchanged else OpUpdated, sr_version = aversion st a\<rparr>
      \<and> (v \<noteq> aversion st a \<longrightarrow>
           (\<forall>c. valid c \<longrightarrow> kept st tab cx' c = (if st_identity st c = st_identity st a then c = a else kept st tab cx c)))
      \<and> (b = a \<longrightarrow> kept st tab cx' = kept st tab cx)"
    by (auto simp: kept_def replaced_def)
next
  fix cx a b v e cx'
  assume u: "usable tab cx" and a: "valid a" and b: "valid b" "kept st tab cx b" "st_identity st b = st_identity st a"
    and run: "store_save st pg sv a v cx = (Inl e, cx')"
  show "usable tab cx' \<and> (commit_failure e \<or> kept st tab cx' = kept st tab cx)"
  proof (cases "v \<le> aversion st a")
    case True
    from save_cases[OF u run True] save_body_effect[OF usable_cases(2)[OF u] a b(1) _ b(3)] b(2)
      u usable_update[OF u]
    show ?thesis by (auto simp: kept_def)
  next
    case False
    with run store_save_low u show ?thesis by auto
  qed
next
  fix cx a b v r cx'
  assume "usable tab cx" "valid a" "valid b" "kept st tab cx b" "st_identity st b = st_identity st a"
    "aversion st b \<noteq> v" "v \<le> aversion st a" "store_save st pg sv a v cx = (r, cx')"
  then show "(\<exists>kind. r = Inl (OptimisticConcurrencyConflict kind (st_identity st a) v (aversion st a) (Some (aversion st b))))
      \<or> (\<exists>e. r = Inl e \<and> foundation_failure e)"
    using store_save_stale by blast
next
  fix cx a b e cx'
  assume "usable tab cx" "valid a" "valid b" "kept st tab cx b" "st_identity st b = st_identity st a"
    "aversion st b \<le> aversion st a" "store_save st pg sv a (aversion st b) cx = (Inl e, cx')"
  then show "foundation_failure e" by (rule store_save_fresh)
next
  fix cx a v
  assume "aversion st a < v"
  then show "\<exists>kind message. store_save st pg sv a v cx
      = (Inl (InvalidAggregateForPersistence kind message (Some (st_identity st a))), cx)"
    by (simp add: store_save_low not_le)
next
  fix cx a e cx'
  assume "usable tab cx" "valid a" "store_add st pg sv a cx = (Inl e, cx')"
  then show "foundation_failure e \<or> (\<exists>kind. e = AggregateAlreadyExists kind (st_identity st a))"
    using store_add_cause by blast
qed

end
