(* ===== verification/Transition_Rows.thy ===== *)
theory Transition_Rows
  imports Transitions Repository
begin

text \<open>
  The part of the repositories that stores a lifecycle history: the reader and the writer of
  one row of a \<^verbatim>\<open>*_transition\<close> table (\<^verbatim>\<open>_row_to_transition\<close> and \<^verbatim>\<open>_transition_params\<close>, which the
  four repository files repeat with their own name of the owner's column), and what
  \<open>store_shape\<close> needs to know about the rows of a history.
\<close>

section \<open>Transition rows\<close>

definition row_to_transition :: "row \<Rightarrow> exn + transition_durable" where
  "row_to_transition row =
     rbind (get_optional_text row K_identity_runtime_id)
     (\<lambda>rt. rbind (case rt of
          None \<Rightarrow> Inr None
        | Some r \<Rightarrow> rbind (get_str row K_identity_governance_id)
            (\<lambda>g. Inr (Some \<lparr>idr_governance_id = g, idr_runtime_id = r\<rparr>)))
     (\<lambda>identity_reference. rbind (get_optional_text row K_from_state)
     (\<lambda>from_state. rbind (get_str row K_to_state)
     (\<lambda>to_state. rbind (get_int row K_version)
     (\<lambda>version. rbind (get_int row K_sequence)
     (\<lambda>seq. rbind (get_str row K_actor)
     (\<lambda>actor. rbind (get_time row K_occurred_at)
     (\<lambda>occurred_at. rbind (get_optional_text row K_correlation_id)
     (\<lambda>correlation. rbind (get_optional_text row K_reason)
     (\<lambda>reason. Inr
        \<lparr>trd_from = from_state, trd_to = to_state, trd_version = version, trd_sequence = seq,
         trd_actor = actor, trd_occurred_at = occurred_at, trd_identity = identity_reference,
         trd_correlation = correlation, trd_reason = reason\<rparr>))))))))))"

definition transition_params :: "column \<Rightarrow> string \<Rightarrow> transition_durable \<Rightarrow> params" where
  "transition_params key owner_runtime_id t =
     [(key, SText owner_runtime_id),
      (K_sequence, SInt (trd_sequence t)),
      (K_from_state, optional_text (trd_from t)),
      (K_to_state, SText (trd_to t)),
      (K_version, SInt (trd_version t)),
      (K_actor, SText (trd_actor t)),
      (K_occurred_at, STime (trd_occurred_at t)),
      (K_identity_governance_id, optional_text (map_option idr_governance_id (trd_identity t))),
      (K_identity_runtime_id, optional_text (map_option idr_runtime_id (trd_identity t))),
      (K_correlation_id, optional_text (trd_correlation t)),
      (K_reason, optional_text (trd_reason t))]"

definition owner_keys :: "column list" where
  "owner_keys = [K_campaign_runtime_id, K_run_runtime_id, K_evidence_package_runtime_id, K_review_runtime_id]"

lemma transition_row_back:
  assumes "key \<in> set owner_keys"
  shows "row_to_transition (map_of (transition_params key rid t)) = Inr t"
  using assms
  by (cases t; cases "trd_identity t")
    (auto simp: row_to_transition_def transition_params_def owner_keys_def get_optional_text_def
      get_str_def get_int_def get_time_def optional_text_def split: option.splits)

lemma transition_params_key [simp]: "map_of (transition_params key rid t) key = Some (SText rid)"
  by (simp add: transition_params_def)

lemma transition_params_sequence:
  "key \<in> set owner_keys \<Longrightarrow> map_of (transition_params key rid t) K_sequence = Some (SInt (trd_sequence t))"
  by (auto simp: transition_params_def owner_keys_def)

text \<open>A history whose timestamps are aware, as a \<^verbatim>\<open>TIMESTAMPTZ\<close> column needs them.\<close>

definition history_aware :: "transition list \<Rightarrow> bool" where
  "history_aware rs \<longleftrightarrow> (\<forall>r \<in> set rs. is_aware (tr_occurred_at r))"

definition transition_rows :: "column \<Rightarrow> string \<Rightarrow> transition list \<Rightarrow> params list" where
  "transition_rows key rid rs = map (\<lambda>r. transition_params key rid (transition_to_durable r)) rs"

lemma optional_text_typed [simp]: "typed Text (optional_text x)"
  by (cases x) simp_all

lemma optional_text_not_time [simp]:
  "(case optional_text x of STime d \<Rightarrow> is_aware d | _ \<Rightarrow> True)"
  by (cases x) simp_all

lemma transition_rows_aware:
  "history_aware rs \<Longrightarrow> ps \<in> set (transition_rows key rid rs) \<Longrightarrow> aware_params ps"
  by (auto simp: transition_rows_def transition_params_def aware_params_def history_aware_def
      transition_to_durable_def)

lemma transition_rows_sorted:
  assumes "key \<in> set owner_keys" "numbered_from n rs"
  shows "sorted_wrt (<) (map (\<lambda>r. int_value (r K_sequence)) (map map_of (transition_rows key rid rs)))"
proof -
  have "map (\<lambda>r. int_value (r K_sequence)) (map map_of (transition_rows key rid rs))
      = map (\<lambda>r. sequence_value (tr_sequence r)) rs"
    using transition_params_sequence[OF assms(1)]
    by (simp add: transition_rows_def transition_to_durable_def)
  moreover have "sorted_wrt (<) (map (\<lambda>r. sequence_value (tr_sequence r)) rs)"
    using assms(2)
  proof (induction rs arbitrary: n)
    case (Cons r rs)
    then show ?case
      using numbered_from_pos[of "n + 1" rs] by fastforce
  qed simp
  ultimately show ?thesis by simp
qed

lemma transition_rows_back:
  assumes "key \<in> set owner_keys"
  shows "rmap row_to_transition (map map_of (transition_rows key rid rs)) = Inr (map transition_to_durable rs)"
proof -
  have "rmap row_to_transition (map (\<lambda>r. map_of (transition_params key rid (transition_to_durable r))) rs)
      = Inr (map transition_to_durable rs)" for rs
    by (induction rs) (simp_all add: transition_row_back[OF assms])
  then show ?thesis by (simp add: transition_rows_def comp_def)
qed

text \<open>The parameters of a transition row fit any table with its key column and the shared ones.\<close>

definition transition_table :: "table \<Rightarrow> column \<Rightarrow> bool" where
  "transition_table t key \<longleftrightarrow>
     key \<in> set owner_keys \<and> table_columns t = (key, Uuid, False) # transition_columns"

lemma transition_tables:
  "transition_table T_campaign_transition K_campaign_runtime_id"
  "transition_table T_run_transition K_run_runtime_id"
  "transition_table T_evidence_package_transition K_evidence_package_runtime_id"
  "transition_table T_review_transition K_review_runtime_id"
  by (simp_all add: transition_table_def owner_keys_def)

lemma transition_insert_ok:
  assumes "transition_table t key" "uuid4_canonical rid"
    "\<forall>i. trd_identity d = Some i \<longrightarrow> uuid4_canonical (idr_runtime_id i)"
  shows "stmt_ok (Insert t (transition_params key rid d))"
proof -
  have "typed Uuid (optional_text (map_option idr_runtime_id (trd_identity d)))"
    using assms(3) by (cases "trd_identity d") simp_all
  with assms(1,2) show ?thesis
    by (auto simp: transition_table_def owner_keys_def transition_params_def params_typed_def
        column_type_def transition_columns_def)
qed

lemma identity_canonical: "identity_ok cls i \<Longrightarrow> uuid4_canonical (run_str i)"
  by (cases "runtime_id i") (simp add: identity_ok_def)

lemma transition_rows_ok:
  assumes "transition_table t key" "identity_ok cls i" "history_inv i init edges terms cur nxt ver rs"
    "ps \<in> set (transition_rows key (run_str i) rs)"
  shows "stmt_ok (Insert t ps)"
proof -
  from assms(4) obtain r where r: "r \<in> set rs" "ps = transition_params key (run_str i) (transition_to_durable r)"
    by (auto simp: transition_rows_def)
  have "tr_identity r = Some i" using history_inv_record(4)[OF assms(3) r(1)] .
  then have "\<forall>j. trd_identity (transition_to_durable r) = Some j \<longrightarrow> uuid4_canonical (idr_runtime_id j)"
    using identity_canonical[OF assms(2)] by (simp add: transition_to_durable_def identity_to_durable_def)
  with r(2) identity_canonical[OF assms(2)] show ?thesis
    by (simp only: transition_insert_ok[OF assms(1)])
qed

section \<open>Rows numbered by position\<close>

definition positioned :: "(int \<Rightarrow> 'a \<Rightarrow> params) \<Rightarrow> 'a list \<Rightarrow> params list" where
  "positioned f xs = map (\<lambda>(position, x). f position x) (enumerate_from 0 xs)"

lemma positioned_sorted:
  assumes "\<And>p x. map_of (f p x) K_position = Some (SInt p)"
  shows "sorted_wrt (<) (map (\<lambda>r. int_value (r K_position)) (map map_of (positioned f xs)))"
proof -
  have "map (\<lambda>r. int_value (r K_position)) (map map_of (positioned f xs)) = map fst (enumerate_from 0 xs)"
    by (simp add: positioned_def assms case_prod_beta)
  then show ?thesis by (simp add: sorted_fst_enumerate_from)
qed

lemma positioned_back:
  assumes "\<And>p x. x \<in> set xs \<Longrightarrow> g (map_of (f p x)) = Inr x"
  shows "rmap g (map map_of (positioned f xs)) = Inr xs"
proof -
  have "rmap g (map (\<lambda>(p, x). map_of (f p x)) (enumerate_from n xs)) = Inr xs" for n
    using assms by (induction xs arbitrary: n) auto
  then show ?thesis by (simp add: positioned_def comp_def case_prod_beta')
qed

lemma enumerate_from_mem: "(p, x) \<in> set (enumerate_from n xs) \<Longrightarrow> x \<in> set xs \<and> n \<le> p"
  by (induction xs arbitrary: n) force+

lemma positioned_mem: "ps \<in> set (positioned f xs) \<Longrightarrow> \<exists>p x. x \<in> set xs \<and> 0 \<le> p \<and> ps = f p x"
  by (auto simp: positioned_def dest: enumerate_from_mem)

lemma positioned_map: "positioned f (map g xs) = positioned (\<lambda>p x. f p (g x)) xs"
proof -
  have "map (\<lambda>(p, x). f p x) (enumerate_from n (map g xs)) = map (\<lambda>(p, x). f p (g x)) (enumerate_from n xs)" for n
    by (induction xs arbitrary: n) auto
  then show ?thesis by (simp add: positioned_def)
qed

end
