(* ===== verification/Review_Repository.thy ===== *)
theory Review_Repository
  imports Review Transition_Rows Table_Engine
begin

text \<open>
  \<^verbatim>\<open>shared/persistence/postgres_repositories/review_repository.py\<close>: the rows of a Review,
  the three methods as the file writes them, the proof that they have the shape of \<open>Store\<close>
  over a well-formed store, and the contract that follows on any PostgreSQL server.
\<close>

section \<open>Rows\<close>

definition review_transition_params :: "string \<Rightarrow> transition_durable \<Rightarrow> params" where
  "review_transition_params rid t = transition_params K_review_runtime_id rid t"

definition row_to_finding :: "row \<Rightarrow> exn + review_finding_durable" where
  "row_to_finding row =
     rbind (get_int row K_sequence)
     (\<lambda>seq. rbind (get_str row K_text)
     (\<lambda>body. rbind (get_optional_text row K_rationale)
     (\<lambda>rationale. rbind (get_texts row K_evidence_references)
     (\<lambda>references. Inr
        \<lparr>rfd_sequence = seq, rfd_text = body, rfd_rationale = rationale,
         rfd_references = references\<rparr>))))"

definition finding_params :: "string \<Rightarrow> review_finding_durable \<Rightarrow> params" where
  "finding_params rid f =
     [(K_review_runtime_id, SText rid),
      (K_sequence, SInt (rfd_sequence f)),
      (K_text, SText (rfd_text f)),
      (K_rationale, optional_text (rfd_rationale f)),
      (K_evidence_references, STexts (rfd_references f))]"

definition review_insert_params :: "review_durable \<Rightarrow> params" where
  "review_insert_params d =
     [(K_runtime_id, SText (idr_runtime_id (vd_identity d))),
      (K_governance_id, SText (idr_governance_id (vd_identity d))),
      (K_target_evidence_package_id, SText (vd_target_package_id d)),
      (K_reviewer_reference, SText (vd_reviewer d)),
      (K_lifecycle_state, SText (vd_lifecycle_state d)),
      (K_disposition, optional_text (vd_disposition d)),
      (K_final_disposition_rationale, optional_text (vd_rationale d)),
      (K_cancellation_reason, optional_text (vd_cancellation d)),
      (K_version, SInt (vd_version d)),
      (K_next_transition_sequence, SInt (vd_next_sequence d))]"

definition review_set_params :: "review_durable \<Rightarrow> params" where
  "review_set_params d =
     [(K_target_evidence_package_id, SText (vd_target_package_id d)),
      (K_reviewer_reference, SText (vd_reviewer d)),
      (K_lifecycle_state, SText (vd_lifecycle_state d)),
      (K_disposition, optional_text (vd_disposition d)),
      (K_final_disposition_rationale, optional_text (vd_rationale d)),
      (K_cancellation_reason, optional_text (vd_cancellation d)),
      (K_next_transition_sequence, SInt (vd_next_sequence d)),
      (K_version, SInt (vd_version d))]"

definition review_record :: "row \<Rightarrow> row list \<Rightarrow> row list \<Rightarrow> exn + review_durable" where
  "review_record root finding_rows rows =
     rbind (get_str root K_governance_id)
     (\<lambda>g. rbind (get_str root K_runtime_id)
     (\<lambda>r. rbind (get_str root K_target_evidence_package_id)
     (\<lambda>target. rbind (get_str root K_reviewer_reference)
     (\<lambda>reviewer. rbind (get_str root K_lifecycle_state)
     (\<lambda>state. rbind (rmap row_to_finding finding_rows)
     (\<lambda>findings. rbind (get_optional_text root K_disposition)
     (\<lambda>disposition. rbind (get_optional_text root K_final_disposition_rationale)
     (\<lambda>rationale. rbind (get_optional_text root K_cancellation_reason)
     (\<lambda>cancellation. rbind (get_int root K_version)
     (\<lambda>version. rbind (get_int root K_next_transition_sequence)
     (\<lambda>next_seq. rbind (rmap row_to_transition rows)
     (\<lambda>history. Inr
        \<lparr>vd_identity = \<lparr>idr_governance_id = g, idr_runtime_id = r\<rparr>, vd_target_package_id = target,
         vd_reviewer = reviewer, vd_lifecycle_state = state, vd_findings = findings,
         vd_disposition = disposition, vd_rationale = rationale, vd_cancellation = cancellation,
         vd_version = version, vd_next_sequence = next_seq, vd_history = history\<rparr>))))))))))))"

section \<open>The three methods\<close>

definition review_repository_get ::
    "'db postgres \<Rightarrow> service \<Rightarrow> domain_identity \<Rightarrow> ('db exec_context, review loaded_aggregate) prog" where
  "review_repository_get pg sv i =
     unit_of_work pg sv
       (pbind (execute pg (Select None T_review
                 [(K_runtime_id, SText (run_str i)), (K_governance_id, SText (gov_str i))] None))
        (\<lambda>rows. case rows of
           [] \<Rightarrow>
             pbind (execute pg (Select (Some [K_governance_id]) T_review
                      [(K_runtime_id, SText (run_str i))] None))
             (\<lambda>diagnostic_rows. case diagnostic_rows of
                [] \<Rightarrow> praise (AggregateNotFound ''Review'' i)
              | _ # _ \<Rightarrow> praise (InvalidPersistedAggregateState ''Review'' requested_mismatch (Some i)))
         | root # _ \<Rightarrow>
             pbind (execute pg (Select None T_review_finding
                      [(K_review_runtime_id, SText (run_str i))] (Some K_sequence)))
             (\<lambda>finding_rows. pbind (execute pg (Select None T_review_transition
                      [(K_review_runtime_id, SText (run_str i))] (Some K_sequence)))
             (\<lambda>transition_rows. pbind (plift (review_record root finding_rows transition_rows))
             (\<lambda>record. pbind (plift (rcatch (invalid_mapping_as ''Review'' i) (review_from_durable record)))
             (\<lambda>state. pbind (plift (rcatch (invalid_reconstruction_as ''Review'' i) (reconstruct_review state)))
             (\<lambda>aggregate. pbind (plift (get_version root))
             (\<lambda>persisted_version.
                preturn \<lparr>la_aggregate = aggregate, la_version = persisted_version\<rparr>))))))))"

definition review_repository_add ::
    "'db postgres \<Rightarrow> service \<Rightarrow> review \<Rightarrow> ('db exec_context, save_result) prog" where
  "review_repository_add pg sv aggregate =
     (let i = rev_identity aggregate; record = review_to_durable aggregate; rid = idr_runtime_id (vd_identity record) in
      pbind (unit_of_work pg sv
        (pcatch (already_exists_as ''Review'' [''pk_review'', ''uq_review_governance_id''] i)
          (pbind (execute pg (Insert T_review (review_insert_params record)))
           (\<lambda>_. pbind (insert_all pg T_review_finding
                (map (finding_params rid) (vd_findings record)))
           (\<lambda>_. insert_all pg T_review_transition
                (map (review_transition_params rid) (vd_history record)))))))
      (\<lambda>_. pbind (plift (make_version (vd_version record)))
      (\<lambda>v. preturn \<lparr>sr_operation = OpCreated, sr_version = v\<rparr>)))"

definition review_repository_save ::
    "'db postgres \<Rightarrow> service \<Rightarrow> review \<Rightarrow> aggregate_version \<Rightarrow> ('db exec_context, save_result) prog" where
  "review_repository_save pg sv aggregate expected =
     (let i = rev_identity aggregate; record = review_to_durable aggregate;
          rid = idr_runtime_id (vd_identity record); gid = idr_governance_id (vd_identity record) in
      if vd_version record < version_value expected then
        praise (InvalidAggregateForPersistence ''Review'' stale_version (Some i))
      else
        let intended = (if vd_version record = version_value expected then OpUnchanged else OpUpdated) in
        unit_of_work pg sv
          (pbind (execute pg (Update T_review (review_set_params record)
                    [(K_runtime_id, SText rid), (K_governance_id, SText gid),
                     (K_version, SInt (version_value expected))] [K_version]))
           (\<lambda>update_rows. pbind
              (case update_rows of
                 [] \<Rightarrow>
                   pbind (execute pg (Select (Some [K_governance_id, K_version]) T_review
                            [(K_runtime_id, SText rid)] None))
                   (\<lambda>diagnostic_rows. case diagnostic_rows of
                      [] \<Rightarrow> praise (AggregateNotFound ''Review'' i)
                    | diagnostic_row # _ \<Rightarrow>
                        pbind (plift (get_text diagnostic_row K_governance_id))
                        (\<lambda>g. if g \<noteq> gid then
                               praise (InvalidPersistedAggregateState ''Review'' aggregate_mismatch (Some i))
                             else
                               pbind (plift (make_version (vd_version record)))
                               (\<lambda>current. pbind (plift (get_version diagnostic_row))
                               (\<lambda>actual. praise (OptimisticConcurrencyConflict ''Review'' i expected
                                            current (Some actual))))))
               | _ # _ \<Rightarrow> preturn ())
              (\<lambda>_. pbind
                 (if intended = OpUpdated then
                    pbind (execute pg (Delete T_review_finding [(K_review_runtime_id, SText rid)]))
                    (\<lambda>_. pbind (execute pg (Delete T_review_transition [(K_review_runtime_id, SText rid)]))
                    (\<lambda>_. pbind (insert_all pg T_review_finding
                         (map (finding_params rid) (vd_findings record)))
                    (\<lambda>_. insert_all pg T_review_transition
                         (map (review_transition_params rid) (vd_history record)))))
                  else preturn ())
              (\<lambda>_. pbind (plift (make_version (vd_version record)))
              (\<lambda>v. preturn \<lparr>sr_operation = intended, sr_version = v\<rparr>))))))"

section \<open>The store\<close>

definition review_storable :: "review \<Rightarrow> bool" where
  "review_storable r \<longleftrightarrow> review_ok r \<and> history_aware (rev_history r)"

definition finding_rows_of :: "string \<Rightarrow> review_finding list \<Rightarrow> params list" where
  "finding_rows_of rid fs = map (finding_params rid) (map finding_to_durable fs)"

definition review_children :: "review child_table list" where
  "review_children =
     [\<lparr>ch_table = T_review_finding, ch_key = K_review_runtime_id, ch_order = K_sequence,
       ch_rows = (\<lambda>r. finding_rows_of (run_str (rev_identity r)) (rev_findings r))\<rparr>,
      \<lparr>ch_table = T_review_transition, ch_key = K_review_runtime_id, ch_order = K_sequence,
       ch_rows = (\<lambda>r. transition_rows K_review_runtime_id (run_str (rev_identity r)) (rev_history r))\<rparr>]"

definition review_store :: "review store" where
  "review_store =
     \<lparr>st_kind = ''Review'', st_root = T_review,
      st_unique = [''pk_review'', ''uq_review_governance_id''],
      st_identity = rev_identity, st_version = version_value \<circ> rev_version,
      st_insert = review_insert_params \<circ> review_to_durable,
      st_set = review_set_params \<circ> review_to_durable,
      st_children = review_children,
      st_load = (\<lambda>i root cs.
        rbind (review_record root (cs ! 0) (cs ! 1))
        (\<lambda>record. rbind (rcatch (invalid_mapping_as ''Review'' i) (review_from_durable record))
        (\<lambda>state. rcatch (invalid_reconstruction_as ''Review'' i) (reconstruct_review state))))\<rparr>"

lemma review_store_simps [simp]:
  "st_kind review_store = ''Review''" "st_root review_store = T_review"
  "st_unique review_store = [''pk_review'', ''uq_review_governance_id'']"
  "st_identity review_store = rev_identity"
  "st_version review_store c = version_value (rev_version c)"
  "st_insert review_store c = review_insert_params (review_to_durable c)"
  "st_set review_store c = review_set_params (review_to_durable c)"
  "st_children review_store = review_children"
  by (simp_all add: review_store_def)

lemma review_identity_durable [simp]:
  "idr_runtime_id (vd_identity (review_to_durable c)) = run_str (rev_identity c)"
  "idr_governance_id (vd_identity (review_to_durable c)) = gov_str (rev_identity c)"
  by (simp_all add: review_to_durable_def identity_to_durable_def)

lemma review_version_durable [simp]: "vd_version (review_to_durable c) = version_value (rev_version c)"
  by (simp add: review_to_durable_def)

lemma review_child_params:
  "map (finding_params rid) (vd_findings (review_to_durable r)) = finding_rows_of rid (rev_findings r)"
  "map (review_transition_params rid) (vd_history (review_to_durable r))
     = transition_rows K_review_runtime_id rid (rev_history r)"
  by (simp_all add: review_transition_params_def review_to_durable_def transition_rows_def finding_rows_of_def)

lemmas review_child_defs =
  review_children_def fetch_child_def insert_child_def insert_all_def delete_child_def
  review_child_params

text \<open>The methods as written are the shared shape.\<close>

lemma review_get_is_store: "review_repository_get = store_get review_store"
  by (intro ext) (simp add: review_repository_get_def store_get_def store_get_body_def by_identity_def
      by_runtime_def review_store_def review_child_defs plift_rbind cong: list.case_cong)

lemma review_add_is_store: "review_repository_add = store_add review_store"
  by (intro ext) (simp add: review_repository_add_def store_add_def store_add_body_def Let_def
      review_child_defs)

lemma review_save_is_store: "review_repository_save = store_save review_store"
  by (intro ext) (simp add: review_repository_save_def store_save_def store_save_body_def
      diagnose_save_def Let_def by_identity_and_version_def by_runtime_def
      review_child_defs cong: list.case_cong if_cong)

section \<open>The store is well-formed\<close>

lemma review_insert_row:
  "map_of (review_insert_params d) K_runtime_id = Some (SText (idr_runtime_id (vd_identity d)))"
  "map_of (review_insert_params d) K_governance_id = Some (SText (idr_governance_id (vd_identity d)))"
  "map_of (review_insert_params d) K_version = Some (SInt (vd_version d))"
  by (simp_all add: review_insert_params_def)

lemma finding_row_back: "row_to_finding (map_of (finding_params rid f)) = Inr f"
  by (cases f) (simp add: row_to_finding_def finding_params_def)

lemma finding_rows_back:
  "rmap row_to_finding (map map_of (finding_rows_of rid fs)) = Inr (map finding_to_durable fs)"
  by (induction fs) (simp_all add: finding_rows_of_def finding_row_back)

lemma review_record_back:
  "review_record (map_of (review_insert_params (review_to_durable r)))
     (map map_of (finding_rows_of rid (rev_findings r)))
     (map map_of (transition_rows K_review_runtime_id rid (rev_history r)))
   = Inr (review_to_durable r)"
  by (simp add: review_record_def review_insert_params_def transition_rows_back owner_keys_def
      finding_rows_back)
    (simp add: review_to_durable_def identity_to_durable_def)

lemma finding_rows_ok:
  assumes "uuid4_canonical rid" "ps \<in> set (finding_rows_of rid fs)"
  shows "stmt_ok (Insert T_review_finding ps)" "aware_params ps"
    "map_of ps K_review_runtime_id = Some (SText rid)"
  using assms
  by (auto simp: finding_rows_of_def finding_params_def params_typed_def column_type_def aware_params_def)

lemma finding_rows_sorted:
  assumes "findings_numbered fs"
  shows "sorted_wrt (<) (map (\<lambda>r. int_value (r K_sequence)) (map map_of (finding_rows_of rid fs)))"
proof -
  have "map (\<lambda>r. int_value (r K_sequence)) (map map_of (finding_rows_of rid fs)) = map rf_sequence fs"
    by (simp add: finding_rows_of_def finding_params_def finding_to_durable_def)
  then show ?thesis
    using assms sorted_fst_enumerate_from[of 1 fs] by (simp add: findings_numbered_def)
qed

interpretation review_tables: store_shape review_store ReviewId review_storable
proof unfold_locales
  fix a assume a: "review_storable a"
  then show "identity_ok ReviewId (st_identity review_store a)"
    by (simp add: review_storable_def review_ok_def)
  show "0 \<le> st_version review_store a"
    using a by (simp add: review_storable_def review_ok_def)
  have rid: "uuid4_canonical (run_str (rev_identity a))"
    using a by (auto simp: review_storable_def review_ok_def intro: identity_canonical)
  show "stmt_ok (Insert (st_root review_store) (st_insert review_store a))"
    using rid by (auto simp: review_insert_params_def params_typed_def column_type_def)
  show "aware_params (st_insert review_store a)" "aware_params (st_set review_store a)"
    by (simp_all add: aware_params_def review_insert_params_def review_set_params_def)
  show "map_of (st_insert review_store a) K_runtime_id = Some (SText (run_str (st_identity review_store a)))"
    "map_of (st_insert review_store a) K_governance_id = Some (SText (gov_str (st_identity review_store a)))"
    "map_of (st_insert review_store a) K_version = Some (SInt (st_version review_store a))"
    by (simp_all add: review_insert_row)
  show "params_typed (st_root review_store) (st_set review_store a)"
    by (simp add: params_typed_def column_type_def review_set_params_def)
  show "K_runtime_id \<notin> fst ` set (st_set review_store a)
      \<and> K_governance_id \<notin> fst ` set (st_set review_store a)"
    by (simp add: review_set_params_def)
  show "st_load review_store (st_identity review_store a) (map_of (st_insert review_store a))
      (map (\<lambda>ch. rows_of ch a) (st_children review_store)) = Inr a"
    using a by (simp add: rows_of_def review_children_def) (simp add: review_store_def
      review_record_back review_storable_def review_from_to_durable reconstruct_review_ok)
next
  fix a b assume "st_identity review_store b = st_identity review_store a"
  then show "map_of (st_insert review_store b) ++ map_of (st_set review_store a)
      = map_of (st_insert review_store a)"
    by (intro ext) (simp add: review_insert_params_def review_set_params_def map_add_def)
next
  fix a :: review and ch ps
  assume a: "review_storable a" and ch: "ch \<in> set (st_children review_store)"
  then have inv: "history_inv (rev_identity a) (review_state_value V_ASSIGNED) review_allowed_edges
      review_terminal_states (review_state_value (rev_state a)) (rev_next_sequence a)
      (rev_version a) (rev_history a)" "identity_ok ReviewId (rev_identity a)"
    "history_aware (rev_history a)" "findings_numbered (rev_findings a)"
    by (simp_all add: review_storable_def review_ok_def)
  show "sorted_wrt (<) (map (\<lambda>r. int_value (r (ch_order ch))) (rows_of ch a))"
    using ch inv(1) transition_rows_sorted[of K_review_runtime_id 1 "rev_history a"]
      finding_rows_sorted[OF inv(4)]
    by (auto simp: rows_of_def owner_keys_def history_inv_def review_children_def)
  assume ps: "ps \<in> set (ch_rows ch a)"
  note rid = identity_canonical[OF inv(2)]
  show "stmt_ok (Insert (ch_table ch) ps)"
    using ch ps transition_rows_ok[OF transition_tables(4) inv(2,1)] finding_rows_ok[OF rid]
    by (auto simp: review_children_def simp del: stmt_ok.simps)
  show "aware_params ps"
    using ch ps transition_rows_aware[OF inv(3)] finding_rows_ok[OF rid]
    by (auto simp: review_children_def)
  show "map_of ps (ch_key ch) = Some (SText (run_str (st_identity review_store a)))"
    using ch ps finding_rows_ok[OF rid] by (auto simp: transition_rows_def review_children_def)
qed (auto simp: column_type_def review_children_def)

lemma review_on_server:
  assumes "postgres_server pg tab tz" "can_work sv"
  shows "repository_on_server review_store ReviewId review_storable pg tab tz sv"
  using assms review_tables.store_shape_axioms
  by (simp add: repository_on_server_def stored_aggregate_def repository_on_server_axioms_def)

interpretation review_on_tables: repository_on_server review_store ReviewId review_storable
    table_server contents utc ready_service
  by (rule review_on_server[OF table_db.postgres_server_axioms ready_service_can_work])

end
