(* ===== verification/Evidence_Repository.thy ===== *)
theory Evidence_Repository
  imports Evidence Transition_Rows Table_Engine
begin

text \<open>
  \<^verbatim>\<open>shared/persistence/postgres_repositories/evidence_package_repository.py\<close>: the rows of an Evidence Package,
  the three methods as the file writes them, the proof that they have the shape of \<open>Store\<close>
  over a well-formed store, and the contract that follows on any PostgreSQL server.
\<close>

section \<open>Rows\<close>

definition evidence_transition_params :: "string \<Rightarrow> transition_durable \<Rightarrow> params" where
  "evidence_transition_params rid t = transition_params K_evidence_package_runtime_id rid t"

definition row_to_criterion :: "string \<Rightarrow> row \<Rightarrow> exn + criterion_result_durable" where
  "row_to_criterion package_governance_id row =
     rbind (get_str row K_criterion_id)
     (\<lambda>criterion_id. rbind (get_time row K_recorded_at)
     (\<lambda>recorded_at. rbind (get_str row K_result_label)
     (\<lambda>label. rbind (get_optional_text row K_summary)
     (\<lambda>summary. rbind (get_texts row K_evidence_references)
     (\<lambda>references. Inr
        \<lparr>crd_package_id = package_governance_id, crd_criterion_id = criterion_id,
         crd_recorded_at = recorded_at, crd_result_label = label, crd_summary = summary,
         crd_references = references\<rparr>)))))"

definition criterion_params :: "string \<Rightarrow> int \<Rightarrow> criterion_result_durable \<Rightarrow> params" where
  "criterion_params rid position c =
     [(K_evidence_package_runtime_id, SText rid),
      (K_position, SInt position),
      (K_criterion_id, SText (crd_criterion_id c)),
      (K_recorded_at, STime (crd_recorded_at c)),
      (K_result_label, SText (crd_result_label c)),
      (K_summary, optional_text (crd_summary c)),
      (K_evidence_references, STexts (crd_references c))]"

definition artifact_params :: "string \<Rightarrow> int \<Rightarrow> string \<Rightarrow> params" where
  "artifact_params rid position v =
     [(K_evidence_package_runtime_id, SText rid),
      (K_position, SInt position),
      (K_value, SText v)]"

definition evidence_insert_params :: "evidence_durable \<Rightarrow> params" where
  "evidence_insert_params d =
     [(K_runtime_id, SText (idr_runtime_id (ed_identity d))),
      (K_governance_id, SText (idr_governance_id (ed_identity d))),
      (K_run_id, SText (ed_run_id d)),
      (K_lifecycle_state, SText (ed_lifecycle_state d)),
      (K_version, SInt (ed_version d)),
      (K_next_transition_sequence, SInt (ed_next_sequence d))]"

definition evidence_set_params :: "evidence_durable \<Rightarrow> params" where
  "evidence_set_params d =
     [(K_run_id, SText (ed_run_id d)),
      (K_lifecycle_state, SText (ed_lifecycle_state d)),
      (K_next_transition_sequence, SInt (ed_next_sequence d)),
      (K_version, SInt (ed_version d))]"

definition evidence_record ::
    "row \<Rightarrow> row list \<Rightarrow> row list \<Rightarrow> row list \<Rightarrow> exn + evidence_durable" where
  "evidence_record root criterion_rows artifact_rows rows =
     rbind (get_str root K_governance_id)
     (\<lambda>g. rbind (get_str root K_runtime_id)
     (\<lambda>r. rbind (get_str root K_run_id)
     (\<lambda>run_id. rbind (get_str root K_lifecycle_state)
     (\<lambda>state. rbind (rmap (row_to_criterion g) criterion_rows)
     (\<lambda>results. rbind (rmap (\<lambda>row. get_str row K_value) artifact_rows)
     (\<lambda>references. rbind (get_int root K_version)
     (\<lambda>version. rbind (get_int root K_next_transition_sequence)
     (\<lambda>next_seq. rbind (rmap row_to_transition rows)
     (\<lambda>history. Inr
        \<lparr>ed_identity = \<lparr>idr_governance_id = g, idr_runtime_id = r\<rparr>, ed_run_id = run_id,
         ed_lifecycle_state = state, ed_results = results, ed_references = references,
         ed_version = version, ed_next_sequence = next_seq, ed_history = history\<rparr>)))))))))"

section \<open>The three methods\<close>

definition evidence_repository_get ::
    "'db postgres \<Rightarrow> service \<Rightarrow> domain_identity \<Rightarrow> ('db exec_context, evidence_package loaded_aggregate) prog" where
  "evidence_repository_get pg sv i =
     unit_of_work pg sv
       (pbind (execute pg (Select None T_evidence_package
                 [(K_runtime_id, SText (run_str i)), (K_governance_id, SText (gov_str i))] None))
        (\<lambda>rows. case rows of
           [] \<Rightarrow>
             pbind (execute pg (Select (Some [K_governance_id]) T_evidence_package
                      [(K_runtime_id, SText (run_str i))] None))
             (\<lambda>diagnostic_rows. case diagnostic_rows of
                [] \<Rightarrow> praise (AggregateNotFound ''EvidencePackage'' i)
              | _ # _ \<Rightarrow> praise (InvalidPersistedAggregateState ''EvidencePackage'' requested_mismatch (Some i)))
         | root # _ \<Rightarrow>
             pbind (execute pg (Select None T_evidence_package_criterion_result
                      [(K_evidence_package_runtime_id, SText (run_str i))] (Some K_position)))
             (\<lambda>criterion_rows. pbind (execute pg (Select None T_evidence_package_artifact_reference
                      [(K_evidence_package_runtime_id, SText (run_str i))] (Some K_position)))
             (\<lambda>artifact_rows. pbind (execute pg (Select None T_evidence_package_transition
                      [(K_evidence_package_runtime_id, SText (run_str i))] (Some K_sequence)))
             (\<lambda>transition_rows. pbind (plift (evidence_record root criterion_rows artifact_rows transition_rows))
             (\<lambda>record. pbind (plift (rcatch (invalid_mapping_as ''EvidencePackage'' i) (evidence_from_durable record)))
             (\<lambda>state. pbind (plift (rcatch (invalid_reconstruction_as ''EvidencePackage'' i) (reconstruct_evidence state)))
             (\<lambda>aggregate. pbind (plift (get_version root))
             (\<lambda>persisted_version.
                preturn \<lparr>la_aggregate = aggregate, la_version = persisted_version\<rparr>)))))))))"

definition evidence_repository_add ::
    "'db postgres \<Rightarrow> service \<Rightarrow> evidence_package \<Rightarrow> ('db exec_context, save_result) prog" where
  "evidence_repository_add pg sv aggregate =
     (let i = ev_identity aggregate; record = evidence_to_durable aggregate; rid = idr_runtime_id (ed_identity record) in
      pbind (unit_of_work pg sv
        (pcatch (already_exists_as ''EvidencePackage'' [''pk_evidence_package'', ''uq_evidence_package_governance_id''] i)
          (pbind (execute pg (Insert T_evidence_package (evidence_insert_params record)))
           (\<lambda>_. pbind (insert_all pg T_evidence_package_criterion_result
                (positioned (criterion_params rid) (ed_results record)))
           (\<lambda>_. pbind (insert_all pg T_evidence_package_artifact_reference
                (positioned (artifact_params rid) (ed_references record)))
           (\<lambda>_. insert_all pg T_evidence_package_transition
                (map (evidence_transition_params rid) (ed_history record))))))))
      (\<lambda>_. pbind (plift (make_version (ed_version record)))
      (\<lambda>v. preturn \<lparr>sr_operation = OpCreated, sr_version = v\<rparr>)))"

definition evidence_repository_save ::
    "'db postgres \<Rightarrow> service \<Rightarrow> evidence_package \<Rightarrow> aggregate_version \<Rightarrow> ('db exec_context, save_result) prog" where
  "evidence_repository_save pg sv aggregate expected =
     (let i = ev_identity aggregate; record = evidence_to_durable aggregate;
          rid = idr_runtime_id (ed_identity record); gid = idr_governance_id (ed_identity record) in
      if ed_version record < version_value expected then
        praise (InvalidAggregateForPersistence ''EvidencePackage'' stale_version (Some i))
      else
        let intended = (if ed_version record = version_value expected then OpUnchanged else OpUpdated) in
        unit_of_work pg sv
          (pbind (execute pg (Update T_evidence_package (evidence_set_params record)
                    [(K_runtime_id, SText rid), (K_governance_id, SText gid),
                     (K_version, SInt (version_value expected))] [K_version]))
           (\<lambda>update_rows. pbind
              (case update_rows of
                 [] \<Rightarrow>
                   pbind (execute pg (Select (Some [K_governance_id, K_version]) T_evidence_package
                            [(K_runtime_id, SText rid)] None))
                   (\<lambda>diagnostic_rows. case diagnostic_rows of
                      [] \<Rightarrow> praise (AggregateNotFound ''EvidencePackage'' i)
                    | diagnostic_row # _ \<Rightarrow>
                        pbind (plift (get_text diagnostic_row K_governance_id))
                        (\<lambda>g. if g \<noteq> gid then
                               praise (InvalidPersistedAggregateState ''EvidencePackage'' aggregate_mismatch (Some i))
                             else
                               pbind (plift (make_version (ed_version record)))
                               (\<lambda>current. pbind (plift (get_version diagnostic_row))
                               (\<lambda>actual. praise (OptimisticConcurrencyConflict ''EvidencePackage'' i expected
                                            current (Some actual))))))
               | _ # _ \<Rightarrow> preturn ())
              (\<lambda>_. pbind
                 (if intended = OpUpdated then
                    pbind (execute pg (Delete T_evidence_package_criterion_result [(K_evidence_package_runtime_id, SText rid)]))
                    (\<lambda>_. pbind (execute pg (Delete T_evidence_package_artifact_reference [(K_evidence_package_runtime_id, SText rid)]))
                    (\<lambda>_. pbind (execute pg (Delete T_evidence_package_transition [(K_evidence_package_runtime_id, SText rid)]))
                    (\<lambda>_. pbind (insert_all pg T_evidence_package_criterion_result
                         (positioned (criterion_params rid) (ed_results record)))
                    (\<lambda>_. pbind (insert_all pg T_evidence_package_artifact_reference
                         (positioned (artifact_params rid) (ed_references record)))
                    (\<lambda>_. insert_all pg T_evidence_package_transition
                         (map (evidence_transition_params rid) (ed_history record)))))))
                  else preturn ())
              (\<lambda>_. pbind (plift (make_version (ed_version record)))
              (\<lambda>v. preturn \<lparr>sr_operation = intended, sr_version = v\<rparr>))))))"

section \<open>The store\<close>

definition evidence_storable :: "evidence_package \<Rightarrow> bool" where
  "evidence_storable p \<longleftrightarrow>
     evidence_ok p \<and> history_aware (ev_history p)
     \<and> (\<forall>c \<in> set (ev_results p). is_aware (cr_recorded_at c))"

definition criterion_rows_of :: "string \<Rightarrow> criterion_result list \<Rightarrow> params list" where
  "criterion_rows_of rid cs = positioned (criterion_params rid) (map criterion_to_durable cs)"

definition artifact_rows_of :: "string \<Rightarrow> artifact_reference list \<Rightarrow> params list" where
  "artifact_rows_of rid refs = positioned (artifact_params rid) (map reference_value refs)"

definition evidence_children :: "evidence_package child_table list" where
  "evidence_children =
     [\<lparr>ch_table = T_evidence_package_criterion_result, ch_key = K_evidence_package_runtime_id, ch_order = K_position,
       ch_rows = (\<lambda>p. criterion_rows_of (run_str (ev_identity p)) (ev_results p))\<rparr>,
      \<lparr>ch_table = T_evidence_package_artifact_reference, ch_key = K_evidence_package_runtime_id, ch_order = K_position,
       ch_rows = (\<lambda>p. artifact_rows_of (run_str (ev_identity p)) (ev_references p))\<rparr>,
      \<lparr>ch_table = T_evidence_package_transition, ch_key = K_evidence_package_runtime_id, ch_order = K_sequence,
       ch_rows = (\<lambda>p. transition_rows K_evidence_package_runtime_id (run_str (ev_identity p)) (ev_history p))\<rparr>]"

definition evidence_store :: "evidence_package store" where
  "evidence_store =
     \<lparr>st_kind = ''EvidencePackage'', st_root = T_evidence_package,
      st_unique = [''pk_evidence_package'', ''uq_evidence_package_governance_id''],
      st_identity = ev_identity, st_version = version_value \<circ> ev_version,
      st_insert = evidence_insert_params \<circ> evidence_to_durable,
      st_set = evidence_set_params \<circ> evidence_to_durable,
      st_children = evidence_children,
      st_load = (\<lambda>i root cs.
        rbind (evidence_record root (cs ! 0) (cs ! 1) (cs ! 2))
        (\<lambda>record. rbind (rcatch (invalid_mapping_as ''EvidencePackage'' i) (evidence_from_durable record))
        (\<lambda>state. rcatch (invalid_reconstruction_as ''EvidencePackage'' i) (reconstruct_evidence state))))\<rparr>"

lemma evidence_store_simps [simp]:
  "st_kind evidence_store = ''EvidencePackage''" "st_root evidence_store = T_evidence_package"
  "st_unique evidence_store = [''pk_evidence_package'', ''uq_evidence_package_governance_id'']"
  "st_identity evidence_store = ev_identity"
  "st_version evidence_store c = version_value (ev_version c)"
  "st_insert evidence_store c = evidence_insert_params (evidence_to_durable c)"
  "st_set evidence_store c = evidence_set_params (evidence_to_durable c)"
  "st_children evidence_store = evidence_children"
  by (simp_all add: evidence_store_def)

lemma evidence_identity_durable [simp]:
  "idr_runtime_id (ed_identity (evidence_to_durable c)) = run_str (ev_identity c)"
  "idr_governance_id (ed_identity (evidence_to_durable c)) = gov_str (ev_identity c)"
  by (simp_all add: evidence_to_durable_def identity_to_durable_def)

lemma evidence_version_durable [simp]: "ed_version (evidence_to_durable c) = version_value (ev_version c)"
  by (simp add: evidence_to_durable_def)

lemma evidence_child_params:
  "positioned (criterion_params rid) (ed_results (evidence_to_durable p)) = criterion_rows_of rid (ev_results p)"
  "positioned (artifact_params rid) (ed_references (evidence_to_durable p)) = artifact_rows_of rid (ev_references p)"
  "map (evidence_transition_params rid) (ed_history (evidence_to_durable p))
     = transition_rows K_evidence_package_runtime_id rid (ev_history p)"
  by (simp_all add: evidence_transition_params_def evidence_to_durable_def transition_rows_def criterion_rows_of_def artifact_rows_of_def)

lemmas evidence_child_defs =
  evidence_children_def fetch_child_def insert_child_def insert_all_def delete_child_def
  evidence_child_params

text \<open>The methods as written are the shared shape.\<close>

lemma evidence_get_is_store: "evidence_repository_get = store_get evidence_store"
  by (intro ext) (simp add: evidence_repository_get_def store_get_def store_get_body_def by_identity_def
      by_runtime_def evidence_store_def evidence_child_defs plift_rbind cong: list.case_cong)

lemma evidence_add_is_store: "evidence_repository_add = store_add evidence_store"
  by (intro ext) (simp add: evidence_repository_add_def store_add_def store_add_body_def Let_def
      evidence_child_defs)

lemma evidence_save_is_store: "evidence_repository_save = store_save evidence_store"
  by (intro ext) (simp add: evidence_repository_save_def store_save_def store_save_body_def
      diagnose_save_def Let_def by_identity_and_version_def by_runtime_def
      evidence_child_defs cong: list.case_cong if_cong)

section \<open>The store is well-formed\<close>

lemma evidence_insert_row:
  "map_of (evidence_insert_params d) K_runtime_id = Some (SText (idr_runtime_id (ed_identity d)))"
  "map_of (evidence_insert_params d) K_governance_id = Some (SText (idr_governance_id (ed_identity d)))"
  "map_of (evidence_insert_params d) K_version = Some (SInt (ed_version d))"
  by (simp_all add: evidence_insert_params_def)

lemma criterion_row_back:
  "crd_package_id c = g \<Longrightarrow> row_to_criterion g (map_of (criterion_params rid p c)) = Inr c"
  by (cases c) (simp add: row_to_criterion_def criterion_params_def)

lemma criterion_rows_back:
  assumes "\<forall>c \<in> set cs. identifier_str (cr_package_id c) = g"
  shows "rmap (row_to_criterion g) (map map_of (criterion_rows_of rid cs)) = Inr (map criterion_to_durable cs)"
  unfolding criterion_rows_of_def using assms
  by (intro positioned_back criterion_row_back) (auto simp: criterion_to_durable_def)

lemma artifact_rows_back:
  "rmap (\<lambda>row. get_str row K_value) (map map_of (artifact_rows_of rid refs)) = Inr (map reference_value refs)"
  unfolding artifact_rows_of_def by (intro positioned_back) (simp add: artifact_params_def)

lemma evidence_record_back:
  assumes "\<forall>c \<in> set (ev_results p). cr_package_id c = governance_id (ev_identity p)"
  shows "evidence_record (map_of (evidence_insert_params (evidence_to_durable p)))
     (map map_of (criterion_rows_of rid (ev_results p)))
     (map map_of (artifact_rows_of rid (ev_references p)))
     (map map_of (transition_rows K_evidence_package_runtime_id rid (ev_history p)))
   = Inr (evidence_to_durable p)"
proof -
  have "rmap (row_to_criterion (gov_str (ev_identity p))) (map map_of (criterion_rows_of rid (ev_results p)))
      = Inr (map criterion_to_durable (ev_results p))"
    using assms by (intro criterion_rows_back) simp
  then show ?thesis
    by (simp add: evidence_record_def evidence_insert_params_def transition_rows_back owner_keys_def
        artifact_rows_back)
      (simp add: evidence_to_durable_def identity_to_durable_def)
qed

lemma criterion_rows_ok:
  assumes "uuid4_canonical rid" "\<forall>c \<in> set cs. is_aware (cr_recorded_at c)"
    "ps \<in> set (criterion_rows_of rid cs)"
  shows "stmt_ok (Insert T_evidence_package_criterion_result ps)" "aware_params ps"
    "map_of ps K_evidence_package_runtime_id = Some (SText rid)"
  using assms positioned_mem[of ps "criterion_params rid" "map criterion_to_durable cs"]
  by (auto simp: criterion_rows_of_def criterion_params_def params_typed_def column_type_def
      aware_params_def criterion_to_durable_def)

lemma artifact_rows_ok:
  assumes "uuid4_canonical rid" "ps \<in> set (artifact_rows_of rid refs)"
  shows "stmt_ok (Insert T_evidence_package_artifact_reference ps)" "aware_params ps"
    "map_of ps K_evidence_package_runtime_id = Some (SText rid)"
  using assms positioned_mem[of ps "artifact_params rid" "map reference_value refs"]
  by (auto simp: artifact_rows_of_def artifact_params_def params_typed_def column_type_def
      aware_params_def)

lemma criterion_rows_sorted:
  "sorted_wrt (<) (map (\<lambda>r. int_value (r K_position)) (map map_of (criterion_rows_of rid cs)))"
  unfolding criterion_rows_of_def by (rule positioned_sorted) (simp add: criterion_params_def)

lemma artifact_rows_sorted:
  "sorted_wrt (<) (map (\<lambda>r. int_value (r K_position)) (map map_of (artifact_rows_of rid refs)))"
  unfolding artifact_rows_of_def by (rule positioned_sorted) (simp add: artifact_params_def)

interpretation evidence_tables: store_shape evidence_store EvidencePackageId evidence_storable
proof unfold_locales
  fix a assume a: "evidence_storable a"
  then show "identity_ok EvidencePackageId (st_identity evidence_store a)"
    by (simp add: evidence_storable_def evidence_ok_def)
  show "0 \<le> st_version evidence_store a"
    using a by (simp add: evidence_storable_def evidence_ok_def)
  have rid: "uuid4_canonical (run_str (ev_identity a))"
    using a by (auto simp: evidence_storable_def evidence_ok_def intro: identity_canonical)
  show "stmt_ok (Insert (st_root evidence_store) (st_insert evidence_store a))"
    using rid by (auto simp: evidence_insert_params_def params_typed_def column_type_def)
  show "aware_params (st_insert evidence_store a)" "aware_params (st_set evidence_store a)"
    by (simp_all add: aware_params_def evidence_insert_params_def evidence_set_params_def)
  show "map_of (st_insert evidence_store a) K_runtime_id = Some (SText (run_str (st_identity evidence_store a)))"
    "map_of (st_insert evidence_store a) K_governance_id = Some (SText (gov_str (st_identity evidence_store a)))"
    "map_of (st_insert evidence_store a) K_version = Some (SInt (st_version evidence_store a))"
    by (simp_all add: evidence_insert_row)
  show "params_typed (st_root evidence_store) (st_set evidence_store a)"
    by (simp add: params_typed_def column_type_def evidence_set_params_def)
  show "K_runtime_id \<notin> fst ` set (st_set evidence_store a)
      \<and> K_governance_id \<notin> fst ` set (st_set evidence_store a)"
    by (simp add: evidence_set_params_def)
  have "\<forall>c \<in> set (ev_results a). cr_package_id c = governance_id (ev_identity a)"
    using a by (simp add: evidence_storable_def evidence_ok_def)
  from evidence_record_back[OF this]
  show "st_load evidence_store (st_identity evidence_store a) (map_of (st_insert evidence_store a))
      (map (\<lambda>ch. rows_of ch a) (st_children evidence_store)) = Inr a"
    using a by (simp add: rows_of_def evidence_children_def) (simp add: evidence_store_def
      evidence_storable_def evidence_from_to_durable reconstruct_evidence_ok)
next
  fix a b assume "st_identity evidence_store b = st_identity evidence_store a"
  then show "map_of (st_insert evidence_store b) ++ map_of (st_set evidence_store a)
      = map_of (st_insert evidence_store a)"
    by (intro ext) (simp add: evidence_insert_params_def evidence_set_params_def map_add_def)
next
  fix a :: evidence_package and ch ps
  assume a: "evidence_storable a" and ch: "ch \<in> set (st_children evidence_store)"
  then have inv: "history_inv (ev_identity a) (evidence_state_value E_INITIALIZED) evidence_allowed_edges
      evidence_terminal_states (evidence_state_value (ev_state a)) (ev_next_sequence a)
      (ev_version a) (ev_history a)" "identity_ok EvidencePackageId (ev_identity a)"
    "history_aware (ev_history a)" "\<forall>c \<in> set (ev_results a). is_aware (cr_recorded_at c)"
    by (simp_all add: evidence_storable_def evidence_ok_def)
  show "sorted_wrt (<) (map (\<lambda>r. int_value (r (ch_order ch))) (rows_of ch a))"
    using ch inv(1) transition_rows_sorted[of K_evidence_package_runtime_id 1 "ev_history a"]
      criterion_rows_sorted artifact_rows_sorted
    by (auto simp: rows_of_def owner_keys_def history_inv_def evidence_children_def)
  assume ps: "ps \<in> set (ch_rows ch a)"
  note rid = identity_canonical[OF inv(2)]
  show "stmt_ok (Insert (ch_table ch) ps)"
    using ch ps transition_rows_ok[OF transition_tables(3) inv(2,1)] criterion_rows_ok[OF rid inv(4)]
      artifact_rows_ok[OF rid]
    by (auto simp: evidence_children_def simp del: stmt_ok.simps)
  show "aware_params ps"
    using ch ps transition_rows_aware[OF inv(3)] criterion_rows_ok[OF rid inv(4)] artifact_rows_ok[OF rid]
    by (auto simp: evidence_children_def)
  show "map_of ps (ch_key ch) = Some (SText (run_str (st_identity evidence_store a)))"
    using ch ps criterion_rows_ok[OF rid inv(4)] artifact_rows_ok[OF rid]
    by (auto simp: transition_rows_def evidence_children_def)
qed (auto simp: column_type_def evidence_children_def)

lemma evidence_on_server:
  assumes "postgres_server pg tab tz" "can_work sv"
  shows "repository_on_server evidence_store EvidencePackageId evidence_storable pg tab tz sv"
  using assms evidence_tables.store_shape_axioms
  by (simp add: repository_on_server_def stored_aggregate_def repository_on_server_axioms_def)

interpretation evidence_on_tables: repository_on_server evidence_store EvidencePackageId evidence_storable
    table_server contents utc ready_service
  by (rule evidence_on_server[OF table_db.postgres_server_axioms ready_service_can_work])

end
