(* ===== verification/Run_Repository.thy ===== *)
theory Run_Repository
  imports Run Transition_Rows Table_Engine
begin

text \<open>
  \<^verbatim>\<open>shared/persistence/postgres_repositories/run_repository.py\<close>: the rows of a Run,
  the three methods as the file writes them, the proof that they have the shape of \<open>Store\<close>
  over a well-formed store, and the contract that follows on any PostgreSQL server.
\<close>

section \<open>Rows\<close>

definition run_transition_params :: "string \<Rightarrow> transition_durable \<Rightarrow> params" where
  "run_transition_params rid t = transition_params K_run_runtime_id rid t"

definition row_to_manifest :: "string \<Rightarrow> row \<Rightarrow> exn + dataset_manifest_durable" where
  "row_to_manifest run_governance_id row =
     rbind (get_time row K_recorded_at)
     (\<lambda>recorded_at. rbind (get_str row K_source)
     (\<lambda>source. rbind (get_optional_text row K_acquisition_method)
     (\<lambda>acquisition. rbind (get_optional_text row K_normalization_method)
     (\<lambda>normalization. rbind (get_optional_text row K_manifest_id)
     (\<lambda>manifest_id. rbind (get_texts row K_notes)
     (\<lambda>notes. Inr
        \<lparr>dmd_run_id = run_governance_id, dmd_recorded_at = recorded_at, dmd_source = source,
         dmd_acquisition_method = acquisition, dmd_normalization_method = normalization,
         dmd_manifest_id = manifest_id, dmd_notes = notes\<rparr>))))))"

definition manifest_params :: "string \<Rightarrow> int \<Rightarrow> dataset_manifest_durable \<Rightarrow> params" where
  "manifest_params rid position m =
     [(K_run_runtime_id, SText rid),
      (K_position, SInt position),
      (K_manifest_id, optional_text (dmd_manifest_id m)),
      (K_recorded_at, STime (dmd_recorded_at m)),
      (K_source, SText (dmd_source m)),
      (K_acquisition_method, optional_text (dmd_acquisition_method m)),
      (K_normalization_method, optional_text (dmd_normalization_method m)),
      (K_notes, STexts (dmd_notes m))]"

definition run_insert_params :: "run_durable \<Rightarrow> params" where
  "run_insert_params d =
     [(K_runtime_id, SText (idr_runtime_id (rd_identity d))),
      (K_governance_id, SText (idr_governance_id (rd_identity d))),
      (K_campaign_id, SText (rd_campaign_id d)),
      (K_lifecycle_state, SText (rd_lifecycle_state d)),
      (K_version, SInt (rd_version d)),
      (K_next_transition_sequence, SInt (rd_next_sequence d))]"

definition run_set_params :: "run_durable \<Rightarrow> params" where
  "run_set_params d =
     [(K_campaign_id, SText (rd_campaign_id d)),
      (K_lifecycle_state, SText (rd_lifecycle_state d)),
      (K_next_transition_sequence, SInt (rd_next_sequence d)),
      (K_version, SInt (rd_version d))]"

definition run_record :: "row \<Rightarrow> row list \<Rightarrow> row list \<Rightarrow> exn + run_durable" where
  "run_record root manifest_rows rows =
     rbind (get_str root K_governance_id)
     (\<lambda>g. rbind (get_str root K_runtime_id)
     (\<lambda>r. rbind (get_str root K_campaign_id)
     (\<lambda>campaign_id. rbind (get_str root K_lifecycle_state)
     (\<lambda>state. rbind (rmap (row_to_manifest g) manifest_rows)
     (\<lambda>manifests. rbind (get_int root K_version)
     (\<lambda>version. rbind (get_int root K_next_transition_sequence)
     (\<lambda>next_seq. rbind (rmap row_to_transition rows)
     (\<lambda>history. Inr
        \<lparr>rd_identity = \<lparr>idr_governance_id = g, idr_runtime_id = r\<rparr>, rd_campaign_id = campaign_id,
         rd_lifecycle_state = state, rd_manifests = manifests, rd_version = version,
         rd_next_sequence = next_seq, rd_history = history\<rparr>))))))))"

section \<open>The three methods\<close>

definition run_repository_get ::
    "'db postgres \<Rightarrow> service \<Rightarrow> domain_identity \<Rightarrow> ('db exec_context, run loaded_aggregate) prog" where
  "run_repository_get pg sv i =
     unit_of_work pg sv
       (pbind (execute pg (Select None T_run
                 [(K_runtime_id, SText (run_str i)), (K_governance_id, SText (gov_str i))] None))
        (\<lambda>rows. case rows of
           [] \<Rightarrow>
             pbind (execute pg (Select (Some [K_governance_id]) T_run
                      [(K_runtime_id, SText (run_str i))] None))
             (\<lambda>diagnostic_rows. case diagnostic_rows of
                [] \<Rightarrow> praise (AggregateNotFound ''Run'' i)
              | _ # _ \<Rightarrow> praise (InvalidPersistedAggregateState ''Run'' requested_mismatch (Some i)))
         | root # _ \<Rightarrow>
             pbind (execute pg (Select None T_run_manifest
                      [(K_run_runtime_id, SText (run_str i))] (Some K_position)))
             (\<lambda>manifest_rows. pbind (execute pg (Select None T_run_transition
                      [(K_run_runtime_id, SText (run_str i))] (Some K_sequence)))
             (\<lambda>transition_rows. pbind (plift (run_record root manifest_rows transition_rows))
             (\<lambda>record. pbind (plift (rcatch (invalid_mapping_as ''Run'' i) (run_from_durable record)))
             (\<lambda>state. pbind (plift (rcatch (invalid_reconstruction_as ''Run'' i) (reconstruct_run state)))
             (\<lambda>aggregate. pbind (plift (get_version root))
             (\<lambda>persisted_version.
                preturn \<lparr>la_aggregate = aggregate, la_version = persisted_version\<rparr>))))))))"

definition run_repository_add ::
    "'db postgres \<Rightarrow> service \<Rightarrow> run \<Rightarrow> ('db exec_context, save_result) prog" where
  "run_repository_add pg sv aggregate =
     (let i = run_identity aggregate; record = run_to_durable aggregate; rid = idr_runtime_id (rd_identity record) in
      pbind (unit_of_work pg sv
        (pcatch (already_exists_as ''Run'' [''pk_run'', ''uq_run_governance_id''] i)
          (pbind (execute pg (Insert T_run (run_insert_params record)))
           (\<lambda>_. pbind (insert_all pg T_run_manifest
                (positioned (manifest_params rid) (rd_manifests record)))
           (\<lambda>_. insert_all pg T_run_transition
                (map (run_transition_params rid) (rd_history record)))))))
      (\<lambda>_. pbind (plift (make_version (rd_version record)))
      (\<lambda>v. preturn \<lparr>sr_operation = OpCreated, sr_version = v\<rparr>)))"

definition run_repository_save ::
    "'db postgres \<Rightarrow> service \<Rightarrow> run \<Rightarrow> aggregate_version \<Rightarrow> ('db exec_context, save_result) prog" where
  "run_repository_save pg sv aggregate expected =
     (let i = run_identity aggregate; record = run_to_durable aggregate;
          rid = idr_runtime_id (rd_identity record); gid = idr_governance_id (rd_identity record) in
      if rd_version record < version_value expected then
        praise (InvalidAggregateForPersistence ''Run'' stale_version (Some i))
      else
        let intended = (if rd_version record = version_value expected then OpUnchanged else OpUpdated) in
        unit_of_work pg sv
          (pbind (execute pg (Update T_run (run_set_params record)
                    [(K_runtime_id, SText rid), (K_governance_id, SText gid),
                     (K_version, SInt (version_value expected))] [K_version]))
           (\<lambda>update_rows. pbind
              (case update_rows of
                 [] \<Rightarrow>
                   pbind (execute pg (Select (Some [K_governance_id, K_version]) T_run
                            [(K_runtime_id, SText rid)] None))
                   (\<lambda>diagnostic_rows. case diagnostic_rows of
                      [] \<Rightarrow> praise (AggregateNotFound ''Run'' i)
                    | diagnostic_row # _ \<Rightarrow>
                        pbind (plift (get_text diagnostic_row K_governance_id))
                        (\<lambda>g. if g \<noteq> gid then
                               praise (InvalidPersistedAggregateState ''Run'' aggregate_mismatch (Some i))
                             else
                               pbind (plift (make_version (rd_version record)))
                               (\<lambda>current. pbind (plift (get_version diagnostic_row))
                               (\<lambda>actual. praise (OptimisticConcurrencyConflict ''Run'' i expected
                                            current (Some actual))))))
               | _ # _ \<Rightarrow> preturn ())
              (\<lambda>_. pbind
                 (if intended = OpUpdated then
                    pbind (execute pg (Delete T_run_manifest [(K_run_runtime_id, SText rid)]))
                    (\<lambda>_. pbind (execute pg (Delete T_run_transition [(K_run_runtime_id, SText rid)]))
                    (\<lambda>_. pbind (insert_all pg T_run_manifest
                         (positioned (manifest_params rid) (rd_manifests record)))
                    (\<lambda>_. insert_all pg T_run_transition
                         (map (run_transition_params rid) (rd_history record)))))
                  else preturn ())
              (\<lambda>_. pbind (plift (make_version (rd_version record)))
              (\<lambda>v. preturn \<lparr>sr_operation = intended, sr_version = v\<rparr>))))))"

section \<open>The store\<close>

definition run_storable :: "run \<Rightarrow> bool" where
  "run_storable r \<longleftrightarrow>
     run_ok r \<and> history_aware (run_history r)
     \<and> (\<forall>m \<in> set (run_manifests r). is_aware (dm_recorded_at m))"

definition manifest_rows_of :: "string \<Rightarrow> dataset_manifest list \<Rightarrow> params list" where
  "manifest_rows_of rid ms = positioned (manifest_params rid) (map manifest_to_durable ms)"

definition run_children :: "run child_table list" where
  "run_children =
     [\<lparr>ch_table = T_run_manifest, ch_key = K_run_runtime_id, ch_order = K_position,
       ch_rows = (\<lambda>r. manifest_rows_of (run_str (run_identity r)) (run_manifests r))\<rparr>,
      \<lparr>ch_table = T_run_transition, ch_key = K_run_runtime_id, ch_order = K_sequence,
       ch_rows = (\<lambda>r. transition_rows K_run_runtime_id (run_str (run_identity r)) (run_history r))\<rparr>]"

definition run_store :: "run store" where
  "run_store =
     \<lparr>st_kind = ''Run'', st_root = T_run,
      st_unique = [''pk_run'', ''uq_run_governance_id''],
      st_identity = run_identity, st_version = version_value \<circ> run_version,
      st_insert = run_insert_params \<circ> run_to_durable,
      st_set = run_set_params \<circ> run_to_durable,
      st_children = run_children,
      st_load = (\<lambda>i root cs.
        rbind (run_record root (cs ! 0) (cs ! 1))
        (\<lambda>record. rbind (rcatch (invalid_mapping_as ''Run'' i) (run_from_durable record))
        (\<lambda>state. rcatch (invalid_reconstruction_as ''Run'' i) (reconstruct_run state))))\<rparr>"

lemma run_store_simps [simp]:
  "st_kind run_store = ''Run''" "st_root run_store = T_run"
  "st_unique run_store = [''pk_run'', ''uq_run_governance_id'']"
  "st_identity run_store = run_identity"
  "st_version run_store c = version_value (run_version c)"
  "st_insert run_store c = run_insert_params (run_to_durable c)"
  "st_set run_store c = run_set_params (run_to_durable c)"
  "st_children run_store = run_children"
  by (simp_all add: run_store_def)

lemma run_identity_durable [simp]:
  "idr_runtime_id (rd_identity (run_to_durable c)) = run_str (run_identity c)"
  "idr_governance_id (rd_identity (run_to_durable c)) = gov_str (run_identity c)"
  by (simp_all add: run_to_durable_def identity_to_durable_def)

lemma run_version_durable [simp]: "rd_version (run_to_durable c) = version_value (run_version c)"
  by (simp add: run_to_durable_def)

lemma run_child_params:
  "positioned (manifest_params rid) (rd_manifests (run_to_durable r)) = manifest_rows_of rid (run_manifests r)"
  "map (run_transition_params rid) (rd_history (run_to_durable r))
     = transition_rows K_run_runtime_id rid (run_history r)"
  by (simp_all add: run_transition_params_def run_to_durable_def transition_rows_def manifest_rows_of_def)

lemmas run_child_defs =
  run_children_def fetch_child_def insert_child_def insert_all_def delete_child_def
  run_child_params

text \<open>The methods as written are the shared shape.\<close>

lemma run_get_is_store: "run_repository_get = store_get run_store"
  by (intro ext) (simp add: run_repository_get_def store_get_def store_get_body_def by_identity_def
      by_runtime_def run_store_def run_child_defs plift_rbind cong: list.case_cong)

lemma run_add_is_store: "run_repository_add = store_add run_store"
  by (intro ext) (simp add: run_repository_add_def store_add_def store_add_body_def Let_def
      run_child_defs)

lemma run_save_is_store: "run_repository_save = store_save run_store"
  by (intro ext) (simp add: run_repository_save_def store_save_def store_save_body_def
      diagnose_save_def Let_def by_identity_and_version_def by_runtime_def
      run_child_defs cong: list.case_cong if_cong)

section \<open>The store is well-formed\<close>

lemma run_insert_row:
  "map_of (run_insert_params d) K_runtime_id = Some (SText (idr_runtime_id (rd_identity d)))"
  "map_of (run_insert_params d) K_governance_id = Some (SText (idr_governance_id (rd_identity d)))"
  "map_of (run_insert_params d) K_version = Some (SInt (rd_version d))"
  by (simp_all add: run_insert_params_def)

lemma manifest_row_back:
  "dmd_run_id m = g \<Longrightarrow> row_to_manifest g (map_of (manifest_params rid p m)) = Inr m"
  by (cases m) (simp add: row_to_manifest_def manifest_params_def)

lemma manifest_rows_back:
  assumes "\<forall>m \<in> set ms. identifier_str (dm_run_id m) = g"
  shows "rmap (row_to_manifest g) (map map_of (manifest_rows_of rid ms)) = Inr (map manifest_to_durable ms)"
  unfolding manifest_rows_of_def using assms
  by (intro positioned_back manifest_row_back) (auto simp: manifest_to_durable_def)

lemma run_record_back:
  assumes "\<forall>m \<in> set (run_manifests r). dm_run_id m = governance_id (run_identity r)"
  shows "run_record (map_of (run_insert_params (run_to_durable r)))
     (map map_of (manifest_rows_of rid (run_manifests r)))
     (map map_of (transition_rows K_run_runtime_id rid (run_history r)))
   = Inr (run_to_durable r)"
proof -
  have "rmap (row_to_manifest (gov_str (run_identity r))) (map map_of (manifest_rows_of rid (run_manifests r)))
      = Inr (map manifest_to_durable (run_manifests r))"
    using assms by (intro manifest_rows_back) simp
  then show ?thesis
    by (simp add: run_record_def run_insert_params_def transition_rows_back owner_keys_def)
      (simp add: run_to_durable_def identity_to_durable_def)
qed

lemma manifest_rows_ok:
  assumes "uuid4_canonical rid" "\<forall>m \<in> set ms. is_aware (dm_recorded_at m)"
    "ps \<in> set (manifest_rows_of rid ms)"
  shows "stmt_ok (Insert T_run_manifest ps)" "aware_params ps"
    "map_of ps K_run_runtime_id = Some (SText rid)"
  using assms positioned_mem[of ps "manifest_params rid" "map manifest_to_durable ms"]
  by (auto simp: manifest_rows_of_def manifest_params_def params_typed_def column_type_def
      aware_params_def manifest_to_durable_def)

lemma manifest_rows_sorted:
  "sorted_wrt (<) (map (\<lambda>r. int_value (r K_position)) (map map_of (manifest_rows_of rid ms)))"
  unfolding manifest_rows_of_def by (rule positioned_sorted) (simp add: manifest_params_def)

interpretation run_tables: store_shape run_store RunId run_storable
proof unfold_locales
  fix a assume a: "run_storable a"
  then show "identity_ok RunId (st_identity run_store a)"
    by (simp add: run_storable_def run_ok_def)
  show "0 \<le> st_version run_store a"
    using a by (simp add: run_storable_def run_ok_def)
  have rid: "uuid4_canonical (run_str (run_identity a))"
    using a by (auto simp: run_storable_def run_ok_def intro: identity_canonical)
  show "stmt_ok (Insert (st_root run_store) (st_insert run_store a))"
    using rid by (auto simp: run_insert_params_def params_typed_def column_type_def)
  show "aware_params (st_insert run_store a)" "aware_params (st_set run_store a)"
    by (simp_all add: aware_params_def run_insert_params_def run_set_params_def)
  show "map_of (st_insert run_store a) K_runtime_id = Some (SText (run_str (st_identity run_store a)))"
    "map_of (st_insert run_store a) K_governance_id = Some (SText (gov_str (st_identity run_store a)))"
    "map_of (st_insert run_store a) K_version = Some (SInt (st_version run_store a))"
    by (simp_all add: run_insert_row)
  show "params_typed (st_root run_store) (st_set run_store a)"
    by (simp add: params_typed_def column_type_def run_set_params_def)
  show "K_runtime_id \<notin> fst ` set (st_set run_store a) \<and> K_governance_id \<notin> fst ` set (st_set run_store a)"
    by (simp add: run_set_params_def)
  have "\<forall>m \<in> set (run_manifests a). dm_run_id m = governance_id (run_identity a)"
    using a by (simp add: run_storable_def run_ok_def)
  from run_record_back[OF this]
  show "st_load run_store (st_identity run_store a) (map_of (st_insert run_store a))
      (map (\<lambda>ch. rows_of ch a) (st_children run_store)) = Inr a"
    using a by (simp add: rows_of_def run_children_def) (simp add: run_store_def
      run_storable_def run_from_to_durable reconstruct_run_ok)
next
  fix a b assume "st_identity run_store b = st_identity run_store a"
  then show "map_of (st_insert run_store b) ++ map_of (st_set run_store a) = map_of (st_insert run_store a)"
    by (intro ext) (simp add: run_insert_params_def run_set_params_def map_add_def)
next
  fix a :: run and ch ps
  assume a: "run_storable a" and ch: "ch \<in> set (st_children run_store)"
  then have inv: "history_inv (run_identity a) (run_state_value R_CREATED) run_allowed_edges
      run_terminal_states (run_state_value (run_state a)) (run_next_sequence a)
      (run_version a) (run_history a)" "identity_ok RunId (run_identity a)"
    "history_aware (run_history a)" "\<forall>m \<in> set (run_manifests a). is_aware (dm_recorded_at m)"
    by (simp_all add: run_storable_def run_ok_def)
  show "sorted_wrt (<) (map (\<lambda>r. int_value (r (ch_order ch))) (rows_of ch a))"
    using ch inv(1) transition_rows_sorted[of K_run_runtime_id 1 "run_history a"] manifest_rows_sorted
    by (auto simp: rows_of_def owner_keys_def history_inv_def run_children_def)
  assume ps: "ps \<in> set (ch_rows ch a)"
  note rid = identity_canonical[OF inv(2)]
  show "stmt_ok (Insert (ch_table ch) ps)"
    using ch ps transition_rows_ok[OF transition_tables(2) inv(2,1)] manifest_rows_ok[OF rid inv(4)]
    by (auto simp: run_children_def simp del: stmt_ok.simps)
  show "aware_params ps"
    using ch ps transition_rows_aware[OF inv(3)] manifest_rows_ok[OF rid inv(4)]
    by (auto simp: run_children_def)
  show "map_of ps (ch_key ch) = Some (SText (run_str (st_identity run_store a)))"
    using ch ps manifest_rows_ok[OF rid inv(4)] by (auto simp: transition_rows_def run_children_def)
qed (auto simp: column_type_def run_children_def)

lemma run_on_server:
  assumes "postgres_server pg tab tz" "can_work sv"
  shows "repository_on_server run_store RunId run_storable pg tab tz sv"
  using assms run_tables.store_shape_axioms
  by (simp add: repository_on_server_def stored_aggregate_def repository_on_server_axioms_def)

interpretation run_on_tables: repository_on_server run_store RunId run_storable
    table_server contents utc ready_service
  by (rule run_on_server[OF table_db.postgres_server_axioms ready_service_can_work])

end
