(* ===== verification/Campaign_Repository.thy ===== *)
theory Campaign_Repository
  imports Campaign Transition_Rows Table_Engine
begin

text \<open>
  \<^verbatim>\<open>shared/persistence/postgres_repositories/campaign_repository.py\<close>: the rows of a Campaign,
  the three methods as the file writes them, the proof that they have the shape of \<open>Store\<close>
  over a well-formed store, and the contract that follows on any PostgreSQL server.
\<close>

section \<open>Rows\<close>

definition campaign_transition_params :: "string \<Rightarrow> transition_durable \<Rightarrow> params" where
  "campaign_transition_params rid t = transition_params K_campaign_runtime_id rid t"

definition campaign_insert_params :: "campaign_durable \<Rightarrow> params" where
  "campaign_insert_params d =
     [(K_runtime_id, SText (idr_runtime_id (cd_identity d))),
      (K_governance_id, SText (idr_governance_id (cd_identity d))),
      (K_scope_statement, SText (cd_scope_statement d)),
      (K_lifecycle_state, SText (cd_lifecycle_state d)),
      (K_version, SInt (cd_version d)),
      (K_next_transition_sequence, SInt (cd_next_sequence d))]"

definition campaign_set_params :: "campaign_durable \<Rightarrow> params" where
  "campaign_set_params d =
     [(K_scope_statement, SText (cd_scope_statement d)),
      (K_lifecycle_state, SText (cd_lifecycle_state d)),
      (K_next_transition_sequence, SInt (cd_next_sequence d)),
      (K_version, SInt (cd_version d))]"

definition campaign_record :: "row \<Rightarrow> row list \<Rightarrow> exn + campaign_durable" where
  "campaign_record root rows =
     rbind (get_str root K_governance_id)
     (\<lambda>g. rbind (get_str root K_runtime_id)
     (\<lambda>r. rbind (get_str root K_scope_statement)
     (\<lambda>scope. rbind (get_str root K_lifecycle_state)
     (\<lambda>state. rbind (get_int root K_version)
     (\<lambda>version. rbind (get_int root K_next_transition_sequence)
     (\<lambda>next_seq. rbind (rmap row_to_transition rows)
     (\<lambda>history. Inr
        \<lparr>cd_identity = \<lparr>idr_governance_id = g, idr_runtime_id = r\<rparr>, cd_scope_statement = scope,
         cd_lifecycle_state = state, cd_version = version, cd_next_sequence = next_seq,
         cd_history = history\<rparr>)))))))"

section \<open>The three methods\<close>

definition campaign_repository_get ::
    "'db postgres \<Rightarrow> service \<Rightarrow> domain_identity \<Rightarrow> ('db exec_context, campaign loaded_aggregate) prog" where
  "campaign_repository_get pg sv i =
     unit_of_work pg sv
       (pbind (execute pg (Select None T_campaign
                 [(K_runtime_id, SText (run_str i)), (K_governance_id, SText (gov_str i))] None))
        (\<lambda>rows. case rows of
           [] \<Rightarrow>
             pbind (execute pg (Select (Some [K_governance_id]) T_campaign
                      [(K_runtime_id, SText (run_str i))] None))
             (\<lambda>diagnostic_rows. case diagnostic_rows of
                [] \<Rightarrow> praise (AggregateNotFound ''Campaign'' i)
              | _ # _ \<Rightarrow> praise (InvalidPersistedAggregateState ''Campaign'' requested_mismatch (Some i)))
         | root # _ \<Rightarrow>
             pbind (execute pg (Select None T_campaign_transition
                      [(K_campaign_runtime_id, SText (run_str i))] (Some K_sequence)))
             (\<lambda>transition_rows. pbind (plift (campaign_record root transition_rows))
             (\<lambda>record. pbind (plift (rcatch (invalid_mapping_as ''Campaign'' i) (campaign_from_durable record)))
             (\<lambda>state. pbind (plift (rcatch (invalid_reconstruction_as ''Campaign'' i) (reconstruct_campaign state)))
             (\<lambda>aggregate. pbind (plift (get_version root))
             (\<lambda>persisted_version.
                preturn \<lparr>la_aggregate = aggregate, la_version = persisted_version\<rparr>)))))))"

definition campaign_repository_add ::
    "'db postgres \<Rightarrow> service \<Rightarrow> campaign \<Rightarrow> ('db exec_context, save_result) prog" where
  "campaign_repository_add pg sv aggregate =
     (let i = camp_identity aggregate; record = campaign_to_durable aggregate in
      pbind (unit_of_work pg sv
        (pcatch (already_exists_as ''Campaign'' [''pk_campaign'', ''uq_campaign_governance_id''] i)
          (pbind (execute pg (Insert T_campaign (campaign_insert_params record)))
           (\<lambda>_. insert_all pg T_campaign_transition
              (map (campaign_transition_params (idr_runtime_id (cd_identity record))) (cd_history record))))))
      (\<lambda>_. pbind (plift (make_version (cd_version record)))
      (\<lambda>v. preturn \<lparr>sr_operation = OpCreated, sr_version = v\<rparr>)))"

definition campaign_repository_save ::
    "'db postgres \<Rightarrow> service \<Rightarrow> campaign \<Rightarrow> aggregate_version \<Rightarrow> ('db exec_context, save_result) prog" where
  "campaign_repository_save pg sv aggregate expected =
     (let i = camp_identity aggregate; record = campaign_to_durable aggregate;
          rid = idr_runtime_id (cd_identity record); gid = idr_governance_id (cd_identity record) in
      if cd_version record < version_value expected then
        praise (InvalidAggregateForPersistence ''Campaign'' stale_version (Some i))
      else
        let intended = (if cd_version record = version_value expected then OpUnchanged else OpUpdated) in
        unit_of_work pg sv
          (pbind (execute pg (Update T_campaign (campaign_set_params record)
                    [(K_runtime_id, SText rid), (K_governance_id, SText gid),
                     (K_version, SInt (version_value expected))] [K_version]))
           (\<lambda>update_rows. pbind
              (case update_rows of
                 [] \<Rightarrow>
                   pbind (execute pg (Select (Some [K_governance_id, K_version]) T_campaign
                            [(K_runtime_id, SText rid)] None))
                   (\<lambda>diagnostic_rows. case diagnostic_rows of
                      [] \<Rightarrow> praise (AggregateNotFound ''Campaign'' i)
                    | diagnostic_row # _ \<Rightarrow>
                        pbind (plift (get_text diagnostic_row K_governance_id))
                        (\<lambda>g. if g \<noteq> gid then
                               praise (InvalidPersistedAggregateState ''Campaign'' aggregate_mismatch (Some i))
                             else
                               pbind (plift (make_version (cd_version record)))
                               (\<lambda>current. pbind (plift (get_version diagnostic_row))
                               (\<lambda>actual. praise (OptimisticConcurrencyConflict ''Campaign'' i expected
                                            current (Some actual))))))
               | _ # _ \<Rightarrow> preturn ())
              (\<lambda>_. pbind
                 (if intended = OpUpdated then
                    pbind (execute pg (Delete T_campaign_transition [(K_campaign_runtime_id, SText rid)]))
                    (\<lambda>_. insert_all pg T_campaign_transition
                           (map (campaign_transition_params rid) (cd_history record)))
                  else preturn ())
              (\<lambda>_. pbind (plift (make_version (cd_version record)))
              (\<lambda>v. preturn \<lparr>sr_operation = intended, sr_version = v\<rparr>))))))"

section \<open>The store\<close>

definition campaign_storable :: "campaign \<Rightarrow> bool" where
  "campaign_storable c \<longleftrightarrow> campaign_ok c \<and> history_aware (camp_history c)"

definition campaign_store :: "campaign store" where
  "campaign_store =
     \<lparr>st_kind = ''Campaign'', st_root = T_campaign,
      st_unique = [''pk_campaign'', ''uq_campaign_governance_id''],
      st_identity = camp_identity, st_version = version_value \<circ> camp_version,
      st_insert = campaign_insert_params \<circ> campaign_to_durable,
      st_set = campaign_set_params \<circ> campaign_to_durable,
      st_children =
        [\<lparr>ch_table = T_campaign_transition, ch_key = K_campaign_runtime_id, ch_order = K_sequence,
          ch_rows = (\<lambda>c. transition_rows K_campaign_runtime_id (run_str (camp_identity c)) (camp_history c))\<rparr>],
      st_load = (\<lambda>i root cs.
        rbind (campaign_record root (cs ! 0))
        (\<lambda>record. rbind (rcatch (invalid_mapping_as ''Campaign'' i) (campaign_from_durable record))
        (\<lambda>state. rcatch (invalid_reconstruction_as ''Campaign'' i) (reconstruct_campaign state))))\<rparr>"

lemma campaign_store_simps [simp]:
  "st_kind campaign_store = ''Campaign''" "st_root campaign_store = T_campaign"
  "st_unique campaign_store = [''pk_campaign'', ''uq_campaign_governance_id'']"
  "st_identity campaign_store = camp_identity"
  "st_version campaign_store c = version_value (camp_version c)"
  "st_insert campaign_store c = campaign_insert_params (campaign_to_durable c)"
  "st_set campaign_store c = campaign_set_params (campaign_to_durable c)"
  "st_children campaign_store =
     [\<lparr>ch_table = T_campaign_transition, ch_key = K_campaign_runtime_id, ch_order = K_sequence,
       ch_rows = (\<lambda>c. transition_rows K_campaign_runtime_id (run_str (camp_identity c)) (camp_history c))\<rparr>]"
  by (simp_all add: campaign_store_def)

lemma campaign_identity_durable [simp]:
  "idr_runtime_id (cd_identity (campaign_to_durable c)) = run_str (camp_identity c)"
  "idr_governance_id (cd_identity (campaign_to_durable c)) = gov_str (camp_identity c)"
  by (simp_all add: campaign_to_durable_def identity_to_durable_def)

lemma campaign_transition_rows:
  "map (campaign_transition_params rid) (cd_history (campaign_to_durable c))
     = transition_rows K_campaign_runtime_id rid (camp_history c)"
  by (simp add: campaign_transition_params_def campaign_to_durable_def transition_rows_def)

lemma campaign_version_durable [simp]: "cd_version (campaign_to_durable c) = version_value (camp_version c)"
  by (simp add: campaign_to_durable_def)

text \<open>The methods as written are the shared shape.\<close>

lemma campaign_get_is_store: "campaign_repository_get = store_get campaign_store"
  by (intro ext) (simp add: campaign_repository_get_def store_get_def store_get_body_def by_identity_def
      by_runtime_def campaign_store_def fetch_child_def plift_rbind cong: list.case_cong)

lemma campaign_add_is_store: "campaign_repository_add = store_add campaign_store"
  by (intro ext) (simp add: campaign_repository_add_def store_add_def store_add_body_def Let_def
      campaign_store_def insert_child_def insert_all_def campaign_transition_rows)

lemma campaign_save_is_store: "campaign_repository_save = store_save campaign_store"
  by (intro ext) (simp add: campaign_repository_save_def store_save_def store_save_body_def
      diagnose_save_def Let_def by_identity_and_version_def by_runtime_def
      insert_child_def insert_all_def delete_child_def campaign_transition_rows
      cong: list.case_cong if_cong)

section \<open>The store is well-formed\<close>

lemma campaign_insert_row:
  "map_of (campaign_insert_params d) K_runtime_id = Some (SText (idr_runtime_id (cd_identity d)))"
  "map_of (campaign_insert_params d) K_governance_id = Some (SText (idr_governance_id (cd_identity d)))"
  "map_of (campaign_insert_params d) K_version = Some (SInt (cd_version d))"
  by (simp_all add: campaign_insert_params_def)

lemma campaign_record_back:
  "campaign_record (map_of (campaign_insert_params (campaign_to_durable c)))
     (map map_of (transition_rows K_campaign_runtime_id rid (camp_history c)))
   = Inr (campaign_to_durable c)"
  by (simp add: campaign_record_def campaign_insert_params_def transition_rows_back owner_keys_def)
    (simp add: campaign_to_durable_def identity_to_durable_def)

interpretation campaign_tables: store_shape campaign_store CampaignId campaign_storable
proof unfold_locales
  fix a assume a: "campaign_storable a"
  then show "identity_ok CampaignId (st_identity campaign_store a)"
    by (simp add: campaign_storable_def campaign_ok_def)
  show "0 \<le> st_version campaign_store a"
    using a history_inv_version by (fastforce simp: campaign_storable_def campaign_ok_def version_order)
  have rid: "uuid4_canonical (run_str (camp_identity a))"
    using a by (auto simp: campaign_storable_def campaign_ok_def intro: identity_canonical)
  show "stmt_ok (Insert (st_root campaign_store) (st_insert campaign_store a))"
    using rid by (auto simp: campaign_insert_params_def params_typed_def column_type_def)
  show "aware_params (st_insert campaign_store a)" "aware_params (st_set campaign_store a)"
    by (simp_all add: aware_params_def campaign_insert_params_def campaign_set_params_def)
  show "map_of (st_insert campaign_store a) K_runtime_id = Some (SText (run_str (st_identity campaign_store a)))"
    "map_of (st_insert campaign_store a) K_governance_id = Some (SText (gov_str (st_identity campaign_store a)))"
    "map_of (st_insert campaign_store a) K_version = Some (SInt (st_version campaign_store a))"
    by (simp_all add: campaign_insert_row)
  show "params_typed (st_root campaign_store) (st_set campaign_store a)"
    by (simp add: params_typed_def column_type_def campaign_set_params_def)
  show "K_runtime_id \<notin> fst ` set (st_set campaign_store a)
      \<and> K_governance_id \<notin> fst ` set (st_set campaign_store a)"
    by (simp add: campaign_set_params_def)
  show "st_load campaign_store (st_identity campaign_store a) (map_of (st_insert campaign_store a))
      (map (\<lambda>ch. rows_of ch a) (st_children campaign_store)) = Inr a"
    using a by (simp add: rows_of_def) (simp add: campaign_store_def campaign_record_back
      campaign_storable_def campaign_from_to_durable reconstruct_campaign_ok)
next
  fix a b assume "st_identity campaign_store b = st_identity campaign_store a"
  then show "map_of (st_insert campaign_store b) ++ map_of (st_set campaign_store a) = map_of (st_insert campaign_store a)"
    by (intro ext) (simp add: campaign_insert_params_def campaign_set_params_def map_add_def)
next
  fix a :: campaign and ch ps
  assume a: "campaign_storable a" and ch: "ch \<in> set (st_children campaign_store)"
  then have inv: "history_inv (camp_identity a) (campaign_state_value C_DRAFT) campaign_allowed_edges
      campaign_terminal_states (campaign_state_value (camp_state a)) (camp_next_sequence a)
      (camp_version a) (camp_history a)" "identity_ok CampaignId (camp_identity a)"
    "history_aware (camp_history a)"
    by (simp_all add: campaign_storable_def campaign_ok_def)
  show "sorted_wrt (<) (map (\<lambda>r. int_value (r (ch_order ch))) (rows_of ch a))"
    using ch inv(1) transition_rows_sorted[of K_campaign_runtime_id 1 "camp_history a"]
    by (simp add: rows_of_def owner_keys_def history_inv_def)
  assume ps: "ps \<in> set (ch_rows ch a)"
  then show "stmt_ok (Insert (ch_table ch) ps)"
    using ch transition_rows_ok[OF transition_tables(1) inv(2,1)] by simp
  show "aware_params ps"
    using ch ps transition_rows_aware[OF inv(3)] by auto
  show "map_of ps (ch_key ch) = Some (SText (run_str (st_identity campaign_store a)))"
    using ch ps by (auto simp: transition_rows_def)
qed (auto simp: column_type_def)

lemma campaign_on_server:
  assumes "postgres_server pg tab tz" "can_work sv"
  shows "repository_on_server campaign_store CampaignId campaign_storable pg tab tz sv"
  using assms campaign_tables.store_shape_axioms
  by (simp add: repository_on_server_def stored_aggregate_def repository_on_server_axioms_def)

interpretation campaign_on_tables: repository_on_server campaign_store CampaignId campaign_storable
    table_server contents utc ready_service
  by (rule campaign_on_server[OF table_db.postgres_server_axioms ready_service_can_work])

end
