(* ===== verification/Use_Cases.thy ===== *)
theory Use_Cases
  imports Repository Table_Engine
begin

text \<open>
  What the use-case handlers of \<^verbatim>\<open>usecases/*.py\<close> share: the repository they are given (the
  Protocols \<^verbatim>\<open>CampaignRepository\<close>, \<^verbatim>\<open>RunRepository\<close>, \<^verbatim>\<open>EvidencePackageRepository\<close> and
  \<^verbatim>\<open>ReviewRepository\<close>, which have the same three methods), the two command classes that
  many modules repeat under their own name, and the three shapes of a handler: load, change
  and save; load and view; build and add. The laws of the shapes are proved once, from the
  contract \<open>aggregate_repository\<close>.
\<close>

section \<open>The repository port\<close>

record ('s, 'a) repository_port =
  rp_get :: "domain_identity \<Rightarrow> ('s, 'a loaded_aggregate) prog"
  rp_add :: "'a \<Rightarrow> ('s, save_result) prog"
  rp_save :: "'a \<Rightarrow> aggregate_version \<Rightarrow> ('s, save_result) prog"

section \<open>Commands shared by several use cases\<close>

text \<open>A transition command whose reason is required.\<close>

record reasoned_command =
  rc_identity :: domain_identity
  rc_expected :: aggregate_version
  rc_reason :: string
  rc_actor :: string
  rc_occurred_at :: datetime
  rc_correlation :: "string option"

text \<open>A transition command whose reason is optional.\<close>

record transition_command =
  tc_identity :: domain_identity
  tc_expected :: aggregate_version
  tc_actor :: string
  tc_occurred_at :: datetime
  tc_correlation :: "string option"
  tc_reason :: "string option"

section \<open>The three shapes\<close>

definition load_change_save ::
    "('s, 'a) repository_port \<Rightarrow> domain_identity \<Rightarrow> ('a \<Rightarrow> exn + 'a) \<Rightarrow> aggregate_version
     \<Rightarrow> ('s, save_result) prog" where
  "load_change_save repo i operation expected =
     pbind (rp_get repo i)
     (\<lambda>loaded. pbind (plift (operation (la_aggregate loaded)))
     (\<lambda>aggregate. rp_save repo aggregate expected))"

definition load_view ::
    "('s, 'a) repository_port \<Rightarrow> domain_identity \<Rightarrow> ('a \<Rightarrow> 'v) \<Rightarrow> ('s, 'v) prog" where
  "load_view repo i view = pbind (rp_get repo i) (\<lambda>loaded. preturn (view (la_aggregate loaded)))"

definition build_add ::
    "('s, 'a) repository_port \<Rightarrow> exn + 'a \<Rightarrow> ('a \<Rightarrow> domain_identity) \<Rightarrow> ('s, domain_identity) prog" where
  "build_add repo built ident =
     pbind (plift built) (\<lambda>aggregate. pbind (rp_add repo aggregate) (\<lambda>_. preturn (ident aggregate)))"

section \<open>Their laws\<close>

context aggregate_repository
begin

definition port :: "('s, 'a) repository_port" where
  "port = \<lparr>rp_get = get, rp_add = add, rp_save = save\<rparr>"

text \<open>What an operation of an aggregate keeps: the identity, and one step of the version.\<close>

definition advances :: "('a \<Rightarrow> exn + 'a) \<Rightarrow> 'a \<Rightarrow> bool" where
  "advances operation a \<longleftrightarrow>
     (\<forall>a'. operation a = Inr a' \<longrightarrow>
        valid a' \<and> ident a' = ident a \<and> version a' = version_next (version a))"

lemma loaded:
  assumes "good s" "valid a" "held s a" "get (ident a) s = (g, s')"
  shows "good s' \<and> held s' = held s
     \<and> (g = Inr \<lparr>la_aggregate = a, la_version = version a\<rparr> \<or> (\<exists>e. g = Inl e \<and> foundation_failure e))"
  using get_keeps[OF assms(1) valid_ident[OF assms(2)] assms(4)] get_held[OF assms] by simp

lemma change_cases:
  assumes "good s" "valid a" "held s a" "load_change_save port (ident a) operation v s = (r, s')"
  obtains (load) e where "r = Inl e" "foundation_failure e" "good s'" "held s' = held s"
  | (refused) e where "operation a = Inl e" "r = Inl e" "good s'" "held s' = held s"
  | (saved) a' s1 where "operation a = Inr a'" "good s1" "held s1 = held s" "save a' v s1 = (r, s')"
proof -
  obtain g s1 where got: "get (ident a) s = (g, s1)" by fastforce
  note l = loaded[OF assms(1-3) got]
  show thesis
  proof (cases g)
    case (Inl e)
    then have "r = Inl e" "s' = s1"
      using assms(4) got by (simp_all add: load_change_save_def port_def pbind_def)
    with l Inl load show thesis by auto
  next
    case (Inr x)
    then have x: "x = \<lparr>la_aggregate = a, la_version = version a\<rparr>" using l by simp
    show thesis
    proof (cases "operation a")
      case (Inl e)
      with Inr x assms(4) got l refused show thesis
        by (simp add: load_change_save_def port_def pbind_def plift_def)
    next
      case (Inr a')
      with \<open>g = Inr x\<close> x assms(4) got l saved[of a' s1] show thesis
        by (simp add: load_change_save_def port_def pbind_def plift_def)
    qed
  qed
qed

lemma change_committed:
  assumes "good s" "valid a" "held s a" "advances operation a"
    "load_change_save port (ident a) operation v s = (Inr res, s')"
  shows "\<exists>a'. operation a = Inr a' \<and> v = version a
     \<and> res = \<lparr>sr_operation = OpUpdated, sr_version = version a'\<rparr> \<and> good s'
     \<and> (\<forall>c. valid c \<longrightarrow> held s' c = (if ident c = ident a then c = a' else held s c))"
  using assms(1-3,5)
proof (cases rule: change_cases)
  case (saved a' s1)
  then have a': "valid a'" "ident a' = ident a" "version a' = version_next (version a)"
    using assms(4) by (simp_all add: advances_def)
  have "held s1 a" using saved assms(3) by simp
  from save_ok[OF saved(2) a'(1) assms(2) this a'(2)[symmetric] saved(4)] a' saved
  show ?thesis by (auto simp: version_order)
qed auto

lemma change_failed:
  assumes "good s" "valid a" "held s a" "advances operation a"
    "load_change_save port (ident a) operation v s = (Inl e, s')"
  shows "good s' \<and> (commit_failure e \<or> held s' = held s)"
  using assms(1-3,5)
proof (cases rule: change_cases)
  case (saved a' s1)
  then have a': "valid a'" "ident a' = ident a"
    using assms(4) by (simp_all add: advances_def)
  have "held s1 a" using saved assms(3) by simp
  from save_fails[OF saved(2) a'(1) assms(2) this a'(2)[symmetric] saved(4)] saved
  show ?thesis by simp
qed auto

lemma change_refused:
  assumes "good s" "valid a" "held s a" "operation a = Inl e0"
    "load_change_save port (ident a) operation v s = (r, s')"
  shows "good s' \<and> held s' = held s \<and> (r = Inl e0 \<or> (\<exists>e. r = Inl e \<and> foundation_failure e))"
  using assms(1-3,5) by (cases rule: change_cases) (use assms(4) in auto)

text \<open>Why a command fails: the aggregate refused, the version was stale, or the infrastructure failed.\<close>

lemma change_cause:
  assumes "good s" "valid a" "held s a" "advances operation a"
    "load_change_save port (ident a) operation v s = (Inl e, s')"
  shows "operation a = Inl e \<or> foundation_failure e
     \<or> (\<exists>a'. operation a = Inr a' \<and> v \<noteq> version a
          \<and> ((\<exists>kind. e = OptimisticConcurrencyConflict kind (ident a) v (version a') (Some (version a)))
             \<or> (\<exists>kind message. e = InvalidAggregateForPersistence kind message (Some (ident a)))))"
  using assms(1-3,5)
proof (cases rule: change_cases)
  case (saved a' s1)
  then have a': "valid a'" "ident a' = ident a" "version a' = version_next (version a)"
    using assms(4) by (simp_all add: advances_def)
  have held: "held s1 a" using saved assms(3) by simp
  show ?thesis
  proof (cases "v = version a")
    case True
    moreover have "version a \<le> version a'" using a'(3) by (simp add: version_order)
    ultimately show ?thesis
      using save_fresh[OF saved(2) a'(1) assms(2) held a'(2)[symmetric], of e s'] saved(4) by simp
  next
    case False
    show ?thesis
    proof (cases "v \<le> version a'")
      case True
      from save_stale[OF saved(2) a'(1) assms(2) held a'(2)[symmetric] False[symmetric] True saved(4)]
        a' saved False show ?thesis by auto
    next
      case False
      then have low: "version a' < v" by simp
      with a'(3) have "v \<noteq> version a" by (auto simp: version_order)
      with save_low[OF low, of s1] saved a' show ?thesis by auto
    qed
  qed
qed auto

lemma view_shows:
  assumes "good s" "valid a" "held s a" "load_view port (ident a) view s = (r, s')"
  shows "good s' \<and> held s' = held s \<and> (r = Inr (view a) \<or> (\<exists>e. r = Inl e \<and> foundation_failure e))"
proof -
  obtain g s1 where got: "get (ident a) s = (g, s1)" by fastforce
  from loaded[OF assms(1-3) got] assms(4) got show ?thesis
    by (auto simp: load_view_def port_def pbind_def preturn_def)
qed

lemma create_committed:
  assumes "good s" "\<And>a. built = Inr a \<Longrightarrow> valid a" "build_add port built ident s = (Inr i, s')"
  shows "\<exists>a. built = Inr a \<and> i = ident a \<and> good s' \<and> (\<forall>b. valid b \<longrightarrow> held s b \<longrightarrow> ident b \<noteq> i)
     \<and> (\<forall>b. valid b \<longrightarrow> held s' b = (if ident b = i then b = a else held s b))"
proof -
  from assms(3) obtain a res where a: "built = Inr a" "add a s = (Inr res, s')" "i = ident a"
    by (auto simp: build_add_def port_def pbind_Inr_iff)
  from add_ok[OF assms(1) assms(2)[OF a(1)] a(2)] a show ?thesis by simp
qed

lemma create_failed:
  assumes "good s" "\<And>a. built = Inr a \<Longrightarrow> valid a" "build_add port built ident s = (Inl e, s')"
  shows "good s' \<and> (commit_failure e \<or> held s' = held s)"
proof (cases built)
  case (Inl e')
  with assms(1,3) show ?thesis by (simp add: build_add_def pbind_def plift_def)
next
  case (Inr a)
  with assms(3) have "add a s = (Inl e, s')"
    by (auto simp: build_add_def port_def pbind_Inl_iff)
  from add_fails[OF assms(1) assms(2)[OF Inr] this] show ?thesis .
qed

lemma create_cause:
  assumes "good s" "\<And>a. built = Inr a \<Longrightarrow> valid a" "build_add port built ident s = (Inl e, s')"
  shows "built = Inl e \<or> foundation_failure e
     \<or> (\<exists>a kind. built = Inr a \<and> e = AggregateAlreadyExists kind (ident a))"
proof (cases built)
  case (Inl e')
  with assms(3) show ?thesis by (simp add: build_add_def pbind_def plift_def)
next
  case (Inr a)
  with assms(3) have "add a s = (Inl e, s')"
    by (auto simp: build_add_def port_def pbind_Inl_iff)
  from add_cause[OF assms(1) assms(2)[OF Inr] this] Inr show ?thesis by auto
qed

end

section \<open>The shapes over a stored aggregate\<close>

definition store_port :: "'a store \<Rightarrow> 'db postgres \<Rightarrow> service \<Rightarrow> ('db exec_context, 'a) repository_port" where
  "store_port st pg sv = \<lparr>rp_get = store_get st pg sv, rp_add = store_add st pg sv, rp_save = store_save st pg sv\<rparr>"

text \<open>
  \<open>becomes st valid tab cx a cx'\<close>: the durable state differs in exactly one thing, that it now
  keeps \<open>a\<close> under the identity of \<open>a\<close>.
\<close>

definition becomes ::
    "'a store \<Rightarrow> ('a \<Rightarrow> bool) \<Rightarrow> ('db \<Rightarrow> tables) \<Rightarrow> 'db exec_context \<Rightarrow> 'a \<Rightarrow> 'db exec_context \<Rightarrow> bool" where
  "becomes st valid tab cx a cx' \<longleftrightarrow>
     (\<forall>b. valid b \<longrightarrow>
        kept st tab cx' b = (if st_identity st b = st_identity st a then b = a else kept st tab cx b))"

lemma becomes_kept: "becomes st valid tab cx a cx' \<Longrightarrow> valid a \<Longrightarrow> kept st tab cx' a"
  by (simp add: becomes_def)

context repository_on_server
begin

lemma store_port_eq: "store_port st pg sv = repository.port"
  by (simp add: store_port_def repository.port_def)

lemma advancesI:
  assumes "\<And>a'. operation a = Inr a' \<Longrightarrow>
    valid a' \<and> st_identity st a' = st_identity st a \<and> st_version st a' = st_version st a + 1"
  shows "repository.advances operation a"
  using assms by (simp add: repository.advances_def aversion_def version_next_def)

lemmas stored_change_committed = repository.change_committed[folded store_port_eq]
lemmas stored_change_failed = repository.change_failed[folded store_port_eq]
lemmas stored_change_refused = repository.change_refused[folded store_port_eq]
lemmas stored_change_cause = repository.change_cause[folded store_port_eq]
lemmas stored_second_writer = repository.second_writer_fails
lemmas stored_view = repository.view_shows[folded store_port_eq]
lemmas stored_create_committed = repository.create_committed[folded store_port_eq]
lemmas stored_create_cause = repository.create_cause[folded store_port_eq]
lemmas stored_create_failed = repository.create_failed[folded store_port_eq]

end

text \<open>An idle context over the empty tables, where the examples start.\<close>

definition fresh_context :: "table_db exec_context" where
  "fresh_context = \<lparr>cx_db = empty_db, cx_active = False, cx_scope = None\<rparr>"

lemma fresh_context_usable: "usable contents fresh_context"
  by (simp add: usable_def fresh_context_def idle_def empty_db_schema_ok)

end
