(* ===== verification/Campaign_Use_Cases.thy ===== *)
theory Campaign_Use_Cases
  imports Campaign_Repository Use_Cases
begin

text \<open>
  The use cases of a Campaign: the handlers of \<^verbatim>\<open>usecases/create_campaign.py\<close>,
  \<^verbatim>\<open>get_campaign.py\<close>, \<^verbatim>\<open>revise_campaign_scope_statement.py\<close>,
  \<^verbatim>\<open>prepare_campaign_for_authorization.py\<close>, \<^verbatim>\<open>record_campaign_authorization.py\<close>,
  \<^verbatim>\<open>activate_campaign.py\<close>, \<^verbatim>\<open>suspend_campaign.py\<close>, \<^verbatim>\<open>resume_campaign.py\<close>,
  \<^verbatim>\<open>complete_campaign.py\<close> and \<^verbatim>\<open>cancel_campaign.py\<close>, over any repository; and what they do
  over the PostgreSQL one. \<open>generated\<close> is the result of the one call a handler makes to its
  runtime identifier generator.
\<close>

section \<open>Handlers\<close>

definition campaign_repository :: "'db postgres \<Rightarrow> service \<Rightarrow> ('db exec_context, campaign) repository_port" where
  "campaign_repository pg sv =
     \<lparr>rp_get = campaign_repository_get pg sv, rp_add = campaign_repository_add pg sv,
      rp_save = campaign_repository_save pg sv\<rparr>"

record create_campaign_command =
  cc_campaign_governance_id :: string
  cc_scope_statement :: string

definition create_campaign ::
    "('s, campaign) repository_port \<Rightarrow> exn + runtime_identifier \<Rightarrow> create_campaign_command
     \<Rightarrow> ('s, domain_identity) prog" where
  "create_campaign repo generated cmd =
     pbind (plift (make_identifier CampaignId (cc_campaign_governance_id cmd)))
     (\<lambda>g. pbind (plift generated)
     (\<lambda>r. pbind (plift (make_scope_statement (cc_scope_statement cmd)))
     (\<lambda>scope. pbind (plift (campaign_new (pair_identity g r) scope))
     (\<lambda>campaign. pbind (rp_add repo campaign)
     (\<lambda>_. preturn (camp_identity campaign))))))"

record campaign_snapshot =
  cs_identity :: domain_identity
  cs_scope_statement :: campaign_scope_statement
  cs_state :: campaign_state

definition get_campaign ::
    "('s, campaign) repository_port \<Rightarrow> domain_identity \<Rightarrow> ('s, campaign_snapshot) prog" where
  "get_campaign repo i =
     pbind (rp_get repo i)
     (\<lambda>loaded. let campaign = la_aggregate loaded in
        preturn \<lparr>cs_identity = camp_identity campaign, cs_scope_statement = camp_scope_statement campaign,
                 cs_state = camp_state campaign\<rparr>)"

record revise_scope_command =
  rs_identity :: domain_identity
  rs_expected :: aggregate_version
  rs_scope_statement :: string

definition revise_campaign_scope_statement ::
    "('s, campaign) repository_port \<Rightarrow> revise_scope_command \<Rightarrow> ('s, save_result) prog" where
  "revise_campaign_scope_statement repo cmd =
     pbind (rp_get repo (rs_identity cmd))
     (\<lambda>loaded. pbind (plift (make_scope_statement (rs_scope_statement cmd)))
     (\<lambda>scope. pbind (plift (campaign_revise_scope_statement scope (la_aggregate loaded)))
     (\<lambda>campaign. rp_save repo campaign (rs_expected cmd))))"

definition prepare_campaign_for_authorization ::
    "('s, campaign) repository_port \<Rightarrow> transition_command \<Rightarrow> ('s, save_result) prog" where
  "prepare_campaign_for_authorization repo cmd =
     pbind (rp_get repo (tc_identity cmd))
     (\<lambda>loaded. pbind (plift (campaign_prepare_for_authorization (tc_actor cmd) (tc_occurred_at cmd)
                  (tc_correlation cmd) (tc_reason cmd) (la_aggregate loaded)))
     (\<lambda>campaign. rp_save repo campaign (tc_expected cmd)))"

definition record_campaign_authorization ::
    "('s, campaign) repository_port \<Rightarrow> reasoned_command \<Rightarrow> ('s, save_result) prog" where
  "record_campaign_authorization repo cmd =
     pbind (rp_get repo (rc_identity cmd))
     (\<lambda>loaded. pbind (plift (campaign_record_authorization (rc_reason cmd) (rc_actor cmd)
                  (rc_occurred_at cmd) (rc_correlation cmd) (la_aggregate loaded)))
     (\<lambda>campaign. rp_save repo campaign (rc_expected cmd)))"

definition activate_campaign ::
    "('s, campaign) repository_port \<Rightarrow> reasoned_command \<Rightarrow> ('s, save_result) prog" where
  "activate_campaign repo cmd =
     pbind (rp_get repo (rc_identity cmd))
     (\<lambda>loaded. pbind (plift (campaign_activate (rc_reason cmd) (rc_actor cmd)
                  (rc_occurred_at cmd) (rc_correlation cmd) (la_aggregate loaded)))
     (\<lambda>campaign. rp_save repo campaign (rc_expected cmd)))"

definition suspend_campaign ::
    "('s, campaign) repository_port \<Rightarrow> reasoned_command \<Rightarrow> ('s, save_result) prog" where
  "suspend_campaign repo cmd =
     pbind (rp_get repo (rc_identity cmd))
     (\<lambda>loaded. pbind (plift (campaign_suspend (rc_reason cmd) (rc_actor cmd)
                  (rc_occurred_at cmd) (rc_correlation cmd) (la_aggregate loaded)))
     (\<lambda>campaign. rp_save repo campaign (rc_expected cmd)))"

definition resume_campaign ::
    "('s, campaign) repository_port \<Rightarrow> reasoned_command \<Rightarrow> ('s, save_result) prog" where
  "resume_campaign repo cmd =
     pbind (rp_get repo (rc_identity cmd))
     (\<lambda>loaded. pbind (plift (campaign_resume (rc_reason cmd) (rc_actor cmd)
                  (rc_occurred_at cmd) (rc_correlation cmd) (la_aggregate loaded)))
     (\<lambda>campaign. rp_save repo campaign (rc_expected cmd)))"

definition complete_campaign ::
    "('s, campaign) repository_port \<Rightarrow> reasoned_command \<Rightarrow> ('s, save_result) prog" where
  "complete_campaign repo cmd =
     pbind (rp_get repo (rc_identity cmd))
     (\<lambda>loaded. pbind (plift (campaign_complete (rc_reason cmd) (rc_actor cmd)
                  (rc_occurred_at cmd) (rc_correlation cmd) (la_aggregate loaded)))
     (\<lambda>campaign. rp_save repo campaign (rc_expected cmd)))"

definition cancel_campaign ::
    "('s, campaign) repository_port \<Rightarrow> transition_command \<Rightarrow> ('s, save_result) prog" where
  "cancel_campaign repo cmd =
     pbind (rp_get repo (tc_identity cmd))
     (\<lambda>loaded. pbind (plift (campaign_cancel (tc_actor cmd) (tc_occurred_at cmd)
                  (tc_reason cmd) (tc_correlation cmd) (la_aggregate loaded)))
     (\<lambda>campaign. rp_save repo campaign (tc_expected cmd)))"

section \<open>All the commands that change a Campaign\<close>

datatype campaign_request =
  ReviseScope revise_scope_command
| PrepareCampaign transition_command
| AuthorizeCampaign reasoned_command
| ActivateCampaign reasoned_command
| SuspendCampaign reasoned_command
| ResumeCampaign reasoned_command
| CompleteCampaign reasoned_command
| CancelCampaign transition_command

fun campaign_request_identity :: "campaign_request \<Rightarrow> domain_identity" where
  "campaign_request_identity (ReviseScope cmd) = rs_identity cmd"
| "campaign_request_identity (PrepareCampaign cmd) = tc_identity cmd"
| "campaign_request_identity (AuthorizeCampaign cmd) = rc_identity cmd"
| "campaign_request_identity (ActivateCampaign cmd) = rc_identity cmd"
| "campaign_request_identity (SuspendCampaign cmd) = rc_identity cmd"
| "campaign_request_identity (ResumeCampaign cmd) = rc_identity cmd"
| "campaign_request_identity (CompleteCampaign cmd) = rc_identity cmd"
| "campaign_request_identity (CancelCampaign cmd) = tc_identity cmd"

fun campaign_request_expected :: "campaign_request \<Rightarrow> aggregate_version" where
  "campaign_request_expected (ReviseScope cmd) = rs_expected cmd"
| "campaign_request_expected (PrepareCampaign cmd) = tc_expected cmd"
| "campaign_request_expected (AuthorizeCampaign cmd) = rc_expected cmd"
| "campaign_request_expected (ActivateCampaign cmd) = rc_expected cmd"
| "campaign_request_expected (SuspendCampaign cmd) = rc_expected cmd"
| "campaign_request_expected (ResumeCampaign cmd) = rc_expected cmd"
| "campaign_request_expected (CompleteCampaign cmd) = rc_expected cmd"
| "campaign_request_expected (CancelCampaign cmd) = tc_expected cmd"

text \<open>The time a command carries is one that a \<^verbatim>\<open>TIMESTAMPTZ\<close> column gives back.\<close>

fun campaign_request_aware :: "campaign_request \<Rightarrow> bool" where
  "campaign_request_aware (ReviseScope cmd) = True"
| "campaign_request_aware (PrepareCampaign cmd) = is_aware (tc_occurred_at cmd)"
| "campaign_request_aware (AuthorizeCampaign cmd) = is_aware (rc_occurred_at cmd)"
| "campaign_request_aware (ActivateCampaign cmd) = is_aware (rc_occurred_at cmd)"
| "campaign_request_aware (SuspendCampaign cmd) = is_aware (rc_occurred_at cmd)"
| "campaign_request_aware (ResumeCampaign cmd) = is_aware (rc_occurred_at cmd)"
| "campaign_request_aware (CompleteCampaign cmd) = is_aware (rc_occurred_at cmd)"
| "campaign_request_aware (CancelCampaign cmd) = is_aware (tc_occurred_at cmd)"

text \<open>The change a command asks of the aggregate.\<close>

fun campaign_request_change :: "campaign_request \<Rightarrow> campaign \<Rightarrow> exn + campaign" where
  "campaign_request_change (ReviseScope cmd) c =
     rbind (make_scope_statement (rs_scope_statement cmd)) (\<lambda>scope. campaign_revise_scope_statement scope c)"
| "campaign_request_change (PrepareCampaign cmd) c =
     campaign_prepare_for_authorization (tc_actor cmd) (tc_occurred_at cmd) (tc_correlation cmd) (tc_reason cmd) c"
| "campaign_request_change (AuthorizeCampaign cmd) c =
     campaign_record_authorization (rc_reason cmd) (rc_actor cmd) (rc_occurred_at cmd) (rc_correlation cmd) c"
| "campaign_request_change (ActivateCampaign cmd) c =
     campaign_activate (rc_reason cmd) (rc_actor cmd) (rc_occurred_at cmd) (rc_correlation cmd) c"
| "campaign_request_change (SuspendCampaign cmd) c =
     campaign_suspend (rc_reason cmd) (rc_actor cmd) (rc_occurred_at cmd) (rc_correlation cmd) c"
| "campaign_request_change (ResumeCampaign cmd) c =
     campaign_resume (rc_reason cmd) (rc_actor cmd) (rc_occurred_at cmd) (rc_correlation cmd) c"
| "campaign_request_change (CompleteCampaign cmd) c =
     campaign_complete (rc_reason cmd) (rc_actor cmd) (rc_occurred_at cmd) (rc_correlation cmd) c"
| "campaign_request_change (CancelCampaign cmd) c =
     campaign_cancel (tc_actor cmd) (tc_occurred_at cmd) (tc_reason cmd) (tc_correlation cmd) c"

text \<open>The handler a command goes to.\<close>

fun handle_campaign :: "('s, campaign) repository_port \<Rightarrow> campaign_request \<Rightarrow> ('s, save_result) prog" where
  "handle_campaign repo (ReviseScope cmd) = revise_campaign_scope_statement repo cmd"
| "handle_campaign repo (PrepareCampaign cmd) = prepare_campaign_for_authorization repo cmd"
| "handle_campaign repo (AuthorizeCampaign cmd) = record_campaign_authorization repo cmd"
| "handle_campaign repo (ActivateCampaign cmd) = activate_campaign repo cmd"
| "handle_campaign repo (SuspendCampaign cmd) = suspend_campaign repo cmd"
| "handle_campaign repo (ResumeCampaign cmd) = resume_campaign repo cmd"
| "handle_campaign repo (CompleteCampaign cmd) = complete_campaign repo cmd"
| "handle_campaign repo (CancelCampaign cmd) = cancel_campaign repo cmd"

lemmas campaign_handlers =
  revise_campaign_scope_statement_def prepare_campaign_for_authorization_def
  record_campaign_authorization_def activate_campaign_def suspend_campaign_def resume_campaign_def
  complete_campaign_def cancel_campaign_def

lemma handle_campaign_shape:
  "handle_campaign repo req = load_change_save repo (campaign_request_identity req)
     (campaign_request_change req) (campaign_request_expected req)"
  by (cases req) (simp_all add: campaign_handlers load_change_save_def plift_rbind)

lemma campaign_repository_is_port: "campaign_repository = store_port campaign_store"
  by (intro ext) (simp add: campaign_repository_def store_port_def campaign_get_is_store
      campaign_add_is_store campaign_save_is_store)

lemma campaign_request_step:
  assumes "campaign_request_change req c = Inr c'"
  shows "campaign_step c c'"
  using assms by (cases req) (auto simp: result_eqs intro: campaign_step.intros)

lemma campaign_moved_aware:
  "history_aware (camp_history (campaign_moved t a at k r c)) \<longleftrightarrow> history_aware (camp_history c) \<and> is_aware at"
  by (auto simp: history_aware_def campaign_moved_def)

lemma campaign_request_keeps:
  assumes "campaign_storable c" "campaign_request_aware req" "campaign_request_change req c = Inr c'"
  shows "campaign_storable c' \<and> camp_identity c' = camp_identity c
     \<and> version_value (camp_version c') = version_value (camp_version c) + 1"
proof -
  have "history_aware (camp_history c')"
    using assms by (cases req) (auto simp: campaign_storable_def lifecycle_defs campaign_transition_Inr
        result_eqs campaign_moved_aware campaign_revise_scope_statement_def)
  moreover have "camp_identity c' = camp_identity c
     \<and> version_value (camp_version c') = version_value (camp_version c) + 1"
    using campaign_request_step[OF assms(3)] by (rule campaign_step_cases) auto
  ultimately show ?thesis
    using assms(1) campaign_step_ok[OF campaign_request_step[OF assms(3)]]
    by (simp add: campaign_storable_def)
qed

lemma campaign_request_advances:
  assumes "postgres_server pg tab tz" "can_work sv" "campaign_storable c" "campaign_request_aware req"
  shows "aggregate_repository.advances camp_identity (aversion campaign_store) campaign_storable
     (campaign_request_change req) c"
proof -
  note I = repository_on_server.advancesI[OF campaign_on_server[OF assms(1,2)]]
  show ?thesis
    by (rule I[unfolded campaign_store_simps]) (rule campaign_request_keeps[OF assms(3,4)])
qed

lemma campaign_aversion [simp]: "aversion campaign_store c = camp_version c"
  by (simp add: aversion_def)

text \<open>What \<^const>\<open>create_campaign\<close> builds before it adds.\<close>

definition campaign_built :: "exn + runtime_identifier \<Rightarrow> create_campaign_command \<Rightarrow> exn + campaign" where
  "campaign_built generated cmd =
     rbind (make_identifier CampaignId (cc_campaign_governance_id cmd))
     (\<lambda>g. rbind generated
     (\<lambda>r. rbind (make_scope_statement (cc_scope_statement cmd))
     (\<lambda>scope. campaign_new (pair_identity g r) scope)))"

lemma create_campaign_shape:
  "create_campaign repo generated cmd = build_add repo (campaign_built generated cmd) camp_identity"
  by (simp add: create_campaign_def build_add_def campaign_built_def plift_rbind)

lemma campaign_built_storable:
  assumes "\<And>r. generated = Inr r \<Longrightarrow> runtime_identifier_ok r" "campaign_built generated cmd = Inr c"
  shows "campaign_storable c"
proof -
  from assms(2) obtain g r scope where parts: "make_identifier CampaignId (cc_campaign_governance_id cmd) = Inr g"
    "generated = Inr r" "make_scope_statement (cc_scope_statement cmd) = Inr scope"
    "campaign_new (pair_identity g r) scope = Inr c"
    by (auto simp: campaign_built_def rbind_eq_Inr)
  then have "identity_ok CampaignId (pair_identity g r)"
    using assms(1) by (auto simp: identity_ok_def pair_identity_def result_eqs)
  from campaign_new_ok[OF this parts(3,4)] parts(4) show ?thesis
    by (auto simp: campaign_storable_def campaign_new_def history_aware_def result_eqs)
qed

section \<open>An example to run\<close>

definition sample_runtime :: runtime_identifier where
  "sample_runtime = RuntimeIdentifier ''00000000-0000-4000-8000-000000000001''"

definition sample_create_campaign :: create_campaign_command where
  "sample_create_campaign =
     \<lparr>cc_campaign_governance_id = ''CAMP-0001'', cc_scope_statement = ''scope''\<rparr>"

definition sample_campaign :: campaign where
  "sample_campaign =
     \<lparr>camp_identity = \<lparr>governance_id = Identifier CampaignId ''CAMP-0001'', runtime_id = sample_runtime\<rparr>,
      camp_scope_statement = CampaignScopeStatement ''scope'', camp_state = C_DRAFT,
      camp_version = version_initial, camp_next_sequence = sequence_initial, camp_history = []\<rparr>"

definition campaign_context :: "table_db exec_context" where
  "campaign_context = snd (create_campaign (campaign_repository table_server ready_service)
     (Inr sample_runtime) sample_create_campaign fresh_context)"

lemma sample_runtime_ok: "runtime_identifier_ok sample_runtime"
  by code_simp

lemma sample_created:
  "create_campaign (campaign_repository table_server ready_service) (Inr sample_runtime)
     sample_create_campaign fresh_context = (Inr (camp_identity sample_campaign), campaign_context)"
proof -
  have "fst (create_campaign (campaign_repository table_server ready_service) (Inr sample_runtime)
     sample_create_campaign fresh_context) = Inr (camp_identity sample_campaign)"
    by code_simp
  then show ?thesis by (simp add: campaign_context_def prod_eq_iff)
qed

lemma sample_built: "campaign_built (Inr sample_runtime) sample_create_campaign = Inr sample_campaign"
  by code_simp

lemma campaign_context_facts:
  "usable contents campaign_context" "campaign_storable sample_campaign"
  "kept campaign_store contents campaign_context sample_campaign"
proof -
  show ok: "campaign_storable sample_campaign"
    by (rule campaign_built_storable[OF _ sample_built]) (simp add: sample_runtime_ok)
  have "build_add (store_port campaign_store table_server ready_service)
      (campaign_built (Inr sample_runtime) sample_create_campaign) camp_identity fresh_context
    = (Inr (camp_identity sample_campaign), campaign_context)"
    using sample_created by (simp add: create_campaign_shape campaign_repository_is_port)
  note created = repository_on_server.stored_create_committed[OF campaign_on_tables.repository_on_server_axioms
      fresh_context_usable _ this[folded campaign_store_simps(4)]]
  show "usable contents campaign_context" "kept campaign_store contents campaign_context sample_campaign"
    using created campaign_built_storable[of "Inr sample_runtime"] sample_runtime_ok ok sample_built by auto
qed

section \<open>What the use cases guarantee\<close>





definition sample_prepare :: "int \<Rightarrow> transition_command" where
  "sample_prepare n =
     \<lparr>tc_identity = camp_identity sample_campaign, tc_expected = AggregateVersion n, tc_actor = ''ops'',
      tc_occurred_at = Aware 100, tc_correlation = None, tc_reason = None\<rparr>"

lemma sample_prepared:
  "fst (handle_campaign (campaign_repository table_server ready_service) (PrepareCampaign (sample_prepare 0))
     campaign_context) = Inr \<lparr>sr_operation = OpUpdated, sr_version = AggregateVersion 1\<rparr>"
  by code_simp

lemma sample_stale:
  "fst (handle_campaign (campaign_repository table_server ready_service) (PrepareCampaign (sample_prepare 5))
     campaign_context)
   = Inl (InvalidAggregateForPersistence ''Campaign'' stale_version (Some (camp_identity sample_campaign)))"
  by code_simp



text \<open>
  The query of a Campaign shows what is stored and changes nothing: it answers with the snapshot of
  the stored aggregate, or fails with an infrastructure error, and every stored aggregate stays.
\<close>

theorem get_campaign_shows_stored:
  assumes "postgres_server pg tab tz" "can_work sv" "usable tab cx" "campaign_storable a" "kept campaign_store tab cx a"
    and run: "get_campaign (campaign_repository pg sv) (camp_identity a) cx = (q, cx')"
  shows "usable tab cx' \<and> kept campaign_store tab cx' = kept campaign_store tab cx
     \<and> (q = Inr \<lparr>cs_identity = camp_identity a, cs_scope_statement = camp_scope_statement a,
        cs_state = camp_state a\<rparr> \<or> (\<exists>e. q = Inl e \<and> foundation_failure e))"
proof -
  have "load_view (store_port campaign_store pg sv) (st_identity campaign_store a)
      (\<lambda>a. \<lparr>cs_identity = camp_identity a, cs_scope_statement = camp_scope_statement a,
        cs_state = camp_state a\<rparr>) cx = (q, cx')"
    using run by (simp add: get_campaign_def load_view_def campaign_repository_is_port Let_def)
  from repository_on_server.stored_view[OF campaign_on_server[OF assms(1,2)] assms(3-5) this]
  show ?thesis by simp
qed

theorem get_campaign_shows_stored_witness:
  "usable contents (snd (get_campaign (campaign_repository table_server ready_service) (camp_identity sample_campaign) campaign_context))"
  using get_campaign_shows_stored[OF table_db.postgres_server_axioms ready_service_can_work campaign_context_facts
      prod.collapse[symmetric]] by blast

end
