(* ===== verification/Run_Use_Cases.thy ===== *)
theory Run_Use_Cases
  imports Run_Repository Campaign_Use_Cases
begin

text \<open>
  The use cases of a Run: the handlers of
  \<^verbatim>\<open>usecases/create_run.py\<close>, \<^verbatim>\<open>get_run.py\<close>, \<^verbatim>\<open>authorize_run.py\<close>,
  \<^verbatim>\<open>start_run_acquisition.py\<close>, \<^verbatim>\<open>start_run_normalization.py\<close>, \<^verbatim>\<open>start_run_validation.py\<close>,
  \<^verbatim>\<open>complete_run_execution.py\<close>, \<^verbatim>\<open>fail_run.py\<close> and \<^verbatim>\<open>append_run_manifest.py\<close>,
  over any repository; and what they do over the PostgreSQL one. Organised as
  \<^verbatim>\<open>Campaign_Use_Cases\<close>.
\<close>

section \<open>Handlers\<close>

definition run_repository :: "'db postgres \<Rightarrow> service \<Rightarrow> ('db exec_context, run) repository_port" where
  "run_repository pg sv =
     \<lparr>rp_get = run_repository_get pg sv, rp_add = run_repository_add pg sv,
      rp_save = run_repository_save pg sv\<rparr>"

record create_run_command =
  crn_run_governance_id :: string
  crn_campaign_governance_id :: string

definition create_run ::
    "('s, run) repository_port \<Rightarrow> exn + runtime_identifier \<Rightarrow> create_run_command
     \<Rightarrow> ('s, domain_identity) prog" where
  "create_run repo generated cmd =
     pbind (plift (make_identifier RunId (crn_run_governance_id cmd)))
     (\<lambda>g. pbind (plift generated)
     (\<lambda>r. pbind (plift (make_identifier CampaignId (crn_campaign_governance_id cmd)))
     (\<lambda>campaign_id. pbind (plift (run_new (pair_identity g r) campaign_id))
     (\<lambda>run. pbind (rp_add repo run)
     (\<lambda>_. preturn (run_identity run))))))"

record run_snapshot =
  rns_identity :: domain_identity
  rns_campaign_id :: governance_identifier
  rns_state :: run_state

definition get_run :: "('s, run) repository_port \<Rightarrow> domain_identity \<Rightarrow> ('s, run_snapshot) prog" where
  "get_run repo i =
     pbind (rp_get repo i)
     (\<lambda>loaded. let run = la_aggregate loaded in
        preturn \<lparr>rns_identity = run_identity run, rns_campaign_id = run_campaign_id run,
                 rns_state = run_state run\<rparr>)"

definition authorize_run ::
    "('s, run) repository_port \<Rightarrow> transition_command \<Rightarrow> ('s, save_result) prog" where
  "authorize_run repo cmd =
     pbind (rp_get repo (tc_identity cmd))
     (\<lambda>loaded. pbind (plift (run_authorize (tc_actor cmd) (tc_occurred_at cmd)
                  (tc_correlation cmd) (tc_reason cmd) (la_aggregate loaded)))
     (\<lambda>run. rp_save repo run (tc_expected cmd)))"

definition start_run_acquisition ::
    "('s, run) repository_port \<Rightarrow> transition_command \<Rightarrow> ('s, save_result) prog" where
  "start_run_acquisition repo cmd =
     pbind (rp_get repo (tc_identity cmd))
     (\<lambda>loaded. pbind (plift (run_start_acquisition (tc_actor cmd) (tc_occurred_at cmd)
                  (tc_correlation cmd) (tc_reason cmd) (la_aggregate loaded)))
     (\<lambda>run. rp_save repo run (tc_expected cmd)))"

definition start_run_normalization ::
    "('s, run) repository_port \<Rightarrow> transition_command \<Rightarrow> ('s, save_result) prog" where
  "start_run_normalization repo cmd =
     pbind (rp_get repo (tc_identity cmd))
     (\<lambda>loaded. pbind (plift (run_start_normalization (tc_actor cmd) (tc_occurred_at cmd)
                  (tc_correlation cmd) (tc_reason cmd) (la_aggregate loaded)))
     (\<lambda>run. rp_save repo run (tc_expected cmd)))"

definition start_run_validation ::
    "('s, run) repository_port \<Rightarrow> transition_command \<Rightarrow> ('s, save_result) prog" where
  "start_run_validation repo cmd =
     pbind (rp_get repo (tc_identity cmd))
     (\<lambda>loaded. pbind (plift (run_start_validation (tc_actor cmd) (tc_occurred_at cmd)
                  (tc_correlation cmd) (tc_reason cmd) (la_aggregate loaded)))
     (\<lambda>run. rp_save repo run (tc_expected cmd)))"

definition complete_run_execution ::
    "('s, run) repository_port \<Rightarrow> transition_command \<Rightarrow> ('s, save_result) prog" where
  "complete_run_execution repo cmd =
     pbind (rp_get repo (tc_identity cmd))
     (\<lambda>loaded. pbind (plift (run_complete_execution (tc_actor cmd) (tc_occurred_at cmd)
                  (tc_correlation cmd) (tc_reason cmd) (la_aggregate loaded)))
     (\<lambda>run. rp_save repo run (tc_expected cmd)))"

definition fail_run ::
    "('s, run) repository_port \<Rightarrow> reasoned_command \<Rightarrow> ('s, save_result) prog" where
  "fail_run repo cmd =
     pbind (rp_get repo (rc_identity cmd))
     (\<lambda>loaded. pbind (plift (run_fail (rc_reason cmd) (rc_actor cmd)
                  (rc_occurred_at cmd) (rc_correlation cmd) (la_aggregate loaded)))
     (\<lambda>run. rp_save repo run (rc_expected cmd)))"

record append_manifest_command =
  am_identity :: domain_identity
  am_expected :: aggregate_version
  am_recorded_at :: datetime
  am_source :: string
  am_acquisition_method :: "string option"
  am_normalization_method :: "string option"
  am_manifest_id :: "string option"
  am_notes :: "string list"

text \<open>\<^verbatim>\<open>DatasetId(command.manifest_id) if command.manifest_id else None\<close>: an empty string is no identifier.\<close>

definition commanded_manifest_id :: "string option \<Rightarrow> exn + governance_identifier option" where
  "commanded_manifest_id v =
     (case v of
        Some (c # cs) \<Rightarrow> rbind (make_identifier DatasetId (c # cs)) (\<lambda>i. Inr (Some i))
      | _ \<Rightarrow> Inr None)"

definition commanded_manifest :: "append_manifest_command \<Rightarrow> run \<Rightarrow> exn + dataset_manifest" where
  "commanded_manifest cmd run =
     rbind (commanded_manifest_id (am_manifest_id cmd))
     (\<lambda>manifest_id. make_dataset_manifest
        \<lparr>dm_run_id = governance_id (run_identity run), dm_recorded_at = am_recorded_at cmd,
         dm_source = am_source cmd, dm_acquisition_method = am_acquisition_method cmd,
         dm_normalization_method = am_normalization_method cmd, dm_manifest_id = manifest_id,
         dm_notes = am_notes cmd\<rparr>)"

definition append_run_manifest ::
    "('s, run) repository_port \<Rightarrow> append_manifest_command \<Rightarrow> ('s, save_result) prog" where
  "append_run_manifest repo cmd =
     pbind (rp_get repo (am_identity cmd))
     (\<lambda>loaded. let run = la_aggregate loaded in
        pbind (plift (commanded_manifest cmd run))
        (\<lambda>manifest. pbind (plift (run_append_manifest manifest run))
        (\<lambda>run'. rp_save repo run' (am_expected cmd))))"


section \<open>All the commands that change a Run\<close>

datatype run_request =
  AuthorizeRun transition_command
| StartAcquisition transition_command
| StartNormalization transition_command
| StartValidation transition_command
| CompleteExecution transition_command
| FailRun reasoned_command
| AppendManifest append_manifest_command

fun run_request_identity :: "run_request \<Rightarrow> domain_identity" where
  "run_request_identity (AuthorizeRun cmd) = tc_identity cmd"
| "run_request_identity (StartAcquisition cmd) = tc_identity cmd"
| "run_request_identity (StartNormalization cmd) = tc_identity cmd"
| "run_request_identity (StartValidation cmd) = tc_identity cmd"
| "run_request_identity (CompleteExecution cmd) = tc_identity cmd"
| "run_request_identity (FailRun cmd) = rc_identity cmd"
| "run_request_identity (AppendManifest cmd) = am_identity cmd"

fun run_request_expected :: "run_request \<Rightarrow> aggregate_version" where
  "run_request_expected (AuthorizeRun cmd) = tc_expected cmd"
| "run_request_expected (StartAcquisition cmd) = tc_expected cmd"
| "run_request_expected (StartNormalization cmd) = tc_expected cmd"
| "run_request_expected (StartValidation cmd) = tc_expected cmd"
| "run_request_expected (CompleteExecution cmd) = tc_expected cmd"
| "run_request_expected (FailRun cmd) = rc_expected cmd"
| "run_request_expected (AppendManifest cmd) = am_expected cmd"

text \<open>The times a command carries are ones that a \<^verbatim>\<open>TIMESTAMPTZ\<close> column gives back.\<close>

fun run_request_aware :: "run_request \<Rightarrow> bool" where
  "run_request_aware (AuthorizeRun cmd) = is_aware (tc_occurred_at cmd)"
| "run_request_aware (StartAcquisition cmd) = is_aware (tc_occurred_at cmd)"
| "run_request_aware (StartNormalization cmd) = is_aware (tc_occurred_at cmd)"
| "run_request_aware (StartValidation cmd) = is_aware (tc_occurred_at cmd)"
| "run_request_aware (CompleteExecution cmd) = is_aware (tc_occurred_at cmd)"
| "run_request_aware (FailRun cmd) = is_aware (rc_occurred_at cmd)"
| "run_request_aware (AppendManifest cmd) = is_aware (am_recorded_at cmd)"

text \<open>The change a command asks of the aggregate.\<close>

fun run_request_change :: "run_request \<Rightarrow> run \<Rightarrow> exn + run" where
  "run_request_change (AuthorizeRun cmd) a =
     run_authorize (tc_actor cmd) (tc_occurred_at cmd) (tc_correlation cmd) (tc_reason cmd) a"
| "run_request_change (StartAcquisition cmd) a =
     run_start_acquisition (tc_actor cmd) (tc_occurred_at cmd) (tc_correlation cmd) (tc_reason cmd) a"
| "run_request_change (StartNormalization cmd) a =
     run_start_normalization (tc_actor cmd) (tc_occurred_at cmd) (tc_correlation cmd) (tc_reason cmd) a"
| "run_request_change (StartValidation cmd) a =
     run_start_validation (tc_actor cmd) (tc_occurred_at cmd) (tc_correlation cmd) (tc_reason cmd) a"
| "run_request_change (CompleteExecution cmd) a =
     run_complete_execution (tc_actor cmd) (tc_occurred_at cmd) (tc_correlation cmd) (tc_reason cmd) a"
| "run_request_change (FailRun cmd) a =
     run_fail (rc_reason cmd) (rc_actor cmd) (rc_occurred_at cmd) (rc_correlation cmd) a"
| "run_request_change (AppendManifest cmd) a =
     rbind (commanded_manifest cmd a) (\<lambda>manifest. run_append_manifest manifest a)"

text \<open>The handler a command goes to.\<close>

fun handle_run :: "('s, run) repository_port \<Rightarrow> run_request \<Rightarrow> ('s, save_result) prog" where
  "handle_run repo (AuthorizeRun cmd) = authorize_run repo cmd"
| "handle_run repo (StartAcquisition cmd) = start_run_acquisition repo cmd"
| "handle_run repo (StartNormalization cmd) = start_run_normalization repo cmd"
| "handle_run repo (StartValidation cmd) = start_run_validation repo cmd"
| "handle_run repo (CompleteExecution cmd) = complete_run_execution repo cmd"
| "handle_run repo (FailRun cmd) = fail_run repo cmd"
| "handle_run repo (AppendManifest cmd) = append_run_manifest repo cmd"

lemmas run_handlers =
  authorize_run_def start_run_acquisition_def start_run_normalization_def
  start_run_validation_def complete_run_execution_def fail_run_def
  append_run_manifest_def

lemma handle_run_shape:
  "handle_run repo req = load_change_save repo (run_request_identity req)
     (run_request_change req) (run_request_expected req)"
  by (cases req) (simp_all add: run_handlers load_change_save_def plift_rbind Let_def)

lemma run_repository_is_port: "run_repository = store_port run_store"
  by (intro ext) (simp add: run_repository_def store_port_def run_get_is_store
      run_add_is_store run_save_is_store)

lemma commanded_manifest_wf:
  assumes "commanded_manifest cmd r = Inr m" "identifier_ok (governance_id (run_identity r))"
  shows "manifest_wf m \<and> dm_recorded_at m = am_recorded_at cmd"
  using assms
  by (auto simp: commanded_manifest_def commanded_manifest_id_def manifest_wf_def result_eqs
      split: option.splits list.splits)

lemma run_request_step:
  assumes "run_ok r" "run_request_change req r = Inr r'"
  shows "run_step r r'"
proof -
  have "identifier_ok (governance_id (run_identity r))"
    using assms(1) by (simp add: run_ok_def identity_ok_def)
  with assms(2) commanded_manifest_wf[of _ r] show ?thesis
    by (cases req) (auto simp: rbind_eq_Inr intro: run_step.intros)
qed

lemma run_request_keeps:
  assumes "run_storable a" "run_request_aware req" "run_request_change req a = Inr a'"
  shows "run_storable a' \<and> run_identity a' = run_identity a
     \<and> version_value (run_version a') = version_value (run_version a) + 1"
proof -
  have ok: "run_ok a" using assms(1) by (simp add: run_storable_def)
  note step = run_request_step[OF ok assms(3)]
  have "identifier_ok (governance_id (run_identity a))"
    using ok by (simp add: run_ok_def identity_ok_def)
  then have "history_aware (run_history a') \<and> (\<forall>m \<in> set (run_manifests a'). is_aware (dm_recorded_at m))"
    using assms commanded_manifest_wf[of _ a] by (cases req) (auto simp: run_storable_def lifecycle_defs
        run_transition_Inr run_append_manifest_Inr rbind_eq_Inr result_eqs history_aware_def run_moved_def
        run_with_manifest_def)
  moreover have "run_identity a' = run_identity a
     \<and> version_value (run_version a') = version_value (run_version a) + 1"
    using step by (rule run_step_cases) (auto simp: run_with_manifest_def)
  ultimately show ?thesis
    using run_step_ok[OF step ok] by (simp add: run_storable_def)
qed

lemma run_request_advances:
  assumes "postgres_server pg tab tz" "can_work sv" "run_storable a" "run_request_aware req"
  shows "aggregate_repository.advances run_identity (aversion run_store) run_storable
     (run_request_change req) a"
proof -
  note I = repository_on_server.advancesI[OF run_on_server[OF assms(1,2)]]
  show ?thesis
    by (rule I[unfolded run_store_simps]) (rule run_request_keeps[OF assms(3,4)])
qed

lemma run_aversion [simp]: "aversion run_store a = run_version a"
  by (simp add: aversion_def)

text \<open>What \<^const>\<open>create_run\<close> builds before it adds.\<close>

definition run_built :: "exn + runtime_identifier \<Rightarrow> create_run_command \<Rightarrow> exn + run" where
  "run_built generated cmd =
     rbind (make_identifier RunId (crn_run_governance_id cmd))
     (\<lambda>g. rbind generated
     (\<lambda>r. rbind (make_identifier CampaignId (crn_campaign_governance_id cmd))
     (\<lambda>campaign_id. run_new (pair_identity g r) campaign_id)))"

lemma create_run_shape: "create_run repo generated cmd = build_add repo (run_built generated cmd) run_identity"
  by (simp add: create_run_def build_add_def run_built_def plift_rbind)

lemma run_built_storable:
  assumes "\<And>r. generated = Inr r \<Longrightarrow> runtime_identifier_ok r" "run_built generated cmd = Inr a"
  shows "run_storable a"
proof -
  from assms(2) obtain g r cid where parts: "make_identifier RunId (crn_run_governance_id cmd) = Inr g"
    "generated = Inr r" "make_identifier CampaignId (crn_campaign_governance_id cmd) = Inr cid"
    "run_new (pair_identity g r) cid = Inr a"
    by (auto simp: run_built_def rbind_eq_Inr)
  then have "identity_ok RunId (pair_identity g r)" "identifier_ok cid"
    using assms(1) by (auto simp: identity_ok_def pair_identity_def result_eqs)
  from run_new_ok[OF this parts(4)] parts(4) show ?thesis
    by (auto simp: run_storable_def run_new_def history_aware_def result_eqs)
qed


section \<open>An example to run\<close>

definition sample_create_run :: create_run_command where
  "sample_create_run =
     \<lparr>crn_run_governance_id = ''RUN-0001'', crn_campaign_governance_id = ''CAMP-0001''\<rparr>"

definition sample_run :: run where
  "sample_run =
     \<lparr>run_identity = \<lparr>governance_id = Identifier RunId ''RUN-0001'', runtime_id = sample_runtime\<rparr>,
      run_campaign_id = Identifier CampaignId ''CAMP-0001'', run_state = R_CREATED,
      run_version = version_initial, run_next_sequence = sequence_initial, run_history = [],
      run_manifests = []\<rparr>"


lemma sample_run_built: "run_built (Inr sample_runtime) sample_create_run = Inr sample_run"
  by code_simp

definition run_context :: "table_db exec_context" where
  "run_context = snd (create_run (run_repository table_server ready_service)
     (Inr sample_runtime) sample_create_run campaign_context)"

lemma sample_run_created:
  "create_run (run_repository table_server ready_service) (Inr sample_runtime)
     sample_create_run campaign_context = (Inr (run_identity sample_run), run_context)"
proof -
  have "fst (create_run (run_repository table_server ready_service) (Inr sample_runtime)
     sample_create_run campaign_context) = Inr (run_identity sample_run)"
    by code_simp
  then show ?thesis by (simp add: run_context_def prod_eq_iff)
qed

lemma run_context_facts:
  "usable contents run_context" "run_storable sample_run"
  "kept run_store contents run_context sample_run"
proof -
  show ok: "run_storable sample_run"
    by (rule run_built_storable[OF _ sample_run_built]) (simp add: sample_runtime_ok)
  have "build_add (store_port run_store table_server ready_service)
      (run_built (Inr sample_runtime) sample_create_run) run_identity campaign_context
    = (Inr (run_identity sample_run), run_context)"
    using sample_run_created by (simp add: create_run_shape run_repository_is_port)
  note created = repository_on_server.stored_create_committed[OF run_on_tables.repository_on_server_axioms
      campaign_context_facts(1) _ this[folded run_store_simps(4)]]
  show "usable contents run_context" "kept run_store contents run_context sample_run"
    using created run_built_storable[of "Inr sample_runtime"] sample_runtime_ok ok sample_run_built by auto
qed

section \<open>What the use cases guarantee\<close>

text \<open>
  Creating a Run: if the handler returns, it returns the identity made of the command's
  governance identifier and the generated runtime identifier, no Run with that identity was stored
  before, and the database now differs in one thing: it keeps a fresh CREATED Run of the command's
  Campaign.
\<close>

theorem create_run_commits:
  assumes "postgres_server pg tab tz" "can_work sv" "usable tab cx"
    and generated: "\<And>r. generated = Inr r \<Longrightarrow> runtime_identifier_ok r"
    and run: "create_run (run_repository pg sv) generated cmd cx = (Inr i, cx')"
  shows "\<exists>r. generated = Inr r \<and> i = \<lparr>governance_id = Identifier RunId (crn_run_governance_id cmd), runtime_id = r\<rparr>
     \<and> usable tab cx' \<and> (\<forall>a. run_storable a \<longrightarrow> kept run_store tab cx a \<longrightarrow> run_identity a \<noteq> i)
     \<and> becomes run_store run_storable tab cx
         \<lparr>run_identity = i, run_campaign_id = Identifier CampaignId (crn_campaign_governance_id cmd),
          run_state = R_CREATED, run_version = AggregateVersion 0,
          run_next_sequence = TransitionSequence 1, run_history = [], run_manifests = []\<rparr> cx'"
proof -
  note server = run_on_server[OF assms(1,2)]
  have "build_add (store_port run_store pg sv) (run_built generated cmd) run_identity cx = (Inr i, cx')"
    using run by (simp add: create_run_shape run_repository_is_port)
  from repository_on_server.stored_create_committed[OF server assms(3) _ this[folded run_store_simps(4)]]
    run_built_storable[OF generated]
  show ?thesis
    by (auto simp: becomes_def run_built_def run_new_def result_eqs
        pair_identity_def version_initial_def sequence_initial_def)
qed

theorem create_run_commits_witness:
  "run_identity sample_run
     = \<lparr>governance_id = Identifier RunId ''RUN-0001'', runtime_id = sample_runtime\<rparr>
   \<and> usable contents run_context"
  using create_run_commits[OF table_db.postgres_server_axioms ready_service_can_work
      campaign_context_facts(1) _ sample_run_created] sample_runtime_ok
  by (auto simp: sample_create_run_def)




definition sample_run_step :: "int \<Rightarrow> transition_command" where
  "sample_run_step n =
     \<lparr>tc_identity = run_identity sample_run, tc_expected = AggregateVersion n, tc_actor = ''ops'',
      tc_occurred_at = Aware 100, tc_correlation = None, tc_reason = None\<rparr>"

lemma sample_run_stepped:
  "fst (handle_run (run_repository table_server ready_service) (AuthorizeRun (sample_run_step 0))
     run_context) = Inr \<lparr>sr_operation = OpUpdated, sr_version = AggregateVersion 1\<rparr>"
  by code_simp

lemma sample_run_stale:
  "fst (handle_run (run_repository table_server ready_service) (AuthorizeRun (sample_run_step 1))
     run_context)
   = Inl (OptimisticConcurrencyConflict ''Run'' (run_identity sample_run) (AggregateVersion 1)
       (AggregateVersion 1) (Some (AggregateVersion 0)))"
  by code_simp

lemma sample_run_step_request:
  "run_request_identity (AuthorizeRun (sample_run_step n)) = run_identity sample_run"
  "run_request_aware (AuthorizeRun (sample_run_step n))"
  by (simp_all add: sample_run_step_def)



text \<open>
  The query of a Run shows what is stored and changes nothing: it answers with the snapshot of
  the stored aggregate, or fails with an infrastructure error, and every stored aggregate stays.
\<close>

theorem get_run_shows_stored:
  assumes "postgres_server pg tab tz" "can_work sv" "usable tab cx" "run_storable a" "kept run_store tab cx a"
    and run: "get_run (run_repository pg sv) (run_identity a) cx = (q, cx')"
  shows "usable tab cx' \<and> kept run_store tab cx' = kept run_store tab cx
     \<and> (q = Inr \<lparr>rns_identity = run_identity a, rns_campaign_id = run_campaign_id a, rns_state = run_state a\<rparr> \<or> (\<exists>e. q = Inl e \<and> foundation_failure e))"
proof -
  have "load_view (store_port run_store pg sv) (st_identity run_store a)
      (\<lambda>a. \<lparr>rns_identity = run_identity a, rns_campaign_id = run_campaign_id a, rns_state = run_state a\<rparr>) cx = (q, cx')"
    using run by (simp add: get_run_def load_view_def run_repository_is_port Let_def)
  from repository_on_server.stored_view[OF run_on_server[OF assms(1,2)] assms(3-5) this]
  show ?thesis by simp
qed

theorem get_run_shows_stored_witness:
  "usable contents (snd (get_run (run_repository table_server ready_service) (run_identity sample_run) run_context))"
  using get_run_shows_stored[OF table_db.postgres_server_axioms ready_service_can_work run_context_facts
      prod.collapse[symmetric]] by blast

end
