(* ===== verification/Evidence_Use_Cases.thy ===== *)
theory Evidence_Use_Cases
  imports Evidence_Repository Run_Use_Cases
begin

text \<open>
  The use cases of an Evidence Package: the handlers of
  \<^verbatim>\<open>usecases/create_evidence_package.py\<close>, \<^verbatim>\<open>get_evidence_package.py\<close>,
  \<^verbatim>\<open>start_evidence_package_collection.py\<close>, \<^verbatim>\<open>seal_evidence_package.py\<close>,
  \<^verbatim>\<open>record_evidence_package_criterion_result.py\<close> and
  \<^verbatim>\<open>record_evidence_package_artifact_reference.py\<close>,
  over any repository; and what they do over the PostgreSQL one. Organised as
  \<^verbatim>\<open>Campaign_Use_Cases\<close>.
\<close>

section \<open>Handlers\<close>

definition evidence_repository :: "'db postgres \<Rightarrow> service \<Rightarrow> ('db exec_context, evidence_package) repository_port" where
  "evidence_repository pg sv =
     \<lparr>rp_get = evidence_repository_get pg sv, rp_add = evidence_repository_add pg sv,
      rp_save = evidence_repository_save pg sv\<rparr>"

record create_evidence_package_command =
  ce_package_governance_id :: string
  ce_run_governance_id :: string

definition create_evidence_package ::
    "('s, evidence_package) repository_port \<Rightarrow> exn + runtime_identifier \<Rightarrow> create_evidence_package_command
     \<Rightarrow> ('s, domain_identity) prog" where
  "create_evidence_package repo generated cmd =
     pbind (plift (make_identifier EvidencePackageId (ce_package_governance_id cmd)))
     (\<lambda>g. pbind (plift generated)
     (\<lambda>r. pbind (plift (make_identifier RunId (ce_run_governance_id cmd)))
     (\<lambda>run_id. pbind (plift (evidence_new (pair_identity g r) run_id))
     (\<lambda>package. pbind (rp_add repo package)
     (\<lambda>_. preturn (ev_identity package))))))"

record evidence_package_snapshot =
  es_identity :: domain_identity
  es_run_id :: governance_identifier
  es_state :: evidence_state

definition get_evidence_package ::
    "('s, evidence_package) repository_port \<Rightarrow> domain_identity \<Rightarrow> ('s, evidence_package_snapshot) prog" where
  "get_evidence_package repo i =
     pbind (rp_get repo i)
     (\<lambda>loaded. let package = la_aggregate loaded in
        preturn \<lparr>es_identity = ev_identity package, es_run_id = ev_run_id package,
                 es_state = ev_state package\<rparr>)"

definition start_evidence_package_collection ::
    "('s, evidence_package) repository_port \<Rightarrow> transition_command \<Rightarrow> ('s, save_result) prog" where
  "start_evidence_package_collection repo cmd =
     pbind (rp_get repo (tc_identity cmd))
     (\<lambda>loaded. pbind (plift (evidence_start_collection (tc_actor cmd) (tc_occurred_at cmd)
                  (tc_correlation cmd) (tc_reason cmd) (la_aggregate loaded)))
     (\<lambda>package. rp_save repo package (tc_expected cmd)))"

definition seal_evidence_package ::
    "('s, evidence_package) repository_port \<Rightarrow> transition_command \<Rightarrow> ('s, save_result) prog" where
  "seal_evidence_package repo cmd =
     pbind (rp_get repo (tc_identity cmd))
     (\<lambda>loaded. pbind (plift (evidence_seal (tc_actor cmd) (tc_occurred_at cmd)
                  (tc_correlation cmd) (tc_reason cmd) (la_aggregate loaded)))
     (\<lambda>package. rp_save repo package (tc_expected cmd)))"

record record_criterion_command =
  rcr_identity :: domain_identity
  rcr_expected :: aggregate_version
  rcr_criterion_id :: string
  rcr_recorded_at :: datetime
  rcr_result_label :: string
  rcr_summary :: "string option"
  rcr_references :: "string list"

definition commanded_criterion :: "record_criterion_command \<Rightarrow> evidence_package \<Rightarrow> exn + criterion_result" where
  "commanded_criterion cmd package =
     make_criterion_result
       \<lparr>cr_package_id = governance_id (ev_identity package), cr_criterion_id = rcr_criterion_id cmd,
        cr_recorded_at = rcr_recorded_at cmd, cr_result_label = rcr_result_label cmd,
        cr_summary = rcr_summary cmd, cr_references = rcr_references cmd\<rparr>"

definition record_criterion_result ::
    "('s, evidence_package) repository_port \<Rightarrow> record_criterion_command \<Rightarrow> ('s, save_result) prog" where
  "record_criterion_result repo cmd =
     pbind (rp_get repo (rcr_identity cmd))
     (\<lambda>loaded. let package = la_aggregate loaded in
        pbind (plift (commanded_criterion cmd package))
        (\<lambda>result. pbind (plift (evidence_add_criterion_result result package))
        (\<lambda>package'. rp_save repo package' (rcr_expected cmd))))"

record record_reference_command =
  rar_identity :: domain_identity
  rar_expected :: aggregate_version
  rar_value :: string

definition record_artifact_reference ::
    "('s, evidence_package) repository_port \<Rightarrow> record_reference_command \<Rightarrow> ('s, save_result) prog" where
  "record_artifact_reference repo cmd =
     pbind (rp_get repo (rar_identity cmd))
     (\<lambda>loaded. pbind (plift (make_artifact_reference (rar_value cmd)))
     (\<lambda>reference. pbind (plift (evidence_add_artifact_reference reference (la_aggregate loaded)))
     (\<lambda>package. rp_save repo package (rar_expected cmd))))"


section \<open>All the commands that change an Evidence Package\<close>

datatype evidence_request =
  StartCollection transition_command
| SealPackage transition_command
| RecordCriterion record_criterion_command
| RecordReference record_reference_command

fun evidence_request_identity :: "evidence_request \<Rightarrow> domain_identity" where
  "evidence_request_identity (StartCollection cmd) = tc_identity cmd"
| "evidence_request_identity (SealPackage cmd) = tc_identity cmd"
| "evidence_request_identity (RecordCriterion cmd) = rcr_identity cmd"
| "evidence_request_identity (RecordReference cmd) = rar_identity cmd"

fun evidence_request_expected :: "evidence_request \<Rightarrow> aggregate_version" where
  "evidence_request_expected (StartCollection cmd) = tc_expected cmd"
| "evidence_request_expected (SealPackage cmd) = tc_expected cmd"
| "evidence_request_expected (RecordCriterion cmd) = rcr_expected cmd"
| "evidence_request_expected (RecordReference cmd) = rar_expected cmd"

text \<open>The times a command carries are ones that a \<^verbatim>\<open>TIMESTAMPTZ\<close> column gives back.\<close>

fun evidence_request_aware :: "evidence_request \<Rightarrow> bool" where
  "evidence_request_aware (StartCollection cmd) = is_aware (tc_occurred_at cmd)"
| "evidence_request_aware (SealPackage cmd) = is_aware (tc_occurred_at cmd)"
| "evidence_request_aware (RecordCriterion cmd) = is_aware (rcr_recorded_at cmd)"
| "evidence_request_aware (RecordReference cmd) = True"

text \<open>The change a command asks of the aggregate.\<close>

fun evidence_request_change :: "evidence_request \<Rightarrow> evidence_package \<Rightarrow> exn + evidence_package" where
  "evidence_request_change (StartCollection cmd) a =
     evidence_start_collection (tc_actor cmd) (tc_occurred_at cmd) (tc_correlation cmd) (tc_reason cmd) a"
| "evidence_request_change (SealPackage cmd) a =
     evidence_seal (tc_actor cmd) (tc_occurred_at cmd) (tc_correlation cmd) (tc_reason cmd) a"
| "evidence_request_change (RecordCriterion cmd) a =
     rbind (commanded_criterion cmd a) (\<lambda>result. evidence_add_criterion_result result a)"
| "evidence_request_change (RecordReference cmd) a =
     rbind (make_artifact_reference (rar_value cmd)) (\<lambda>reference. evidence_add_artifact_reference reference a)"

text \<open>The handler a command goes to.\<close>

fun handle_evidence :: "('s, evidence_package) repository_port \<Rightarrow> evidence_request \<Rightarrow> ('s, save_result) prog" where
  "handle_evidence repo (StartCollection cmd) = start_evidence_package_collection repo cmd"
| "handle_evidence repo (SealPackage cmd) = seal_evidence_package repo cmd"
| "handle_evidence repo (RecordCriterion cmd) = record_criterion_result repo cmd"
| "handle_evidence repo (RecordReference cmd) = record_artifact_reference repo cmd"

lemmas evidence_handlers =
  start_evidence_package_collection_def seal_evidence_package_def record_criterion_result_def
  record_artifact_reference_def

lemma handle_evidence_shape:
  "handle_evidence repo req = load_change_save repo (evidence_request_identity req)
     (evidence_request_change req) (evidence_request_expected req)"
  by (cases req) (simp_all add: evidence_handlers load_change_save_def plift_rbind Let_def)

lemma evidence_repository_is_port: "evidence_repository = store_port evidence_store"
  by (intro ext) (simp add: evidence_repository_def store_port_def evidence_get_is_store
      evidence_add_is_store evidence_save_is_store)

lemma evidence_request_step:
  assumes "evidence_request_change req p = Inr p'"
  shows "evidence_step p p'"
  using assms by (cases req) (auto simp: rbind_eq_Inr commanded_criterion_def intro: evidence_step.intros)

lemma evidence_request_keeps:
  assumes "evidence_storable a" "evidence_request_aware req" "evidence_request_change req a = Inr a'"
  shows "evidence_storable a' \<and> ev_identity a' = ev_identity a
     \<and> version_value (ev_version a') = version_value (ev_version a) + 1"
proof -
  have ok: "evidence_ok a" using assms(1) by (simp add: evidence_storable_def)
  note step = evidence_request_step[OF assms(3)]
  have "history_aware (ev_history a') \<and> (\<forall>c \<in> set (ev_results a'). is_aware (cr_recorded_at c))
     \<and> ev_identity a' = ev_identity a \<and> version_value (ev_version a') = version_value (ev_version a) + 1"
    using assms by (cases req) (auto simp: evidence_storable_def lifecycle_defs evidence_transition_Inr
        evidence_add_criterion_result_def evidence_add_artifact_reference_def commanded_criterion_def
        result_eqs history_aware_def evidence_moved_def)
  then show ?thesis
    using evidence_step_ok[OF step ok] by (simp add: evidence_storable_def)
qed

lemma evidence_request_advances:
  assumes "postgres_server pg tab tz" "can_work sv" "evidence_storable a" "evidence_request_aware req"
  shows "aggregate_repository.advances ev_identity (aversion evidence_store) evidence_storable
     (evidence_request_change req) a"
proof -
  note I = repository_on_server.advancesI[OF evidence_on_server[OF assms(1,2)]]
  show ?thesis
    by (rule I[unfolded evidence_store_simps]) (rule evidence_request_keeps[OF assms(3,4)])
qed

lemma evidence_aversion [simp]: "aversion evidence_store a = ev_version a"
  by (simp add: aversion_def)

text \<open>What \<^const>\<open>create_evidence_package\<close> builds before it adds.\<close>

definition evidence_built :: "exn + runtime_identifier \<Rightarrow> create_evidence_package_command \<Rightarrow> exn + evidence_package" where
  "evidence_built generated cmd =
     rbind (make_identifier EvidencePackageId (ce_package_governance_id cmd))
     (\<lambda>g. rbind generated
     (\<lambda>r. rbind (make_identifier RunId (ce_run_governance_id cmd))
     (\<lambda>run_id. evidence_new (pair_identity g r) run_id)))"

lemma create_evidence_package_shape:
  "create_evidence_package repo generated cmd = build_add repo (evidence_built generated cmd) ev_identity"
  by (simp add: create_evidence_package_def build_add_def evidence_built_def plift_rbind)

lemma evidence_built_storable:
  assumes "\<And>r. generated = Inr r \<Longrightarrow> runtime_identifier_ok r" "evidence_built generated cmd = Inr a"
  shows "evidence_storable a"
proof -
  from assms(2) obtain g r rid where parts: "make_identifier EvidencePackageId (ce_package_governance_id cmd) = Inr g"
    "generated = Inr r" "make_identifier RunId (ce_run_governance_id cmd) = Inr rid"
    "evidence_new (pair_identity g r) rid = Inr a"
    by (auto simp: evidence_built_def rbind_eq_Inr)
  then have "identity_ok EvidencePackageId (pair_identity g r)" "identifier_ok rid"
    using assms(1) by (auto simp: identity_ok_def pair_identity_def result_eqs)
  from evidence_new_ok[OF this parts(4)] parts(4) show ?thesis
    by (auto simp: evidence_storable_def evidence_new_def history_aware_def result_eqs)
qed


section \<open>An example to run\<close>

definition sample_create_evidence :: create_evidence_package_command where
  "sample_create_evidence =
     \<lparr>ce_package_governance_id = ''EVID-0001'', ce_run_governance_id = ''RUN-0001''\<rparr>"

definition sample_evidence :: evidence_package where
  "sample_evidence =
     \<lparr>ev_identity = \<lparr>governance_id = Identifier EvidencePackageId ''EVID-0001'', runtime_id = sample_runtime\<rparr>,
      ev_run_id = Identifier RunId ''RUN-0001'', ev_state = E_INITIALIZED,
      ev_version = version_initial, ev_next_sequence = sequence_initial, ev_history = [],
      ev_results = [], ev_references = []\<rparr>"


lemma sample_evidence_built: "evidence_built (Inr sample_runtime) sample_create_evidence = Inr sample_evidence"
  by code_simp

definition evidence_context :: "table_db exec_context" where
  "evidence_context = snd (create_evidence_package (evidence_repository table_server ready_service)
     (Inr sample_runtime) sample_create_evidence run_context)"

lemma sample_evidence_created:
  "create_evidence_package (evidence_repository table_server ready_service) (Inr sample_runtime)
     sample_create_evidence run_context = (Inr (ev_identity sample_evidence), evidence_context)"
proof -
  have "fst (create_evidence_package (evidence_repository table_server ready_service) (Inr sample_runtime)
     sample_create_evidence run_context) = Inr (ev_identity sample_evidence)"
    by code_simp
  then show ?thesis by (simp add: evidence_context_def prod_eq_iff)
qed

lemma evidence_context_facts:
  "usable contents evidence_context" "evidence_storable sample_evidence"
  "kept evidence_store contents evidence_context sample_evidence"
proof -
  show ok: "evidence_storable sample_evidence"
    by (rule evidence_built_storable[OF _ sample_evidence_built]) (simp add: sample_runtime_ok)
  have "build_add (store_port evidence_store table_server ready_service)
      (evidence_built (Inr sample_runtime) sample_create_evidence) ev_identity run_context
    = (Inr (ev_identity sample_evidence), evidence_context)"
    using sample_evidence_created by (simp add: create_evidence_package_shape evidence_repository_is_port)
  note created = repository_on_server.stored_create_committed[OF evidence_on_tables.repository_on_server_axioms
      run_context_facts(1) _ this[folded evidence_store_simps(4)]]
  show "usable contents evidence_context" "kept evidence_store contents evidence_context sample_evidence"
    using created evidence_built_storable[of "Inr sample_runtime"] sample_runtime_ok ok sample_evidence_built by auto
qed

section \<open>What the use cases guarantee\<close>

text \<open>
  Creating an Evidence Package: if the handler returns, it returns the identity made of the
  command's governance identifier and the generated runtime identifier, no package with that
  identity was stored before, and the database now differs in one thing: it keeps an empty
  INITIALIZED package of the command's Run.
\<close>

theorem create_evidence_package_commits:
  assumes "postgres_server pg tab tz" "can_work sv" "usable tab cx"
    and generated: "\<And>r. generated = Inr r \<Longrightarrow> runtime_identifier_ok r"
    and run: "create_evidence_package (evidence_repository pg sv) generated cmd cx = (Inr i, cx')"
  shows "\<exists>r. generated = Inr r
     \<and> i = \<lparr>governance_id = Identifier EvidencePackageId (ce_package_governance_id cmd), runtime_id = r\<rparr>
     \<and> usable tab cx' \<and> (\<forall>a. evidence_storable a \<longrightarrow> kept evidence_store tab cx a \<longrightarrow> ev_identity a \<noteq> i)
     \<and> becomes evidence_store evidence_storable tab cx
         \<lparr>ev_identity = i, ev_run_id = Identifier RunId (ce_run_governance_id cmd),
          ev_state = E_INITIALIZED, ev_version = AggregateVersion 0,
          ev_next_sequence = TransitionSequence 1, ev_history = [], ev_results = [], ev_references = []\<rparr> cx'"
proof -
  note server = evidence_on_server[OF assms(1,2)]
  have "build_add (store_port evidence_store pg sv) (evidence_built generated cmd) ev_identity cx = (Inr i, cx')"
    using run by (simp add: create_evidence_package_shape evidence_repository_is_port)
  from repository_on_server.stored_create_committed[OF server assms(3) _ this[folded evidence_store_simps(4)]]
    evidence_built_storable[OF generated]
  show ?thesis
    by (auto simp: becomes_def evidence_built_def evidence_new_def result_eqs
        pair_identity_def version_initial_def sequence_initial_def)
qed

theorem create_evidence_package_commits_witness:
  "ev_identity sample_evidence
     = \<lparr>governance_id = Identifier EvidencePackageId ''EVID-0001'', runtime_id = sample_runtime\<rparr>
   \<and> usable contents evidence_context"
  using create_evidence_package_commits[OF table_db.postgres_server_axioms ready_service_can_work
      run_context_facts(1) _ sample_evidence_created] sample_runtime_ok
  by (auto simp: sample_create_evidence_def)




definition sample_evidence_step :: "int \<Rightarrow> transition_command" where
  "sample_evidence_step n =
     \<lparr>tc_identity = ev_identity sample_evidence, tc_expected = AggregateVersion n, tc_actor = ''ops'',
      tc_occurred_at = Aware 100, tc_correlation = None, tc_reason = None\<rparr>"

lemma sample_evidence_stepped:
  "fst (handle_evidence (evidence_repository table_server ready_service) (StartCollection (sample_evidence_step 0))
     evidence_context) = Inr \<lparr>sr_operation = OpUpdated, sr_version = AggregateVersion 1\<rparr>"
  by code_simp

lemma sample_evidence_stale:
  "fst (handle_evidence (evidence_repository table_server ready_service) (StartCollection (sample_evidence_step 1))
     evidence_context)
   = Inl (OptimisticConcurrencyConflict ''EvidencePackage'' (ev_identity sample_evidence) (AggregateVersion 1)
       (AggregateVersion 1) (Some (AggregateVersion 0)))"
  by code_simp

lemma sample_evidence_step_request:
  "evidence_request_identity (StartCollection (sample_evidence_step n)) = ev_identity sample_evidence"
  "evidence_request_aware (StartCollection (sample_evidence_step n))"
  by (simp_all add: sample_evidence_step_def)



text \<open>
  The query of an Evidence Package shows what is stored and changes nothing: it answers with the snapshot of
  the stored aggregate, or fails with an infrastructure error, and every stored aggregate stays.
\<close>

theorem get_evidence_package_shows_stored:
  assumes "postgres_server pg tab tz" "can_work sv" "usable tab cx" "evidence_storable a" "kept evidence_store tab cx a"
    and run: "get_evidence_package (evidence_repository pg sv) (ev_identity a) cx = (q, cx')"
  shows "usable tab cx' \<and> kept evidence_store tab cx' = kept evidence_store tab cx
     \<and> (q = Inr \<lparr>es_identity = ev_identity a, es_run_id = ev_run_id a, es_state = ev_state a\<rparr> \<or> (\<exists>e. q = Inl e \<and> foundation_failure e))"
proof -
  have "load_view (store_port evidence_store pg sv) (st_identity evidence_store a)
      (\<lambda>a. \<lparr>es_identity = ev_identity a, es_run_id = ev_run_id a, es_state = ev_state a\<rparr>) cx = (q, cx')"
    using run by (simp add: get_evidence_package_def load_view_def evidence_repository_is_port Let_def)
  from repository_on_server.stored_view[OF evidence_on_server[OF assms(1,2)] assms(3-5) this]
  show ?thesis by simp
qed

theorem get_evidence_package_shows_stored_witness:
  "usable contents (snd (get_evidence_package (evidence_repository table_server ready_service) (ev_identity sample_evidence) evidence_context))"
  using get_evidence_package_shows_stored[OF table_db.postgres_server_axioms ready_service_can_work evidence_context_facts
      prod.collapse[symmetric]] by blast

end
