(* ===== verification/Review_Use_Cases.thy ===== *)
theory Review_Use_Cases
  imports Review_Repository Evidence_Use_Cases
begin

text \<open>
  The use cases of a Review: the handlers of
  \<^verbatim>\<open>usecases/create_review.py\<close>, \<^verbatim>\<open>get_review.py\<close>, \<^verbatim>\<open>start_review.py\<close>,
  \<^verbatim>\<open>cancel_review.py\<close>, \<^verbatim>\<open>add_review_finding.py\<close> and \<^verbatim>\<open>complete_review.py\<close>,
  over any repository; and what they do over the PostgreSQL one. Organised as
  \<^verbatim>\<open>Campaign_Use_Cases\<close>.
\<close>

section \<open>Handlers\<close>

definition review_repository :: "'db postgres \<Rightarrow> service \<Rightarrow> ('db exec_context, review) repository_port" where
  "review_repository pg sv =
     \<lparr>rp_get = review_repository_get pg sv, rp_add = review_repository_add pg sv,
      rp_save = review_repository_save pg sv\<rparr>"

record create_review_command =
  cv_review_governance_id :: string
  cv_target_governance_id :: string
  cv_reviewer_reference :: string

definition create_review ::
    "('s, review) repository_port \<Rightarrow> exn + runtime_identifier \<Rightarrow> create_review_command
     \<Rightarrow> ('s, domain_identity) prog" where
  "create_review repo generated cmd =
     pbind (plift (make_identifier ReviewId (cv_review_governance_id cmd)))
     (\<lambda>g. pbind (plift generated)
     (\<lambda>r. pbind (plift (make_identifier EvidencePackageId (cv_target_governance_id cmd)))
     (\<lambda>package_id. pbind (plift (make_review_target package_id))
     (\<lambda>target. pbind (plift (make_reviewer (cv_reviewer_reference cmd)))
     (\<lambda>reviewer. pbind (plift (review_new (pair_identity g r) target reviewer))
     (\<lambda>review. pbind (rp_add repo review)
     (\<lambda>_. preturn (rev_identity review))))))))"

record review_snapshot =
  vs_identity :: domain_identity
  vs_target_package_id :: governance_identifier
  vs_reviewer_reference :: string
  vs_state :: review_state

definition get_review :: "('s, review) repository_port \<Rightarrow> domain_identity \<Rightarrow> ('s, review_snapshot) prog" where
  "get_review repo i =
     pbind (rp_get repo i)
     (\<lambda>loaded. let review = la_aggregate loaded in
        preturn \<lparr>vs_identity = rev_identity review,
                 vs_target_package_id = target_package_id (rev_target review),
                 vs_reviewer_reference = reviewer_value (rev_reviewer review),
                 vs_state = rev_state review\<rparr>)"

definition start_review ::
    "('s, review) repository_port \<Rightarrow> transition_command \<Rightarrow> ('s, save_result) prog" where
  "start_review repo cmd =
     pbind (rp_get repo (tc_identity cmd))
     (\<lambda>loaded. pbind (plift (review_start (tc_actor cmd) (tc_occurred_at cmd)
                  (tc_correlation cmd) (tc_reason cmd) (la_aggregate loaded)))
     (\<lambda>review. rp_save repo review (tc_expected cmd)))"

definition cancel_review ::
    "('s, review) repository_port \<Rightarrow> reasoned_command \<Rightarrow> ('s, save_result) prog" where
  "cancel_review repo cmd =
     pbind (rp_get repo (rc_identity cmd))
     (\<lambda>loaded. pbind (plift (review_cancel (rc_reason cmd) (rc_actor cmd)
                  (rc_occurred_at cmd) (rc_correlation cmd) (la_aggregate loaded)))
     (\<lambda>review. rp_save repo review (rc_expected cmd)))"

record add_finding_command =
  af_identity :: domain_identity
  af_expected :: aggregate_version
  af_text :: string
  af_rationale :: "string option"
  af_references :: "string list"

definition add_review_finding ::
    "('s, review) repository_port \<Rightarrow> add_finding_command \<Rightarrow> ('s, save_result) prog" where
  "add_review_finding repo cmd =
     pbind (rp_get repo (af_identity cmd))
     (\<lambda>loaded. pbind (plift (review_add_finding (af_text cmd) (af_rationale cmd) (af_references cmd)
                  (la_aggregate loaded)))
     (\<lambda>review. rp_save repo review (af_expected cmd)))"

record complete_review_command =
  cpr_identity :: domain_identity
  cpr_expected :: aggregate_version
  cpr_disposition :: review_disposition
  cpr_rationale :: string
  cpr_actor :: string
  cpr_occurred_at :: datetime
  cpr_correlation :: "string option"

definition complete_review ::
    "('s, review) repository_port \<Rightarrow> complete_review_command \<Rightarrow> ('s, save_result) prog" where
  "complete_review repo cmd =
     pbind (rp_get repo (cpr_identity cmd))
     (\<lambda>loaded. pbind (plift (review_complete (cpr_disposition cmd) (cpr_rationale cmd) (cpr_actor cmd)
                  (cpr_occurred_at cmd) (cpr_correlation cmd) (la_aggregate loaded)))
     (\<lambda>review. rp_save repo review (cpr_expected cmd)))"


section \<open>All the commands that change a Review\<close>

datatype review_request =
  StartReview transition_command
| CancelReview reasoned_command
| AddFinding add_finding_command
| CompleteReview complete_review_command

fun review_request_identity :: "review_request \<Rightarrow> domain_identity" where
  "review_request_identity (StartReview cmd) = tc_identity cmd"
| "review_request_identity (CancelReview cmd) = rc_identity cmd"
| "review_request_identity (AddFinding cmd) = af_identity cmd"
| "review_request_identity (CompleteReview cmd) = cpr_identity cmd"

fun review_request_expected :: "review_request \<Rightarrow> aggregate_version" where
  "review_request_expected (StartReview cmd) = tc_expected cmd"
| "review_request_expected (CancelReview cmd) = rc_expected cmd"
| "review_request_expected (AddFinding cmd) = af_expected cmd"
| "review_request_expected (CompleteReview cmd) = cpr_expected cmd"

text \<open>The times a command carries are ones that a \<^verbatim>\<open>TIMESTAMPTZ\<close> column gives back.\<close>

fun review_request_aware :: "review_request \<Rightarrow> bool" where
  "review_request_aware (StartReview cmd) = is_aware (tc_occurred_at cmd)"
| "review_request_aware (CancelReview cmd) = is_aware (rc_occurred_at cmd)"
| "review_request_aware (AddFinding cmd) = True"
| "review_request_aware (CompleteReview cmd) = is_aware (cpr_occurred_at cmd)"

text \<open>The change a command asks of the aggregate.\<close>

fun review_request_change :: "review_request \<Rightarrow> review \<Rightarrow> exn + review" where
  "review_request_change (StartReview cmd) a =
     review_start (tc_actor cmd) (tc_occurred_at cmd) (tc_correlation cmd) (tc_reason cmd) a"
| "review_request_change (CancelReview cmd) a =
     review_cancel (rc_reason cmd) (rc_actor cmd) (rc_occurred_at cmd) (rc_correlation cmd) a"
| "review_request_change (AddFinding cmd) a =
     review_add_finding (af_text cmd) (af_rationale cmd) (af_references cmd) a"
| "review_request_change (CompleteReview cmd) a =
     review_complete (cpr_disposition cmd) (cpr_rationale cmd) (cpr_actor cmd) (cpr_occurred_at cmd)
       (cpr_correlation cmd) a"

text \<open>The handler a command goes to.\<close>

fun handle_review :: "('s, review) repository_port \<Rightarrow> review_request \<Rightarrow> ('s, save_result) prog" where
  "handle_review repo (StartReview cmd) = start_review repo cmd"
| "handle_review repo (CancelReview cmd) = cancel_review repo cmd"
| "handle_review repo (AddFinding cmd) = add_review_finding repo cmd"
| "handle_review repo (CompleteReview cmd) = complete_review repo cmd"

lemmas review_handlers =
  start_review_def cancel_review_def add_review_finding_def
  complete_review_def

lemma handle_review_shape:
  "handle_review repo req = load_change_save repo (review_request_identity req)
     (review_request_change req) (review_request_expected req)"
  by (cases req) (simp_all add: review_handlers load_change_save_def plift_rbind Let_def)

lemma review_repository_is_port: "review_repository = store_port review_store"
  by (intro ext) (simp add: review_repository_def store_port_def review_get_is_store
      review_add_is_store review_save_is_store)

lemma review_request_step:
  assumes "review_request_change req r = Inr r'"
  shows "review_step r r'"
  using assms by (cases req) (auto intro: review_step.intros)

lemma review_request_keeps:
  assumes "review_storable a" "review_request_aware req" "review_request_change req a = Inr a'"
  shows "review_storable a' \<and> rev_identity a' = rev_identity a
     \<and> version_value (rev_version a') = version_value (rev_version a) + 1"
proof -
  have ok: "review_ok a" using assms(1) by (simp add: review_storable_def)
  note step = review_request_step[OF assms(3)]
  have "history_aware (rev_history a') \<and> rev_identity a' = rev_identity a
     \<and> version_value (rev_version a') = version_value (rev_version a) + 1"
    using assms by (cases req) (auto simp: review_storable_def lifecycle_defs review_transition_Inr
        result_eqs history_aware_def review_moved_def)
  then show ?thesis
    using review_step_ok[OF step ok] by (simp add: review_storable_def)
qed

lemma review_request_advances:
  assumes "postgres_server pg tab tz" "can_work sv" "review_storable a" "review_request_aware req"
  shows "aggregate_repository.advances rev_identity (aversion review_store) review_storable
     (review_request_change req) a"
proof -
  note I = repository_on_server.advancesI[OF review_on_server[OF assms(1,2)]]
  show ?thesis
    by (rule I[unfolded review_store_simps]) (rule review_request_keeps[OF assms(3,4)])
qed

lemma review_aversion [simp]: "aversion review_store a = rev_version a"
  by (simp add: aversion_def)

text \<open>What \<^const>\<open>create_review\<close> builds before it adds.\<close>

definition review_built :: "exn + runtime_identifier \<Rightarrow> create_review_command \<Rightarrow> exn + review" where
  "review_built generated cmd =
     rbind (make_identifier ReviewId (cv_review_governance_id cmd))
     (\<lambda>g. rbind generated
     (\<lambda>r. rbind (make_identifier EvidencePackageId (cv_target_governance_id cmd))
     (\<lambda>package_id. rbind (make_review_target package_id)
     (\<lambda>target. rbind (make_reviewer (cv_reviewer_reference cmd))
     (\<lambda>reviewer. review_new (pair_identity g r) target reviewer)))))"

lemma create_review_shape: "create_review repo generated cmd = build_add repo (review_built generated cmd) rev_identity"
  by (simp add: create_review_def build_add_def review_built_def plift_rbind)

lemma review_built_storable:
  assumes "\<And>r. generated = Inr r \<Longrightarrow> runtime_identifier_ok r" "review_built generated cmd = Inr a"
  shows "review_storable a"
proof -
  from assms(2) obtain g r pid target reviewer where parts: "make_identifier ReviewId (cv_review_governance_id cmd) = Inr g"
    "generated = Inr r" "make_identifier EvidencePackageId (cv_target_governance_id cmd) = Inr pid"
    "make_review_target pid = Inr target" "make_reviewer (cv_reviewer_reference cmd) = Inr reviewer"
    "review_new (pair_identity g r) target reviewer = Inr a"
    by (auto simp: review_built_def rbind_eq_Inr)
  then have "identity_ok ReviewId (pair_identity g r)" "identifier_ok pid"
    using assms(1) by (auto simp: identity_ok_def pair_identity_def result_eqs)
  from review_new_ok[OF this parts(4-6)] parts(6) show ?thesis
    by (auto simp: review_storable_def review_new_def history_aware_def result_eqs)
qed


section \<open>An example to run\<close>

definition sample_create_review :: create_review_command where
  "sample_create_review =
     \<lparr>cv_review_governance_id = ''REVIEW-0001'', cv_target_governance_id = ''EVID-0001'',
      cv_reviewer_reference = ''reviewer''\<rparr>"

definition sample_review :: review where
  "sample_review =
     \<lparr>rev_identity = \<lparr>governance_id = Identifier ReviewId ''REVIEW-0001'', runtime_id = sample_runtime\<rparr>,
      rev_target = ReviewTarget (Identifier EvidencePackageId ''EVID-0001''),
      rev_reviewer = ReviewerReference ''reviewer'', rev_state = V_ASSIGNED,
      rev_version = version_initial, rev_next_sequence = sequence_initial, rev_history = [],
      rev_findings = [], rev_next_finding = 1, rev_disposition = None, rev_rationale = None,
      rev_cancellation = None\<rparr>"


lemma sample_review_built: "review_built (Inr sample_runtime) sample_create_review = Inr sample_review"
  by code_simp

definition review_context :: "table_db exec_context" where
  "review_context = snd (create_review (review_repository table_server ready_service)
     (Inr sample_runtime) sample_create_review evidence_context)"

lemma sample_review_created:
  "create_review (review_repository table_server ready_service) (Inr sample_runtime)
     sample_create_review evidence_context = (Inr (rev_identity sample_review), review_context)"
proof -
  have "fst (create_review (review_repository table_server ready_service) (Inr sample_runtime)
     sample_create_review evidence_context) = Inr (rev_identity sample_review)"
    by code_simp
  then show ?thesis by (simp add: review_context_def prod_eq_iff)
qed

lemma review_context_facts:
  "usable contents review_context" "review_storable sample_review"
  "kept review_store contents review_context sample_review"
proof -
  show ok: "review_storable sample_review"
    by (rule review_built_storable[OF _ sample_review_built]) (simp add: sample_runtime_ok)
  have "build_add (store_port review_store table_server ready_service)
      (review_built (Inr sample_runtime) sample_create_review) rev_identity evidence_context
    = (Inr (rev_identity sample_review), review_context)"
    using sample_review_created by (simp add: create_review_shape review_repository_is_port)
  note created = repository_on_server.stored_create_committed[OF review_on_tables.repository_on_server_axioms
      evidence_context_facts(1) _ this[folded review_store_simps(4)]]
  show "usable contents review_context" "kept review_store contents review_context sample_review"
    using created review_built_storable[of "Inr sample_runtime"] sample_runtime_ok ok sample_review_built by auto
qed

section \<open>What the use cases guarantee\<close>

text \<open>
  Creating a Review: if the handler returns, it returns the identity made of the command's
  governance identifier and the generated runtime identifier, no Review with that identity was
  stored before, and the database now differs in one thing: it keeps a fresh ASSIGNED Review of
  the command's Evidence Package by the command's reviewer.
\<close>

theorem create_review_commits:
  assumes "postgres_server pg tab tz" "can_work sv" "usable tab cx"
    and generated: "\<And>r. generated = Inr r \<Longrightarrow> runtime_identifier_ok r"
    and run: "create_review (review_repository pg sv) generated cmd cx = (Inr i, cx')"
  shows "\<exists>r. generated = Inr r \<and> i = \<lparr>governance_id = Identifier ReviewId (cv_review_governance_id cmd), runtime_id = r\<rparr>
     \<and> usable tab cx' \<and> (\<forall>a. review_storable a \<longrightarrow> kept review_store tab cx a \<longrightarrow> rev_identity a \<noteq> i)
     \<and> becomes review_store review_storable tab cx
         \<lparr>rev_identity = i,
          rev_target = ReviewTarget (Identifier EvidencePackageId (cv_target_governance_id cmd)),
          rev_reviewer = ReviewerReference (cv_reviewer_reference cmd), rev_state = V_ASSIGNED,
          rev_version = AggregateVersion 0, rev_next_sequence = TransitionSequence 1,
          rev_history = [], rev_findings = [], rev_next_finding = 1, rev_disposition = None,
          rev_rationale = None, rev_cancellation = None\<rparr> cx'"
proof -
  note server = review_on_server[OF assms(1,2)]
  have "build_add (store_port review_store pg sv) (review_built generated cmd) rev_identity cx = (Inr i, cx')"
    using run by (simp add: create_review_shape review_repository_is_port)
  from repository_on_server.stored_create_committed[OF server assms(3) _ this[folded review_store_simps(4)]]
    review_built_storable[OF generated]
  show ?thesis
    by (auto simp: becomes_def review_built_def review_new_def result_eqs
        pair_identity_def version_initial_def sequence_initial_def)
qed

theorem create_review_commits_witness:
  "rev_identity sample_review
     = \<lparr>governance_id = Identifier ReviewId ''REVIEW-0001'', runtime_id = sample_runtime\<rparr>
   \<and> usable contents review_context"
  using create_review_commits[OF table_db.postgres_server_axioms ready_service_can_work
      evidence_context_facts(1) _ sample_review_created] sample_runtime_ok
  by (auto simp: sample_create_review_def)




definition sample_review_step :: "int \<Rightarrow> transition_command" where
  "sample_review_step n =
     \<lparr>tc_identity = rev_identity sample_review, tc_expected = AggregateVersion n, tc_actor = ''ops'',
      tc_occurred_at = Aware 100, tc_correlation = None, tc_reason = None\<rparr>"

lemma sample_review_stepped:
  "fst (handle_review (review_repository table_server ready_service) (StartReview (sample_review_step 0))
     review_context) = Inr \<lparr>sr_operation = OpUpdated, sr_version = AggregateVersion 1\<rparr>"
  by code_simp

lemma sample_review_stale:
  "fst (handle_review (review_repository table_server ready_service) (StartReview (sample_review_step 1))
     review_context)
   = Inl (OptimisticConcurrencyConflict ''Review'' (rev_identity sample_review) (AggregateVersion 1)
       (AggregateVersion 1) (Some (AggregateVersion 0)))"
  by code_simp

lemma sample_review_step_request:
  "review_request_identity (StartReview (sample_review_step n)) = rev_identity sample_review"
  "review_request_aware (StartReview (sample_review_step n))"
  by (simp_all add: sample_review_step_def)



text \<open>
  The query of a Review shows what is stored and changes nothing: it answers with the snapshot of
  the stored aggregate, or fails with an infrastructure error, and every stored aggregate stays.
\<close>

theorem get_review_shows_stored:
  assumes "postgres_server pg tab tz" "can_work sv" "usable tab cx" "review_storable a" "kept review_store tab cx a"
    and run: "get_review (review_repository pg sv) (rev_identity a) cx = (q, cx')"
  shows "usable tab cx' \<and> kept review_store tab cx' = kept review_store tab cx
     \<and> (q = Inr \<lparr>vs_identity = rev_identity a, vs_target_package_id = target_package_id (rev_target a),
        vs_reviewer_reference = reviewer_value (rev_reviewer a), vs_state = rev_state a\<rparr> \<or> (\<exists>e. q = Inl e \<and> foundation_failure e))"
proof -
  have "load_view (store_port review_store pg sv) (st_identity review_store a)
      (\<lambda>a. \<lparr>vs_identity = rev_identity a, vs_target_package_id = target_package_id (rev_target a),
        vs_reviewer_reference = reviewer_value (rev_reviewer a), vs_state = rev_state a\<rparr>) cx = (q, cx')"
    using run by (simp add: get_review_def load_view_def review_repository_is_port Let_def)
  from repository_on_server.stored_view[OF review_on_server[OF assms(1,2)] assms(3-5) this]
  show ?thesis by simp
qed

theorem get_review_shows_stored_witness:
  "usable contents (snd (get_review (review_repository table_server ready_service) (rev_identity sample_review) review_context))"
  using get_review_shows_stored[OF table_db.postgres_server_axioms ready_service_can_work review_context_facts
      prod.collapse[symmetric]] by blast

end
