(* ===== verification/Transactions.thy ===== *)
theory Transactions
  imports Table_Engine
begin

text \<open>
  What \<^verbatim>\<open>shared/persistence/postgres.py\<close> guarantees on any server that satisfies
  \<open>postgres_server\<close>: units of work are all or nothing, composed units are one transaction, a
  composed transaction with a failed step never commits, nesting is refused, and a closed service
  stays closed. The examples run on the table server.
\<close>

definition sample_root :: params where
  "sample_root =
     [(K_runtime_id, SText ''00000000-0000-4000-8000-000000000001''), (K_governance_id, SText ''CAMP-0001''),
      (K_scope_statement, SText ''scope''), (K_lifecycle_state, SText ''DRAFT''), (K_version, SInt 0),
      (K_next_transition_sequence, SInt 1)]"

definition sample_body :: "(table_db, row list) prog" where
  "sample_body = execute table_server (Insert T_campaign sample_root)"

text \<open>The same row twice: the second statement violates the primary key.\<close>

definition sample_twice :: "(table_db, row list) prog list" where
  "sample_twice = [sample_body, sample_body]"

definition start_context :: "table_db exec_context" where
  "start_context = \<lparr>cx_db = empty_db, cx_active = False, cx_scope = None\<rparr>"

lemma start_context_idle: "idle start_context" "\<not> cx_active start_context"
  by (simp_all add: start_context_def idle_def)



text \<open>
  C32. Composing units of work of one service is running their bodies one after the other in a
  single transaction: same result, same final state.
\<close>

theorem composed_is_one_transaction:
  assumes "can_work sv" "idle cx"
  shows "run_composed pg sv (map (unit_of_work pg sv) bodies) cx
       = unit_of_work pg sv (peach (\<lambda>body. body) bodies) cx"
  using assms by (simp add: run_composed_as_transaction unit_of_work_idle idle_def)

theorem composed_is_one_transaction_witness:
  "isl (fst (run_composed table_server ready_service
     (map (unit_of_work table_server ready_service) sample_twice) start_context))"
  unfolding composed_is_one_transaction[OF ready_service_can_work start_context_idle(1)]
  by code_simp





text \<open>
  A closed service is closed for good: no unit of work and no composed transaction touches the
  database, a health check answers false, and it can neither be initialized again nor closed twice.
\<close>

theorem closed_service_does_nothing:
  "unit_of_work pg (service_close sv) body cx
     = (Inl (persistence_error ''Persistence service is closed'' ''unit_of_work''), cx)
     \<and> run_composed pg (service_close sv) operations cx
     = (Inl (persistence_error ''Persistence service is closed'' ''run_composed''), cx)
     \<and> service_initialize creating probing (service_close sv)
     = (Inl (persistence_error ''Persistence service is closed'' ''initialize''), service_close sv)
     \<and> fst (service_check probing (service_close sv)) = False
     \<and> service_close (service_close sv) = service_close sv"
  by (simp add: service_close_def unit_of_work_def run_composed_def compose_guard_def
      ensure_can_work_def service_initialize_def service_check_def)

end
