(* ===== verification/Spec2Isabelle.thy ===== *)
theory Spec2Isabelle
  imports Ledger_Repository Proposal_Guarantees Review_Use_Cases Transactions
begin

text \<open>
  This development models the governed core of the empirical platform: the four aggregates of a
  research campaign (Campaign, Run, Evidence Package, Review), how they are mapped to durable
  records and reconstructed, how the PostgreSQL repositories store them under optimistic
  concurrency, the units of work and composed transactions around the repositories, and the use
  cases that change them. Beside it stands the trading core: the operator's append-only position
  ledger and the engine that turns a configuration and market snapshots into a trade proposal or a
  reason not to trade. Paths are under \<^verbatim>\<open>src/empirical_platform\<close>.

  \<^bold>\<open>How the parts interact.\<close> A handler (\<^verbatim>\<open>usecases/*.py\<close>) loads an aggregate from its repository,
  applies one operation of the aggregate and saves the result against the version its command
  names. The aggregate checks the lifecycle, advances version and transition sequence and appends
  to its history (\<^verbatim>\<open>campaign/aggregate.py\<close>, \<^verbatim>\<open>run/aggregate.py\<close>, \<^verbatim>\<open>evidence/package.py\<close>,
  \<^verbatim>\<open>review/aggregate.py\<close>). The repository (\<^verbatim>\<open>shared/persistence/postgres_repositories\<close>) maps it to
  a durable record (\<^verbatim>\<open>mapper.py\<close>) and sends SQL through a unit of work
  (\<^verbatim>\<open>shared/persistence/postgres.py\<close>); loading reads the rows back, maps them and validates the
  restored state (\<^verbatim>\<open>_reconstruction.py\<close>, \<^verbatim>\<open>shared/domain/reconstruction.py\<close>). A position event is
  validated by folding the events of its position in time order and appended under an advisory lock
  through the same units of work (\<^verbatim>\<open>decision_candidate/operator_position_ledger.py\<close>,
  \<^verbatim>\<open>operator_position_event_repository.py\<close>). The proposal engine
  (\<^verbatim>\<open>decision_candidate/trade_proposal.py\<close>) is a pure function of a trading configuration
  (\<^verbatim>\<open>operator_trading_configuration.py\<close>) and snapshots (\<^verbatim>\<open>product_market_inputs.py\<close>).

  \<^bold>\<open>Theories.\<close>
  \<^item> \<open>Prelude\<close>: computations that may raise, loops that stop at the first exception, the string
    predicates of the code, numbered lists.
  \<^item> \<open>Values\<close>: identifiers, identity pairs, versions, transition sequences, and the exceptions.
  \<^item> \<open>Transitions\<close>: transition records, their durable form and the shared history validator; the
    invariant \<open>history_inv\<close> of an aggregate's history.
  \<^item> \<open>Campaign\<close>, \<open>Run\<close>, \<open>Evidence\<close>, \<open>Review\<close>: per aggregate the record, the constructor, every
    operation, both mapper directions and reconstruction. \<open>X_ok\<close> is the invariant; \<open>X_step\<close> is one
    accepted operation and \<open>X_live\<close> the states the program can reach, both inductive. Every
    operation keeps \<open>X_ok\<close>; a reachable aggregate survives mapping and reconstruction unchanged;
    reconstruction accepts exactly the states its rules describe; an aggregate is stuck exactly in a
    terminal state.
  \<^item> \<open>Sql\<close>, \<open>Postgres\<close>: the tables of the m022 migration and the statements the repositories send.
    PostgreSQL is not under \<^verbatim>\<open>src\<close>: the locale \<open>postgres_server\<close> states what its documentation
    promises of the statements that succeed, and says nothing of those that fail.
  \<^item> \<open>Table_Engine\<close>: a small server that keeps tables in memory and satisfies those laws, so that
    whole runs of the program can be evaluated.
  \<^item> \<open>Unit_Of_Work\<close>, \<open>Transactions\<close>: the persistence service, the unit of work, the composed scope
    and its poisoning; all-or-nothing, no commit of a failure, no nesting.
  \<^item> \<open>Store\<close>, \<open>Repository\<close>, \<open>Transition_Rows\<close>: what the four repositories share. The locale
    \<open>store_shape\<close> is what a repository owes to its tables, \<open>stored_aggregate\<close> adds a server, and
    \<open>aggregate_repository\<close> is the abstract contract (at most one aggregate per identity, \<open>save\<close>
    replaces exactly that one, stale versions are refused, failures change nothing).
  \<^item> \<open>Campaign_Repository\<close>, \<open>Run_Repository\<close>, \<open>Evidence_Repository\<close>, \<open>Review_Repository\<close>: each
    repository transcribed from its file, shown equal to the shared shape, and the interpretation of
    the contract on it.
  \<^item> \<open>Use_Cases\<close>, \<open>Campaign_Use_Cases\<close>, \<open>Run_Use_Cases\<close>, \<open>Evidence_Use_Cases\<close>,
    \<open>Review_Use_Cases\<close>: the handlers over a repository port, and what a command that succeeds or
    fails did to the stored aggregates.
  \<^item> \<open>Decimals\<close>, \<open>Clock\<close>, \<open>Digest\<close>: the standard library the trading core computes with: decimal
    arithmetic with its 28 digits and half-even rounding, the proleptic calendar and zones of
    \<^verbatim>\<open>datetime\<close>, and \<^verbatim>\<open>sha256\<close>.
  \<^item> \<open>Position_Ledger\<close>, \<open>Ledger_Repository\<close>: events, the folding rules, the validated append, the
    derivation at a cutoff; the table, its mappers and the use cases. The fold accepts exactly the
    coherent histories, an append keeps the ledger coherent, the derivation never fails on a
    coherent ledger and does not depend on what lies after the cutoff; the stored ledger stays
    coherent whatever the interleaving of writers (the step relation \<open>writer_step\<close>).
  \<^item> \<open>Trading_Configuration\<close>, \<open>Market_Inputs\<close>, \<open>Trade_Proposal\<close>, \<open>Proposal_Engine\<close>: the policy
    record, the snapshots, the proposal with its fingerprint, every gate and the evaluation.
    \<open>Proposal_Facts\<close>, \<open>Order_Sizing\<close> and \<open>Proposal_Guarantees\<close> show what it guarantees: which
    reason is reported, that a proposal exists only when every safety condition holds, and the
    limits its order respects.

  \<^bold>\<open>Correspondence.\<close> A class is a record with the class's fields, an enumeration a datatype, an
  exception a constructor of \<open>exn\<close> with the fields the code sets; a function that may raise returns
  \<open>exn + 'a\<close>, one that also works on a database or an execution context is a state transformer
  \<open>'s \<Rightarrow> (exn + 'a) \<times> 's\<close>. Python's integers are \<open>int\<close>; \<open>row_ok\<close> bounds what an INTEGER column takes
  by its 32 bits. Strings are lists of characters with code points below 256. A datetime is a naive
  reading or an aware instant in microseconds. Tests of \<^verbatim>\<open>isinstance\<close> that typing settles are not
  repeated. A \<^verbatim>\<open>Decimal\<close> is a sign, a coefficient and an exponent. No definition uses fuel: every
  loop of the modelled code is a recursion on a list or, for digits, on a number.

  \<^bold>\<open>Not modelled.\<close> The command line entry points, configuration, logging, object storage and the
  in-memory fake are input and output around this core. The use cases and tables of decision to
  approval and the research studies over market data (the other files of \<^verbatim>\<open>decision_candidate\<close>,
  their use cases, repositories and migrations) are not modelled yet.
\<close>

section \<open>Two writers\<close>

text \<open>Two changes of the sample Campaign, both made from version 0.\<close>

definition sample_revise :: "int \<Rightarrow> revise_scope_command" where
  "sample_revise n =
     \<lparr>rs_identity = camp_identity sample_campaign, rs_expected = AggregateVersion n,
      rs_scope_statement = ''another scope''\<rparr>"

definition prepared_campaign :: campaign where
  "prepared_campaign = projr (campaign_request_change (PrepareCampaign (sample_prepare 0)) sample_campaign)"

definition revised_campaign :: campaign where
  "revised_campaign = projr (campaign_request_change (ReviseScope (sample_revise 0)) sample_campaign)"

lemma sample_changes:
  "campaign_request_change (PrepareCampaign (sample_prepare 0)) sample_campaign = Inr prepared_campaign"
  "campaign_request_change (ReviseScope (sample_revise 0)) sample_campaign = Inr revised_campaign"
  by code_simp+

lemma sample_changes_storable:
  "campaign_storable prepared_campaign \<and> camp_identity prepared_campaign = camp_identity sample_campaign"
  "campaign_storable revised_campaign \<and> camp_identity revised_campaign = camp_identity sample_campaign"
  using campaign_request_keeps[OF campaign_context_facts(2) _ sample_changes(1)]
    campaign_request_keeps[OF campaign_context_facts(2) _ sample_changes(2)]
  by (simp_all add: sample_prepare_def)

text \<open>
  C9. The first writer wins: when two writers save changes of the same stored Campaign against the
  same expected version, and the first one has advanced the version, the second one fails, and what
  the first one wrote is what stays stored.
\<close>

theorem first_writer_wins:
  assumes "postgres_server pg tab tz" "can_work sv" "usable tab cx"
    "campaign_storable a" "campaign_storable b" "campaign_storable c" "kept campaign_store tab cx c"
    "camp_identity a = camp_identity c" "camp_identity b = camp_identity c"
    and first: "campaign_repository_save pg sv a v cx = (Inr res, cx')" "v < camp_version a"
    and second: "campaign_repository_save pg sv b v cx' = (r, cx'')" "v \<le> camp_version b"
  shows "\<exists>e. r = Inl e \<and> kept campaign_store tab cx' a
     \<and> (commit_failure e \<or> kept campaign_store tab cx'' = kept campaign_store tab cx')"
  using repository_on_server.stored_second_writer[OF campaign_on_server[OF assms(1,2)] assms(3-7)]
    assms(8,9) first second by (simp add: campaign_save_is_store)

theorem first_writer_wins_witness:
  "\<exists>cx' e cx''. campaign_repository_save table_server ready_service revised_campaign (AggregateVersion 0) cx'
       = (Inl e, cx'') \<and> kept campaign_store contents cx' prepared_campaign"
proof -
  let ?one = "campaign_repository_save table_server ready_service prepared_campaign (AggregateVersion 0) campaign_context"
  let ?two = "campaign_repository_save table_server ready_service revised_campaign (AggregateVersion 0) (snd ?one)"
  have "fst ?one = Inr \<lparr>sr_operation = OpUpdated, sr_version = AggregateVersion 1\<rparr>" by code_simp
  then have one: "?one = (Inr \<lparr>sr_operation = OpUpdated, sr_version = AggregateVersion 1\<rparr>, snd ?one)"
    by (simp add: prod_eq_iff)
  have two: "?two = (fst ?two, snd ?two)" by simp
  have later: "AggregateVersion 0 < camp_version prepared_campaign" "AggregateVersion 0 \<le> camp_version revised_campaign"
    by code_simp+
  note s = sample_changes_storable
  from first_writer_wins[OF table_db.postgres_server_axioms ready_service_can_work campaign_context_facts(1)
      s(1)[THEN conjunct1] s(2)[THEN conjunct1] campaign_context_facts(2,3)
      s(1)[THEN conjunct2] s(2)[THEN conjunct2] one later(1) two later(2)] two
  show ?thesis by metis
qed

section \<open>A race\<close>

text \<open>
  A handler saves against the version its command names, not the one it loaded. If another handler
  advances the aggregate to exactly the named version between the load and the save, the save takes
  the path for an unchanged aggregate: it overwrites the root row and leaves the other writer's
  transition rows, and the Campaign can no longer be reconstructed.
\<close>

definition race :: "(exn + save_result) \<times> (exn + save_result) \<times> (exn + campaign loaded_aggregate)" where
  "race =
     (let repo = campaign_repository table_server ready_service; i = camp_identity sample_campaign;
          (loaded, cx1) = rp_get repo i campaign_context;
          (one, cx2) = handle_campaign repo (PrepareCampaign (sample_prepare 0)) cx1;
          changed = campaign_request_change (ReviseScope (sample_revise 1)) (la_aggregate (projr loaded));
          (two, cx3) = rp_save repo (projr changed) (rs_expected (sample_revise 1)) cx2
      in (one, two, fst (rp_get repo i cx3)))"

theorem interleaved_handlers_corrupt:
  "race =
     (Inr \<lparr>sr_operation = OpUpdated, sr_version = AggregateVersion 1\<rparr>,
      Inr \<lparr>sr_operation = OpUnchanged, sr_version = AggregateVersion 1\<rparr>,
      Inl (InvalidPersistedAggregateState ''Campaign''
        ''final transition state does not match restored current state'' (Some (camp_identity sample_campaign))))"
  by code_simp

end
